(* ===== verification/Prelude.thy ===== *)
theory Prelude
  imports Main "HOL-Library.Word" "HOL-Library.FSet"
begin

text \<open>
  Shared vocabulary of the development: the C integer types, the result type of a
  handler (a kernel oops or a value), the generic facts on lists, finite sets and words
  that the component theories use, and the theorem collections they extend.
\<close>

section \<open>Collections\<close>

named_theorems handler_defs \<open>definitions of the handlers of a scheduling policy\<close>
named_theorems frame_simps \<open>what an operation leaves unchanged\<close>

section \<open>C integers\<close>

type_synonym u32 = "32 word"
type_synonym u64 = "64 word"

text \<open>\<open>unsigned long\<close> is 64 bits wide on the LP64 targets of the modules.\<close>

type_synonym ulong = "64 word"

section \<open>Kernel faults and results\<close>

text \<open>
  A handler either returns or runs into undefined behaviour. The faults the policies of
  this repository can run into are told apart: a null pointer, an object already given
  back to the allocator, an uninitialised local, a zero divisor, a bit or array index
  outside its object, a signed sum outside the type, and a loop that never ends.
\<close>

datatype fault =
    NullDeref
  | UseAfterFree
  | UninitRead
  | DivByZero
  | OutOfBounds
  | SignedOverflow
  | Hang

type_synonym 'a res = "fault + 'a"

definition res_bind :: "'a res \<Rightarrow> ('a \<Rightarrow> 'b res) \<Rightarrow> 'b res" where
  "res_bind m f = (case m of Inl e \<Rightarrow> Inl e | Inr x \<Rightarrow> f x)"

definition res_map :: "('a \<Rightarrow> 'b) \<Rightarrow> 'a res \<Rightarrow> 'b res" where
  "res_map f m = (case m of Inl e \<Rightarrow> Inl e | Inr x \<Rightarrow> Inr (f x))"

lemma res_bind_simps [simp]:
  "res_bind (Inl e) f = Inl e"
  "res_bind (Inr x) f = f x"
  by (simp_all add: res_bind_def)

lemma res_map_simps [simp]:
  "res_map f (Inl e) = Inl e"
  "res_map f (Inr x) = Inr (f x)"
  by (simp_all add: res_map_def)

lemma res_bind_eq_Inr: "res_bind m f = Inr y \<longleftrightarrow> (\<exists>x. m = Inr x \<and> f x = Inr y)"
  by (cases m) auto

lemma res_map_eq_Inr: "res_map f m = Inr y \<longleftrightarrow> (\<exists>x. m = Inr x \<and> y = f x)"
  by (cases m) auto

section \<open>Lists without an element\<close>

text \<open>\<open>without p xs\<close> is the list with every occurrence of \<open>p\<close> unlinked.\<close>

abbreviation without :: "'a \<Rightarrow> 'a list \<Rightarrow> 'a list" where
  "without p xs \<equiv> filter (\<lambda>q. q \<noteq> p) xs"

lemma without_id [simp]: "p \<notin> set xs \<Longrightarrow> without p xs = xs"
  by (induction xs) auto

lemma without_head: "distinct (p # xs) \<Longrightarrow> without p (p # xs) = xs"
  by simp

lemma distinct_requeue: "distinct xs \<Longrightarrow> distinct (without p xs @ [p])"
  by simp

section \<open>Finite sets as cpu masks\<close>

text \<open>
  A \<open>cpumask_t\<close> is a bitmap over the possible cpus: a finite set of cpu numbers.
\<close>

type_synonym cpumask = "nat fset"

abbreviation cpumask_test_cpu :: "nat \<Rightarrow> cpumask \<Rightarrow> bool" where
  "cpumask_test_cpu c m \<equiv> c |\<in>| m"

abbreviation cpumask_set_cpu :: "nat \<Rightarrow> cpumask \<Rightarrow> cpumask" where
  "cpumask_set_cpu c m \<equiv> finsert c m"

abbreviation cpumask_clear_cpu :: "nat \<Rightarrow> cpumask \<Rightarrow> cpumask" where
  "cpumask_clear_cpu c m \<equiv> m |-| {|c|}"

abbreviation cpumask_intersects :: "cpumask \<Rightarrow> cpumask \<Rightarrow> bool" where
  "cpumask_intersects a b \<equiv> a |\<inter>| b \<noteq> {||}"

section \<open>Words\<close>

lemma word_sub_wrap:
  fixes a b :: "'l::len word"
  assumes "a < b"
  shows "unat (a - b) = 2 ^ LENGTH('l) - (unat b - unat a)"
proof -
  have lt: "unat a < unat b" using assms by (simp add: word_less_nat_alt)
  have "unat b < 2 ^ LENGTH('l)" by (rule unsigned_less)
  with lt show ?thesis by (simp add: unat_sub_if')
qed

lemma sint_small:
  fixes w :: "32 word"
  assumes "uint w < 2 ^ 31"
  shows "sint w = uint w"
proof -
  have "(- (2 ^ 31) :: int) \<le> 0" by simp
  then have "- (2 ^ 31) \<le> uint w" using uint_ge_0 by (rule order_trans)
  then have "signed_take_bit 31 (uint w) = uint w"
    using assms by (rule signed_take_bit_int_eq_self)
  then show ?thesis by (simp add: sint_uint)
qed

end
