(* ===== verification/Saakm.thy ===== *)
theory Saakm
  imports Prelude
begin

text \<open>
  The SaaKM (formerly Ipanema) framework as a policy module sees it: the states of a
  thread and of a core, the runqueues, the task fields a policy reads, and the calls a
  policy makes. The framework itself lives in the kernel tree, outside this repository:
  its calls are the fields of the record \<open>kapi\<close>, a parameter of every handler, and
  the locale \<open>saakm_framework\<close> states what docs/ and papiers/ promise of them. A
  policy is a table of handlers; the locale \<open>saakm_policy\<close> states what such a table
  owes the framework and proves once what follows for a whole run.
\<close>

section \<open>Threads, cores and runqueues\<close>

text \<open>The seven thread states, in the order of the C enumeration.\<close>

datatype ipanema_state =
    IPANEMA_NOT_QUEUED
  | IPANEMA_MIGRATING
  | IPANEMA_RUNNING
  | IPANEMA_READY
  | IPANEMA_BLOCKED
  | IPANEMA_TERMINATED
  | IPANEMA_READY_TICK

text \<open>The policies keep the state in an \<open>int\<close> field: the enumerator's value.\<close>

fun state_code :: "ipanema_state \<Rightarrow> int" where
  "state_code IPANEMA_NOT_QUEUED = 0"
| "state_code IPANEMA_MIGRATING = 1"
| "state_code IPANEMA_RUNNING = 2"
| "state_code IPANEMA_READY = 3"
| "state_code IPANEMA_BLOCKED = 4"
| "state_code IPANEMA_TERMINATED = 5"
| "state_code IPANEMA_READY_TICK = 6"

lemma state_code_inj [simp]: "state_code a = state_code b \<longleftrightarrow> a = b"
  by (cases a; cases b) auto

text \<open>\<open>IPANEMA_READY_TICK\<close> is documented as equivalent to \<open>IPANEMA_READY\<close>.\<close>

fun norm_state :: "ipanema_state \<Rightarrow> ipanema_state" where
  "norm_state IPANEMA_READY_TICK = IPANEMA_READY"
| "norm_state st = st"

lemma norm_state_iff [simp]:
  "norm_state st = IPANEMA_RUNNING \<longleftrightarrow> st = IPANEMA_RUNNING"
  "norm_state st = IPANEMA_TERMINATED \<longleftrightarrow> st = IPANEMA_TERMINATED"
  "norm_state st = IPANEMA_BLOCKED \<longleftrightarrow> st = IPANEMA_BLOCKED"
  "norm_state st = IPANEMA_NOT_QUEUED \<longleftrightarrow> st = IPANEMA_NOT_QUEUED"
  "norm_state st = IPANEMA_MIGRATING \<longleftrightarrow> st = IPANEMA_MIGRATING"
  "IPANEMA_RUNNING = norm_state st \<longleftrightarrow> st = IPANEMA_RUNNING"
  "IPANEMA_TERMINATED = norm_state st \<longleftrightarrow> st = IPANEMA_TERMINATED"
  by (cases st; simp)+

datatype core_state = IPANEMA_ACTIVE_CORE | IPANEMA_IDLE_CORE

type_synonym task = nat
type_synonym cpu = nat
type_synonym addr = nat

text \<open>
  A runqueue is one embedded in the per-cpu core structure, or the one a policy shares
  between all cores. A null \<open>struct ipanema_rq *\<close> is \<open>None\<close>.
\<close>

datatype rqid = LocalRq cpu | GlobalRq

text \<open>
  The kernel side: for every task its SaaKM state, the runqueue it sits in, its cpu
  (\<open>task_cpu\<close>), its \<open>policy_metadata\<close> pointer and its pid; for every runqueue the tasks
  in order; for every cpu the running task (\<open>ipanema_current\<close>).
\<close>

record kernel =
  k_state :: "task \<Rightarrow> ipanema_state"
  k_rq :: "task \<Rightarrow> rqid option"
  k_queue :: "rqid \<Rightarrow> task list"
  k_current :: "cpu \<Rightarrow> task option"
  k_cpu :: "task \<Rightarrow> cpu"
  k_meta :: "task \<Rightarrow> addr option"
  k_pid :: "task \<Rightarrow> u32"

definition kernel_wf :: "kernel \<Rightarrow> bool" where
  "kernel_wf k \<longleftrightarrow> (\<forall>x. distinct (k_queue k x)) \<and>
     (\<forall>p x. p \<in> set (k_queue k x) \<longleftrightarrow> k_rq k p = Some x)"

lemma kernel_wfD:
  assumes "kernel_wf k"
  shows "distinct (k_queue k x)" "p \<in> set (k_queue k x) \<longleftrightarrow> k_rq k p = Some x"
  using assms by (auto simp: kernel_wf_def)

section \<open>The calls of the framework\<close>

text \<open>
  The functions of the framework the policies call, the wake flags they test, the
  value of the scheduler's \<open>TASK_RUNNING\<close>, the number of cpu identifiers, the hardware threads that
  share the physical core of a cpu, and the bytes of the object \<open>kzalloc\<close> gives for a request of 4 bytes
  (it rounds up to a size class and zeroes the object).
\<close>

record kapi =
  change_state :: "task \<Rightarrow> ipanema_state \<Rightarrow> cpu \<Rightarrow> rqid option \<Rightarrow> kernel \<Rightarrow> kernel"
  first_task :: "kernel \<Rightarrow> rqid \<Rightarrow> task option"
  remove_task :: "rqid \<Rightarrow> task \<Rightarrow> kernel \<Rightarrow> kernel"
  init_rq :: "rqid \<Rightarrow> kernel \<Rightarrow> kernel"
  WF_EXEC :: u32
  WF_SYNC :: u32
  TASK_RUNNING :: int
  nr_cpu_ids :: nat
  cpu_smt_mask :: "cpu \<Rightarrow> nat fset"
  ksize_of_4 :: nat

text \<open>
  What is documented of them (papiers/nca2025/saakm.tex, docs/ipanema-documentation):
  \<open>change_state\<close> is responsible for the thread states and for adding and removing threads
  from the runqueues; a FIFO runqueue always inserts at its end; a task that becomes
  running is the \<open>ipanema_current\<close> of its next cpu; a migrating task ends up on the next
  cpu; \<open>TASK_RUNNING\<close> is 0 in linux/sched.h. Nothing is said of the cpu of a task that is
  moved to another cpu number in any state but \<open>IPANEMA_MIGRATING\<close>. An initialised
  runqueue is empty.
\<close>

locale saakm_framework =
  fixes api :: kapi
  assumes cs_state: "norm_state (k_state (change_state api p st c r k) p) = norm_state st"
    and cs_state_other: "q \<noteq> p \<Longrightarrow> k_state (change_state api p st c r k) q = k_state k q"
    and cs_rq: "k_rq (change_state api p st c r k) = (k_rq k)(p := r)"
    and cs_queue: "kernel_wf k \<Longrightarrow> k_queue (change_state api p st c r k) x =
          without p (k_queue k x) @ (if r = Some x then [p] else [])"
    and cs_current_run: "k_current (change_state api p IPANEMA_RUNNING c r k) =
          (k_current k)(c := Some p)"
    and cs_current_other: "st \<noteq> IPANEMA_RUNNING \<Longrightarrow>
          k_current (change_state api p st c r k) =
          (\<lambda>d. if k_current k d = Some p then None else k_current k d)"
    and cs_cpu_other: "q \<noteq> p \<Longrightarrow> k_cpu (change_state api p st c r k) q = k_cpu k q"
    and cs_cpu_same: "c = k_cpu k p \<Longrightarrow> k_cpu (change_state api p st c r k) = k_cpu k"
    and cs_cpu_migrate: "k_cpu (change_state api p IPANEMA_MIGRATING c r k) p = c"
    and cs_meta: "k_meta (change_state api p st c r k) = k_meta k"
    and cs_pid: "k_pid (change_state api p st c r k) = k_pid k"
    and first_task: "first_task api k x =
          (case k_queue k x of [] \<Rightarrow> None | p # _ \<Rightarrow> Some p)"
    and rt_queue: "k_queue (remove_task api x p k) =
          (k_queue k)(x := without p (k_queue k x))"
    and rt_rq: "k_rq (remove_task api x p k) = (k_rq k)(p := None)"
    and rt_state: "k_state (remove_task api x p k) = k_state k"
    and rt_current: "k_current (remove_task api x p k) = k_current k"
    and rt_cpu: "k_cpu (remove_task api x p k) = k_cpu k"
    and rt_meta: "k_meta (remove_task api x p k) = k_meta k"
    and rt_pid: "k_pid (remove_task api x p k) = k_pid k"
    and task_running: "TASK_RUNNING api = 0"
    and init_rq: "init_rq api x k = k\<lparr>k_queue := (k_queue k)(x := [])\<rparr>"
begin

lemmas cs_laws = cs_rq cs_current_run cs_current_other cs_meta cs_pid
lemmas rt_laws = rt_queue rt_rq rt_state rt_current rt_cpu rt_meta rt_pid

lemma cs_state_eq [simp]:
  "k_state (change_state api p st c r k) p = IPANEMA_RUNNING \<longleftrightarrow> st = IPANEMA_RUNNING"
  "k_state (change_state api p st c r k) p = IPANEMA_TERMINATED \<longleftrightarrow> st = IPANEMA_TERMINATED"
  by (metis cs_state norm_state_iff(1)) (metis cs_state norm_state_iff(2))

lemma cs_wf:
  assumes "kernel_wf k"
  shows "kernel_wf (change_state api p st c r k)"
  using assms unfolding kernel_wf_def
  by (auto simp: cs_queue [OF assms] cs_rq)

lemma rt_wf:
  assumes "kernel_wf k" and "k_rq k p = Some x"
  shows "kernel_wf (remove_task api x p k)"
  using assms unfolding kernel_wf_def by (auto simp: rt_laws)

lemma first_task_None: "first_task api k x = None \<longleftrightarrow> k_queue k x = []"
  by (simp add: first_task split: list.splits)

lemma first_task_Some: "first_task api k x = Some p \<longleftrightarrow> (\<exists>ps. k_queue k x = p # ps)"
  by (auto simp: first_task split: list.splits)

lemma first_task_rq: "kernel_wf k \<Longrightarrow> first_task api k x = Some p \<Longrightarrow> k_rq k p = Some x"
  by (auto simp: first_task_Some kernel_wf_def) (metis list.set_intros(1))

lemma cs_dequeue_head:
  assumes "kernel_wf k" and "k_queue k x = p # ps"
  shows "k_queue (change_state api p st c None k) x = ps"
proof -
  have "distinct (p # ps)" using kernel_wfD(1) [OF assms(1), of x] assms(2) by simp
  then show ?thesis by (simp add: cs_queue [OF assms(1)] assms(2))
qed

lemma cs_queue_other:
  assumes "kernel_wf k" and "k_rq k p \<noteq> Some x" and "r \<noteq> Some x"
  shows "k_queue (change_state api p st c r k) x = k_queue k x"
  using assms by (simp add: cs_queue kernel_wfD(2))

end

section \<open>An executable framework\<close>

text \<open>
  A concrete framework in which the documented behaviour is computed. It discharges the
  laws of \<open>saakm_framework\<close>, and concrete runs are evaluated on it.
\<close>

definition ref_change_state ::
    "task \<Rightarrow> ipanema_state \<Rightarrow> cpu \<Rightarrow> rqid option \<Rightarrow> kernel \<Rightarrow> kernel" where
  "ref_change_state p st c r k = k\<lparr>
     k_state := (k_state k)(p := st),
     k_rq := (k_rq k)(p := r),
     k_queue := (\<lambda>x. without p (k_queue k x) @ (if r = Some x then [p] else [])),
     k_current := (if st = IPANEMA_RUNNING then (k_current k)(c := Some p)
                   else (\<lambda>d. if k_current k d = Some p then None else k_current k d)),
     k_cpu := (if st = IPANEMA_MIGRATING then (k_cpu k)(p := c) else k_cpu k)\<rparr>"

definition ref_first_task :: "kernel \<Rightarrow> rqid \<Rightarrow> task option" where
  "ref_first_task k x = (case k_queue k x of [] \<Rightarrow> None | p # _ \<Rightarrow> Some p)"

definition ref_remove_task :: "rqid \<Rightarrow> task \<Rightarrow> kernel \<Rightarrow> kernel" where
  "ref_remove_task x p k = k\<lparr>
     k_queue := (k_queue k)(x := without p (k_queue k x)),
     k_rq := (k_rq k)(p := None)\<rparr>"

definition ref_init_rq :: "rqid \<Rightarrow> kernel \<Rightarrow> kernel" where
  "ref_init_rq x k = k\<lparr>k_queue := (k_queue k)(x := [])\<rparr>"

definition ref_api :: kapi where
  "ref_api = \<lparr>change_state = ref_change_state, first_task = ref_first_task,
              remove_task = ref_remove_task, init_rq = ref_init_rq, WF_EXEC = 16, WF_SYNC = 1,
              TASK_RUNNING = 0, nr_cpu_ids = 4,
              cpu_smt_mask = (\<lambda>c. {|2 * (c div 2), 2 * (c div 2) + 1|}), ksize_of_4 = 8\<rparr>"

lemma ref_api_sel [simp]:
  "change_state ref_api = ref_change_state"
  "first_task ref_api = ref_first_task"
  "remove_task ref_api = ref_remove_task"
  "init_rq ref_api = ref_init_rq"
  "WF_EXEC ref_api = 16"
  "WF_SYNC ref_api = 1"
  "TASK_RUNNING ref_api = 0"
  "nr_cpu_ids ref_api = 4"
  "cpu_smt_mask ref_api c = {|2 * (c div 2), 2 * (c div 2) + 1|}"
  "ksize_of_4 ref_api = 8"
  by (simp_all add: ref_api_def)

interpretation ref: saakm_framework ref_api
  by unfold_locales
     (auto simp: ref_change_state_def ref_first_task_def ref_remove_task_def
      ref_init_rq_def fun_eq_iff)

section \<open>The state of a policy\<close>

text \<open>
  What the policy did, in order: the locks it took and released and the calls it made
  (a \<open>change_state\<close> with the runqueue the task was in and the one it goes to). The lock of a task is
  the framework's own.
\<close>

datatype lock = RqLock rqid | ModuleLock | CoreLock cpu | TaskLock task

datatype kcall =
    Acquire lock
  | AcquireBoth lock lock
  | Release lock
  | ChangeState task ipanema_state cpu "rqid option" "rqid option"
  | RemoveTask rqid task
  | Kfree addr

text \<open>
  The kernel, the per-cpu structures of the policy, the objects its \<open>kzalloc\<close> returned
  by address, and the trace of its calls. A policy's own globals extend the record.
\<close>

record ('c, 'p) sys =
  kern :: kernel
  cores :: "cpu \<Rightarrow> 'c"
  heap :: "addr \<Rightarrow> 'p option"
  trace :: "kcall list"

text \<open>\<open>policy_metadata(p)\<close> followed by the first access to a field of the object.\<close>

definition policy_metadata :: "task \<Rightarrow> ('c, 'p, 'z) sys_scheme \<Rightarrow> (addr \<times> 'p) res" where
  "policy_metadata p s =
     (case k_meta (kern s) p of
        None \<Rightarrow> Inl NullDeref
      | Some a \<Rightarrow> (case heap s a of None \<Rightarrow> Inl UseAfterFree | Some fp \<Rightarrow> Inr (a, fp)))"

definition put_proc :: "addr \<Rightarrow> 'p \<Rightarrow> ('c, 'p, 'z) sys_scheme \<Rightarrow> ('c, 'p, 'z) sys_scheme" where
  "put_proc a fp s = s\<lparr>heap := (heap s)(a \<mapsto> fp)\<rparr>"

definition upd_core :: "cpu \<Rightarrow> ('c \<Rightarrow> 'c) \<Rightarrow> ('c, 'p, 'z) sys_scheme \<Rightarrow> ('c, 'p, 'z) sys_scheme" where
  "upd_core c f s = s\<lparr>cores := (cores s)(c := f (cores s c))\<rparr>"

definition call_change_state ::
    "kapi \<Rightarrow> task \<Rightarrow> ipanema_state \<Rightarrow> cpu \<Rightarrow> rqid option \<Rightarrow>
     ('c, 'p, 'z) sys_scheme \<Rightarrow> ('c, 'p, 'z) sys_scheme" where
  "call_change_state api p st c r s =
     s\<lparr>kern := change_state api p st c r (kern s),
       trace := trace s @ [ChangeState p st c (k_rq (kern s) p) r]\<rparr>"

definition call_remove_task ::
    "kapi \<Rightarrow> rqid \<Rightarrow> task \<Rightarrow> ('c, 'p, 'z) sys_scheme \<Rightarrow> ('c, 'p, 'z) sys_scheme" where
  "call_remove_task api x p s =
     s\<lparr>kern := remove_task api x p (kern s), trace := trace s @ [RemoveTask x p]\<rparr>"

definition acquire :: "lock \<Rightarrow> ('c, 'p, 'z) sys_scheme \<Rightarrow> ('c, 'p, 'z) sys_scheme" where
  "acquire l s = s\<lparr>trace := trace s @ [Acquire l]\<rparr>"

text \<open>\<open>ipanema_double_lock_core\<close> takes two locks in an order of its own.\<close>

definition acquire_both :: "lock \<Rightarrow> lock \<Rightarrow> ('c, 'p, 'z) sys_scheme \<Rightarrow> ('c, 'p, 'z) sys_scheme" where
  "acquire_both l m s = s\<lparr>trace := trace s @ [AcquireBoth l m]\<rparr>"

definition release :: "lock \<Rightarrow> ('c, 'p, 'z) sys_scheme \<Rightarrow> ('c, 'p, 'z) sys_scheme" where
  "release l s = s\<lparr>trace := trace s @ [Release l]\<rparr>"

definition kfree :: "addr \<Rightarrow> ('c, 'p, 'z) sys_scheme \<Rightarrow> ('c, 'p, 'z) sys_scheme" where
  "kfree a s = s\<lparr>heap := (heap s)(a := None), trace := trace s @ [Kfree a]\<rparr>"

definition set_metadata :: "task \<Rightarrow> addr \<Rightarrow> ('c, 'p, 'z) sys_scheme \<Rightarrow> ('c, 'p, 'z) sys_scheme" where
  "set_metadata p a s = s\<lparr>kern := (kern s)\<lparr>k_meta := (k_meta (kern s))(p \<mapsto> a)\<rparr>\<rparr>"

text \<open>The framework moves a task to the cpu a prepare handler returned.\<close>

definition set_task_cpu :: "task \<Rightarrow> cpu \<Rightarrow> ('c, 'p, 'z) sys_scheme \<Rightarrow> ('c, 'p, 'z) sys_scheme" where
  "set_task_cpu p c s = s\<lparr>kern := (kern s)\<lparr>k_cpu := (k_cpu (kern s))(p := c)\<rparr>\<rparr>"

lemmas sys_defs = put_proc_def upd_core_def call_change_state_def call_remove_task_def
  acquire_def acquire_both_def release_def kfree_def set_metadata_def set_task_cpu_def

lemma policy_metadata_Inr:
  "policy_metadata p s = Inr (a, fp) \<longleftrightarrow> k_meta (kern s) p = Some a \<and> heap s a = Some fp"
  by (auto simp: policy_metadata_def split: option.splits)

text \<open>
  The objects a module owns outside the policy state: the \<open>struct ipanema_policy\<close> it
  allocated, whether the framework has it in its list, and its file in procfs.
\<close>

record module =
  policy_allocated :: bool
  policy_registered :: bool
  proc_entry :: bool

definition no_module :: module where
  "no_module = \<lparr>policy_allocated = False, policy_registered = False, proc_entry = False\<rparr>"

text \<open>A kernel in which no thread has been handed to a policy.\<close>

definition fresh_kernel :: "kernel \<Rightarrow> bool" where
  "fresh_kernel k \<longleftrightarrow> (\<forall>p. k_state k p = IPANEMA_NOT_QUEUED \<and> k_rq k p = None \<and> k_meta k p = None) \<and>
     (\<forall>x. k_queue k x = []) \<and> (\<forall>c. k_current k c = None)"

definition idle_kernel :: kernel where
  "idle_kernel = \<lparr>k_state = (\<lambda>_. IPANEMA_NOT_QUEUED), k_rq = (\<lambda>_. None), k_queue = (\<lambda>_. []),
     k_current = (\<lambda>_. None), k_cpu = (\<lambda>_. 0), k_meta = (\<lambda>_. None), k_pid = (\<lambda>p. of_nat p)\<rparr>"

lemma fresh_idle_kernel [simp]: "fresh_kernel idle_kernel"
  by (simp add: fresh_kernel_def idle_kernel_def)

definition ENOMEM :: int where
  "ENOMEM = 12"

section \<open>Lock discipline of a trace\<close>

text \<open>
  Replaying a trace: \<open>None\<close> if a spinlock is taken while held (the cpu would spin for
  ever) or released while not held, else the locks held at the end.
\<close>

fun lock_run :: "lock list \<Rightarrow> kcall list \<Rightarrow> lock list option" where
  "lock_run H [] = Some H"
| "lock_run H (Acquire l # t) = (if l \<in> set H then None else lock_run (l # H) t)"
| "lock_run H (AcquireBoth l m # t) =
     (if l \<in> set H \<or> m \<in> set H \<or> l = m then None else lock_run (l # m # H) t)"
| "lock_run H (Release l # t) = (if l \<in> set H then lock_run (remove1 l H) t else None)"
| "lock_run H (_ # t) = lock_run H t"

text \<open>Every call that touches the runqueue \<open>x\<close> is made with the lock \<open>l\<close> held.\<close>

fun touches_guarded :: "rqid \<Rightarrow> lock \<Rightarrow> lock list \<Rightarrow> kcall list \<Rightarrow> bool" where
  "touches_guarded x l H [] = True"
| "touches_guarded x l H (Acquire m # t) = touches_guarded x l (m # H) t"
| "touches_guarded x l H (AcquireBoth m n # t) = touches_guarded x l (m # n # H) t"
| "touches_guarded x l H (Release m # t) = touches_guarded x l (remove1 m H) t"
| "touches_guarded x l H (ChangeState p st c a b # t) =
     ((a = Some x \<or> b = Some x \<longrightarrow> l \<in> set H) \<and> touches_guarded x l H t)"
| "touches_guarded x l H (RemoveTask y p # t) =
     ((y = x \<longrightarrow> l \<in> set H) \<and> touches_guarded x l H t)"
| "touches_guarded x l H (Kfree a # t) = touches_guarded x l H t"

text \<open>Traces are replayed piece by piece.\<close>

lemma lock_run_append:
  "lock_run H (t @ u) = (case lock_run H t of None \<Rightarrow> None | Some K \<Rightarrow> lock_run K u)"
  by (induction H t rule: lock_run.induct) auto

lemma touches_guarded_append:
  "lock_run H t = Some K \<Longrightarrow>
    touches_guarded x l H (t @ u) \<longleftrightarrow> touches_guarded x l H t \<and> touches_guarded x l K u"
  by (induction H t rule: lock_run.induct) (auto split: if_splits)

section \<open>Policies\<close>

text \<open>
  The events the framework delivers to a policy, with what the kernel supplies to the
  handler: the flags of the event, the address \<open>kzalloc\<close> returned (\<open>None\<close> when it
  failed), the number of online cpus, the executing cpu and the clock.
\<close>

datatype kevent =
    NewPrepare task u32 "addr option" u32
  | NewPlace task
  | NewEnd task
  | Tick task cpu u64
  | Yield task
  | Block task cpu
  | UnblockPrepare task u32 u32
  | UnblockPlace task
  | UnblockEnd task
  | Terminate task
  | Schedule cpu u64
  | CoreEntry cpu
  | CoreExit cpu
  | NewlyIdle cpu
  | EnterIdle cpu
  | ExitIdle cpu
  | BalancingSelect cpu
  | SetTaskCpu task cpu

text \<open>A run delivers events one after the other and stops at the first fault.\<close>

fun run :: "('e \<Rightarrow> 's \<Rightarrow> 's res) \<Rightarrow> 'e list \<Rightarrow> 's \<Rightarrow> 's res" where
  "run step [] s = Inr s"
| "run step (e # es) s = res_bind (step e s) (run step es)"

text \<open>Every event of the run is one the framework delivers in the state it meets.\<close>

fun admissible :: "('e \<Rightarrow> 's \<Rightarrow> 's res) \<Rightarrow> ('e \<Rightarrow> 's \<Rightarrow> bool) \<Rightarrow> 'e list \<Rightarrow> 's \<Rightarrow> bool" where
  "admissible step en [] s = True"
| "admissible step en (e # es) s =
     (en e s \<and> (case step e s of Inl _ \<Rightarrow> True | Inr t \<Rightarrow> admissible step en es t))"

inductive reachable :: "('e \<Rightarrow> 's \<Rightarrow> 's res) \<Rightarrow> ('e \<Rightarrow> 's \<Rightarrow> bool) \<Rightarrow> 's \<Rightarrow> 's \<Rightarrow> bool"
  for step en s where
  start: "reachable step en s s"
| step: "reachable step en s t \<Longrightarrow> en e t \<Longrightarrow> step e t = Inr u \<Longrightarrow> reachable step en s u"

lemma reachable_run:
  "reachable step en s t \<Longrightarrow> admissible step en es t \<Longrightarrow> run step es t = Inr u \<Longrightarrow>
    reachable step en s u"
proof (induction es arbitrary: t)
  case Nil
  then show ?case by simp
next
  case (Cons e es)
  then show ?case by (cases "step e t") (auto intro: reachable.step)
qed

text \<open>What the handlers of some events keep, a run of such events keeps.\<close>

lemma run_preserves:
  assumes "\<And>e s t. ok e \<Longrightarrow> P s \<Longrightarrow> step e s = Inr t \<Longrightarrow> P t"
  shows "list_all ok es \<Longrightarrow> P s \<Longrightarrow> run step es s = Inr t \<Longrightarrow> P t"
proof (induction es arbitrary: s)
  case Nil
  then show ?case by simp
next
  case (Cons e es)
  then show ?case using assms [of e s] by (cases "step e s") auto
qed

text \<open>
  Hardware threads: every cpu is in its own group, and all members of a group have the
  same group.
\<close>

definition smt_topology :: "(cpu \<Rightarrow> cpumask) \<Rightarrow> bool" where
  "smt_topology sm \<longleftrightarrow> (\<forall>c. c |\<in>| sm c \<and> (\<forall>d. d |\<in>| sm c \<longrightarrow> sm d = sm c))"

lemma smt_topology_mem: "smt_topology sm \<Longrightarrow> d |\<in>| sm c \<longleftrightarrow> sm d = sm c"
  unfolding smt_topology_def by metis

lemma ref_smt_topology: "smt_topology (cpu_smt_mask ref_api)"
proof -
  have "c = 2 * (c div 2) \<or> c = Suc (2 * (c div 2))" for c :: nat by presburger
  moreover have "2 * (c div 2) div 2 = c div 2" "Suc (2 * (c div 2)) div 2 = c div 2" for c :: nat
    by simp_all
  ultimately show ?thesis by (auto simp: smt_topology_def)
qed

locale saakm_policy =
  fixes step :: "'e \<Rightarrow> 's \<Rightarrow> 's res"
    and en :: "'e \<Rightarrow> 's \<Rightarrow> bool"
    and inv :: "'s \<Rightarrow> bool"
  assumes progress: "inv s \<Longrightarrow> en e s \<Longrightarrow> \<exists>t. step e s = Inr t \<and> inv t"
begin

lemma step_inv: "inv s \<Longrightarrow> en e s \<Longrightarrow> step e s = Inr t \<Longrightarrow> inv t"
  using progress by fastforce

lemma reachable_inv: "reachable step en s t \<Longrightarrow> inv s \<Longrightarrow> inv t"
  by (induction rule: reachable.induct) (auto intro: step_inv)

lemma run_total: "inv s \<Longrightarrow> admissible step en es s \<Longrightarrow> \<exists>t. run step es s = Inr t \<and> inv t"
proof (induction es arbitrary: s)
  case Nil
  then show ?case by simp
next
  case (Cons e es)
  from Cons.prems obtain t where t: "step e s = Inr t" "inv t"
    using progress [of s e] by auto
  with Cons.prems have "admissible step en es t" by simp
  from Cons.IH [OF t(2) this] t(1) show ?case by simp
qed

lemma reachable_no_fault: "reachable step en s t \<Longrightarrow> inv s \<Longrightarrow> en e t \<Longrightarrow> \<exists>u. step e t = Inr u"
  using reachable_inv progress by blast

end

text \<open>
  A policy whose handlers, on the events \<open>ok\<close>, release every lock they take, never take
  one twice, and touch the runqueue \<open>x\<close> only while they hold the lock \<open>l\<close>.
\<close>

locale guarded_policy = saakm_policy step en inv
  for step :: "'e \<Rightarrow> 's \<Rightarrow> 's res" and en :: "'e \<Rightarrow> 's \<Rightarrow> bool" and inv :: "'s \<Rightarrow> bool" +
  fixes calls :: "'s \<Rightarrow> kcall list"
    and ok :: "'e \<Rightarrow> bool"
    and x :: rqid
    and l :: lock
  assumes guarded: "inv s \<Longrightarrow> en e s \<Longrightarrow> ok e \<Longrightarrow> step e s = Inr t \<Longrightarrow>
    \<exists>seg. calls t = calls s @ seg \<and> lock_run [] seg = Some [] \<and> touches_guarded x l [] seg"
begin

lemma run_guarded:
  "inv s \<Longrightarrow> admissible step en es s \<Longrightarrow> list_all ok es \<Longrightarrow> run step es s = Inr t \<Longrightarrow>
    \<exists>seg. calls t = calls s @ seg \<and> lock_run [] seg = Some [] \<and> touches_guarded x l [] seg"
proof (induction es arbitrary: s)
  case Nil
  then show ?case by simp
next
  case (Cons e es)
  from Cons.prems obtain u where u: "step e s = Inr u" "inv u" "run step es u = Inr t"
    "admissible step en es u"
    using progress [of s e] by auto
  from Cons.prems u(1) obtain s1 where s1: "calls u = calls s @ s1" "lock_run [] s1 = Some []"
    "touches_guarded x l [] s1"
    using guarded [of s e u] by auto
  from Cons.IH [OF u(2,4) _ u(3)] Cons.prems(3) obtain s2 where "calls t = calls u @ s2"
    "lock_run [] s2 = Some []" "touches_guarded x l [] s2" by auto
  with s1 show ?case
    by (intro exI [of _ "s1 @ s2"]) (simp add: lock_run_append touches_guarded_append)
qed

end

text \<open>
  A policy that refines an abstract scheduler: every event is the abstract step \<open>oper\<close>
  names, and \<open>ops_of\<close> lists the abstract steps of a run.
\<close>

fun ops_of :: "('e \<Rightarrow> 's \<Rightarrow> 's res) \<Rightarrow> ('e \<Rightarrow> 's \<Rightarrow> 'o) \<Rightarrow> 'e list \<Rightarrow> 's \<Rightarrow> 'o list" where
  "ops_of step oper [] s = []"
| "ops_of step oper (e # es) s =
     oper e s # (case step e s of Inl _ \<Rightarrow> [] | Inr t \<Rightarrow> ops_of step oper es t)"

locale refining_policy = saakm_policy step en inv
  for step :: "'e \<Rightarrow> 's \<Rightarrow> 's res" and en :: "'e \<Rightarrow> 's \<Rightarrow> bool" and inv :: "'s \<Rightarrow> bool" +
  fixes abst :: "'s \<Rightarrow> 'a"
    and oper :: "'e \<Rightarrow> 's \<Rightarrow> 'o"
    and astep :: "'o \<Rightarrow> 'a \<Rightarrow> 'a"
  assumes refines: "inv s \<Longrightarrow> en e s \<Longrightarrow> step e s = Inr t \<Longrightarrow> abst t = astep (oper e s) (abst s)"
begin

lemma run_refines:
  "inv s \<Longrightarrow> admissible step en es s \<Longrightarrow>
    \<exists>t. run step es s = Inr t \<and> inv t \<and> abst t = fold astep (ops_of step oper es s) (abst s)"
proof (induction es arbitrary: s)
  case Nil
  then show ?case by simp
next
  case (Cons e es)
  from Cons.prems obtain u where u: "step e s = Inr u" "inv u"
    using progress [of s e] by auto
  with Cons.prems have "admissible step en es u" by simp
  from Cons.IH [OF u(2) this] u refines [of s e u] Cons.prems show ?case by auto
qed

end

end
