(* ===== verification/Fifo.thy ===== *)
theory Fifo
  imports Saakm
begin

unbundle bit_operations_syntax

text \<open>
  modules/fifo_benchs/fifo.c (modules/saakm_central/fifo.c is the same file): one FIFO
  runqueue per core, a quantum of 20 ms, and statistics. First the structures and the
  handlers in the order of the file, then the routine table, loading and unloading.
\<close>

section \<open>Structures\<close>

definition QUANTUM_NS :: ulong where
  "QUANTUM_NS = 20000000"

record fifo_process =
  fp_state :: int
  fp_task :: task
  fp_rq :: "rqid option"
  current_quantum_ns :: ulong
  last_sched_ns :: ulong

record fifo_stats =
  total_enqueue :: ulong
  total_exec :: ulong
  schedule_calls :: ulong
  tick_calls :: ulong

record fifo_core =
  fc_state :: core_state
  fc_id :: nat
  fc_current :: "addr option"
  stats :: fifo_stats

record fifo_sys = "(fifo_core, fifo_process) sys" +
  online_cores :: cpumask

section \<open>Handlers of core events\<close>

definition fifo_get_core_state :: "cpu \<Rightarrow> fifo_sys \<Rightarrow> core_state" where
  "fifo_get_core_state target s = fc_state (cores s target)"

definition fifo_core_entry :: "cpu \<Rightarrow> fifo_sys \<Rightarrow> fifo_sys" where
  "fifo_core_entry target s =
     (let s1 = upd_core target (\<lambda>c. c\<lparr>fc_state := IPANEMA_ACTIVE_CORE\<rparr>) s
      in s1\<lparr>online_cores := cpumask_set_cpu (fc_id (cores s1 target)) (online_cores s1)\<rparr>)"

definition fifo_core_exit :: "cpu \<Rightarrow> fifo_sys \<Rightarrow> fifo_sys" where
  "fifo_core_exit target s =
     (let s1 = upd_core target (\<lambda>c. c\<lparr>fc_state := IPANEMA_IDLE_CORE\<rparr>) s
      in s1\<lparr>online_cores := cpumask_clear_cpu (fc_id (cores s1 target)) (online_cores s1)\<rparr>)"

definition fifo_newly_idle :: "cpu \<Rightarrow> fifo_sys \<Rightarrow> fifo_sys" where
  "fifo_newly_idle target s = s"

definition fifo_enter_idle :: "cpu \<Rightarrow> fifo_sys \<Rightarrow> fifo_sys" where
  "fifo_enter_idle target s = upd_core target (\<lambda>c. c\<lparr>fc_state := IPANEMA_IDLE_CORE\<rparr>) s"

definition fifo_exit_idle :: "cpu \<Rightarrow> fifo_sys \<Rightarrow> fifo_sys" where
  "fifo_exit_idle target s = upd_core target (\<lambda>c. c\<lparr>fc_state := IPANEMA_ACTIVE_CORE\<rparr>) s"

definition fifo_balancing_select :: "cpu \<Rightarrow> fifo_sys \<Rightarrow> int \<times> fifo_sys" where
  "fifo_balancing_select target s = (0, s)"

section \<open>Handlers of thread events\<close>

text \<open>
  \<open>p->pid % num_online_cpus()\<close> is an unsigned 32-bit remainder (the count is
  \<open>unsigned int\<close>), returned as an \<open>int\<close>.
\<close>

definition select_cpu :: "kapi \<Rightarrow> kernel \<Rightarrow> task \<Rightarrow> cpu \<Rightarrow> u32 \<Rightarrow> u32 \<Rightarrow> int res" where
  "select_cpu api k p prev_cpu wake_flags num_online =
     (if wake_flags AND WF_EXEC api \<noteq> 0 then Inr (int prev_cpu)
      else if num_online = 0 then Inl DivByZero
      else Inr (sint (k_pid k p mod num_online)))"

definition bump_enqueue :: "fifo_core \<Rightarrow> fifo_core" where
  "bump_enqueue fc = fc\<lparr>stats := (stats fc)\<lparr>total_enqueue := total_enqueue (stats fc) + 1\<rparr>\<rparr>"

definition fifo_enqueue_task ::
    "kapi \<Rightarrow> addr \<Rightarrow> rqid option \<Rightarrow> ipanema_state \<Rightarrow> fifo_sys \<Rightarrow> fifo_sys res" where
  "fifo_enqueue_task api a next_rq st s =
     (case heap s a of
        None \<Rightarrow> Inl UseAfterFree
      | Some fp \<Rightarrow>
          let c = k_cpu (kern s) (fp_task fp);
              s1 = (if st = IPANEMA_READY_TICK
                    then upd_core c (\<lambda>fc. fc\<lparr>fc_current := None\<rparr>) s else s);
              s2 = upd_core c bump_enqueue s1;
              s3 = put_proc a (fp\<lparr>fp_state := state_code st, fp_rq := next_rq\<rparr>) s2
          in Inr (call_change_state api (fp_task fp) st (k_cpu (kern s3) (fp_task fp)) next_rq s3))"

text \<open>\<open>kzalloc\<close> returns zeroed memory: every field not set below is 0.\<close>

definition fifo_new_prepare ::
    "kapi \<Rightarrow> task \<Rightarrow> u32 \<Rightarrow> addr option \<Rightarrow> u32 \<Rightarrow> fifo_sys \<Rightarrow> (int \<times> fifo_sys) res" where
  "fifo_new_prepare api p flags alloc num_online s =
     (case alloc of
        None \<Rightarrow> Inr (-1, s)
      | Some a \<Rightarrow>
          let fp = \<lparr>fp_state = 0, fp_task = p, fp_rq = None,
                    current_quantum_ns = 0, last_sched_ns = 0\<rparr>;
              s1 = set_metadata p a (put_proc a fp s)
          in res_map (\<lambda>r. (r, s1))
               (select_cpu api (kern s1) p (k_cpu (kern s1) p) flags num_online))"

definition fifo_new_place :: "kapi \<Rightarrow> task \<Rightarrow> fifo_sys \<Rightarrow> fifo_sys res" where
  "fifo_new_place api p s =
     res_bind (policy_metadata p s) (\<lambda>(a, fp).
       let cpu_dst = k_cpu (kern s) (fp_task fp)
       in fifo_enqueue_task api a (Some (LocalRq cpu_dst)) IPANEMA_READY s)"

definition fifo_new_end :: "task \<Rightarrow> fifo_sys \<Rightarrow> fifo_sys" where
  "fifo_new_end p s = s"

definition bump_tick :: "fifo_core \<Rightarrow> fifo_core" where
  "bump_tick fc = fc\<lparr>stats := (stats fc)\<lparr>tick_calls := tick_calls (stats fc) + 1\<rparr>\<rparr>"

definition fifo_tick :: "kapi \<Rightarrow> task \<Rightarrow> u64 \<Rightarrow> fifo_sys \<Rightarrow> fifo_sys res" where
  "fifo_tick api p now s =
     res_bind (policy_metadata p s) (\<lambda>(a, fp).
       let fp1 = fp\<lparr>current_quantum_ns := current_quantum_ns fp + (now - last_sched_ns fp)\<rparr>;
           s1 = put_proc a fp1 s
       in res_bind
            (if current_quantum_ns fp1 \<ge> QUANTUM_NS then
               let fp2 = fp1\<lparr>current_quantum_ns := 0, last_sched_ns := 0\<rparr>;
                   s2 = put_proc a fp2 s1
               in fifo_enqueue_task api a (Some (LocalRq (k_cpu (kern s2) (fp_task fp2))))
                    IPANEMA_READY_TICK s2
             else Inr s1)
            (\<lambda>s3. Inr (upd_core (k_cpu (kern s3) (fp_task fp)) bump_tick s3)))"

definition fifo_yield :: "kapi \<Rightarrow> task \<Rightarrow> fifo_sys \<Rightarrow> fifo_sys res" where
  "fifo_yield api p s =
     res_bind (policy_metadata p s) (\<lambda>(a, fp).
       fifo_enqueue_task api a (Some (LocalRq (k_cpu (kern s) (fp_task fp)))) IPANEMA_READY s)"

definition fifo_block :: "kapi \<Rightarrow> task \<Rightarrow> fifo_sys \<Rightarrow> fifo_sys res" where
  "fifo_block api p s =
     res_bind (policy_metadata p s) (\<lambda>(a, fp).
       let c = k_cpu (kern s) (fp_task fp);
           s1 = put_proc a (fp\<lparr>fp_state := state_code IPANEMA_BLOCKED, fp_rq := None\<rparr>) s;
           s2 = upd_core c (\<lambda>fc. fc\<lparr>fc_current := None\<rparr>) s1
       in Inr (call_change_state api (fp_task fp) IPANEMA_BLOCKED
                 (k_cpu (kern s2) (fp_task fp)) None s2))"

definition fifo_unblock_prepare :: "kapi \<Rightarrow> task \<Rightarrow> u32 \<Rightarrow> fifo_sys \<Rightarrow> (int \<times> fifo_sys) res" where
  "fifo_unblock_prepare api p num_online s =
     res_map (\<lambda>r. (r, s)) (select_cpu api (kern s) p (k_cpu (kern s) p) 0 num_online)"

definition fifo_unblock_place :: "kapi \<Rightarrow> task \<Rightarrow> fifo_sys \<Rightarrow> fifo_sys res" where
  "fifo_unblock_place api p s =
     res_bind (policy_metadata p s) (\<lambda>(a, fp).
       let cpu_dst = k_cpu (kern s) (fp_task fp)
       in fifo_enqueue_task api a (Some (LocalRq cpu_dst)) IPANEMA_READY s)"

definition fifo_unblock_end :: "task \<Rightarrow> fifo_sys \<Rightarrow> fifo_sys" where
  "fifo_unblock_end p s = s"

definition fifo_terminate :: "kapi \<Rightarrow> task \<Rightarrow> fifo_sys \<Rightarrow> fifo_sys res" where
  "fifo_terminate api p s =
     res_bind (policy_metadata p s) (\<lambda>(a, fp).
       let c = k_cpu (kern s) (fp_task fp);
           s1 = (if fp_state fp = state_code IPANEMA_RUNNING
                 then upd_core c (\<lambda>fc. fc\<lparr>fc_current := None\<rparr>) s else s);
           s2 = put_proc a (fp\<lparr>fp_state := state_code IPANEMA_TERMINATED, fp_rq := None\<rparr>) s1;
           s3 = call_change_state api (fp_task fp) IPANEMA_TERMINATED
                  (k_cpu (kern s2) (fp_task fp)) None s2
       in Inr (kfree a s3))"

definition bump_exec :: "ulong \<Rightarrow> fifo_core \<Rightarrow> fifo_core" where
  "bump_exec ns fc = fc\<lparr>stats := (stats fc)\<lparr>total_exec := total_exec (stats fc) + ns\<rparr>\<rparr>"

definition bump_schedule :: "fifo_core \<Rightarrow> fifo_core" where
  "bump_schedule fc = fc\<lparr>stats := (stats fc)\<lparr>schedule_calls := schedule_calls (stats fc) + 1\<rparr>\<rparr>"

definition fifo_schedule :: "kapi \<Rightarrow> cpu \<Rightarrow> u64 \<Rightarrow> fifo_sys \<Rightarrow> fifo_sys res" where
  "fifo_schedule api cpu now s =
     res_bind
       (case k_current (kern s) cpu of
          None \<Rightarrow> Inr s
        | Some prev \<Rightarrow>
            res_bind (policy_metadata prev s) (\<lambda>(_, fc_curr).
              Inr (upd_core cpu (bump_exec (current_quantum_ns fc_curr)) s)))
       (\<lambda>s1. case first_task api (kern s1) (LocalRq cpu) of
          None \<Rightarrow> Inr s1
        | Some nxt \<Rightarrow>
            res_bind (policy_metadata nxt s1) (\<lambda>(a, fp).
              let fp1 = fp\<lparr>fp_state := state_code IPANEMA_RUNNING, fp_rq := None,
                           current_quantum_ns := 0, last_sched_ns := now\<rparr>;
                  s2 = put_proc a fp1 s1;
                  s3 = upd_core cpu (\<lambda>fc. fc\<lparr>fc_current := Some a\<rparr>) s2;
                  s4 = upd_core cpu (bump_exec (current_quantum_ns fp1)) s3;
                  s5 = upd_core cpu bump_schedule s4
              in Inr (call_change_state api (fp_task fp1) IPANEMA_RUNNING
                        (k_cpu (kern s5) (fp_task fp1)) None s5)))"

section \<open>The routine table\<close>

text \<open>
  \<open>fifo_routines\<close>: which handler an event runs. \<open>SetTaskCpu\<close> is the framework's own step
  between a prepare and a place handler.
\<close>

fun fifo_routines :: "kapi \<Rightarrow> kevent \<Rightarrow> fifo_sys \<Rightarrow> fifo_sys res" where
  "fifo_routines api (NewPrepare p flags al n) s = res_map snd (fifo_new_prepare api p flags al n s)"
| "fifo_routines api (NewPlace p) s = fifo_new_place api p s"
| "fifo_routines api (NewEnd p) s = Inr (fifo_new_end p s)"
| "fifo_routines api (Tick p c now) s = fifo_tick api p now s"
| "fifo_routines api (Yield p) s = fifo_yield api p s"
| "fifo_routines api (Block p c) s = fifo_block api p s"
| "fifo_routines api (UnblockPrepare p flags n) s = res_map snd (fifo_unblock_prepare api p n s)"
| "fifo_routines api (UnblockPlace p) s = fifo_unblock_place api p s"
| "fifo_routines api (UnblockEnd p) s = Inr (fifo_unblock_end p s)"
| "fifo_routines api (Terminate p) s = fifo_terminate api p s"
| "fifo_routines api (Schedule c now) s = fifo_schedule api c now s"
| "fifo_routines api (CoreEntry c) s = Inr (fifo_core_entry c s)"
| "fifo_routines api (CoreExit c) s = Inr (fifo_core_exit c s)"
| "fifo_routines api (NewlyIdle c) s = Inr (fifo_newly_idle c s)"
| "fifo_routines api (EnterIdle c) s = Inr (fifo_enter_idle c s)"
| "fifo_routines api (ExitIdle c) s = Inr (fifo_exit_idle c s)"
| "fifo_routines api (BalancingSelect c) s = Inr (snd (fifo_balancing_select c s))"
| "fifo_routines api (SetTaskCpu p c) s = Inr (set_task_cpu p c s)"

section \<open>Loading and unloading the module\<close>

definition fifo_init :: int where
  "fifo_init = 0"

text \<open>\<open>policy->data\<close> is freed when it is set.\<close>

definition fifo_free_metadata :: "addr option \<Rightarrow> fifo_sys \<Rightarrow> int \<times> fifo_sys" where
  "fifo_free_metadata policy_data s =
     (case policy_data of None \<Rightarrow> (0, s) | Some a \<Rightarrow> (0, kfree a s))"

definition fifo_can_be_default :: int where
  "fifo_can_be_default = 1"

definition fifo_attach :: "task \<Rightarrow> string \<Rightarrow> bool" where
  "fifo_attach p command = True"

text \<open>One turn of the loop over the possible cpus.\<close>

definition fifo_init_core :: "kapi \<Rightarrow> cpu \<Rightarrow> fifo_sys \<Rightarrow> fifo_sys" where
  "fifo_init_core api cpu s =
     (let s1 = upd_core cpu (\<lambda>c. c\<lparr>fc_id := cpu, fc_state := IPANEMA_ACTIVE_CORE\<rparr>) s;
          s2 = s1\<lparr>kern := init_rq api (LocalRq cpu) (kern s1)\<rparr>;
          s3 = s2\<lparr>online_cores := cpumask_set_cpu cpu (online_cores s2)\<rparr>
      in upd_core cpu (\<lambda>c. c\<lparr>stats := \<lparr>total_enqueue = 0, total_exec = 0,
                                  schedule_calls = 0, tick_calls = 0\<rparr>\<rparr>) s3)"

text \<open>
  \<open>policy_ok\<close>: the \<open>kzalloc\<close> of the policy succeeded; \<open>add_res\<close>: what
  \<open>ipanema_add_policy\<close> returned (0 when it registered the policy).
\<close>

definition fifo_mod_init ::
    "kapi \<Rightarrow> cpu list \<Rightarrow> bool \<Rightarrow> int \<Rightarrow> fifo_sys \<Rightarrow> module \<Rightarrow> int \<times> fifo_sys \<times> module" where
  "fifo_mod_init api possible_cpus policy_ok add_res s m =
     (let s1 = fold (fifo_init_core api) possible_cpus s
      in if \<not> policy_ok then (- ENOMEM, s1, m)
         else
           let m1 = m\<lparr>policy_allocated := True, policy_registered := (add_res = 0)\<rparr>;
               m2 = (if add_res \<noteq> 0 then m1\<lparr>policy_allocated := False\<rparr> else m1);
               m3 = m2\<lparr>proc_entry := True\<rparr>
           in (add_res, s1, m3))"

definition fifo_exit :: "module \<Rightarrow> module" where
  "fifo_exit m = m\<lparr>policy_registered := False, policy_allocated := False, proc_entry := False\<rparr>"

lemmas [handler_defs] =
  fifo_core_entry_def fifo_core_exit_def fifo_newly_idle_def fifo_enter_idle_def
  fifo_exit_idle_def fifo_balancing_select_def select_cpu_def bump_enqueue_def
  fifo_enqueue_task_def fifo_new_prepare_def fifo_new_place_def fifo_new_end_def bump_tick_def
  fifo_tick_def fifo_yield_def fifo_block_def fifo_unblock_prepare_def fifo_unblock_place_def
  fifo_unblock_end_def fifo_terminate_def bump_exec_def bump_schedule_def fifo_schedule_def

end
