(* ===== verification/Policy_Inv.thy ===== *)
theory Policy_Inv
  imports Saakm
begin

text \<open>
  The invariant of a policy that mirrors the framework's view of a thread in its own
  object: the object's state and runqueue fields agree with the framework's, no live
  thread points to a freed object, and every queued thread is ready and sits in the
  runqueue of its own cpu. It is stated for any object type, through the accessors of
  its state, task and runqueue fields, and the lemmas say what keeps it: they carry the
  invariant proofs of the policies that have per-core runqueues.
\<close>

section \<open>The invariant\<close>

definition view_ok ::
    "('p \<Rightarrow> int) \<Rightarrow> ('p \<Rightarrow> task) \<Rightarrow> ('p \<Rightarrow> rqid option) \<Rightarrow> kernel \<Rightarrow> (addr \<Rightarrow> 'p option) \<Rightarrow> task \<Rightarrow> bool"
  where
  "view_ok so ta ro k h p \<longleftrightarrow>
     (\<forall>a. k_meta k p = Some a \<longrightarrow> k_state k p \<noteq> IPANEMA_TERMINATED \<longrightarrow>
       (\<exists>fp st. h a = Some fp \<and> ta fp = p \<and> so fp = state_code st \<and>
          norm_state st = norm_state (k_state k p) \<and> ro fp = k_rq k p))"

definition queue_ok :: "kernel \<Rightarrow> bool" where
  "queue_ok k \<longleftrightarrow> (\<forall>p x. k_rq k p = Some x \<longrightarrow>
     k_meta k p \<noteq> None \<and> norm_state (k_state k p) = IPANEMA_READY \<and> x = LocalRq (k_cpu k p))"

definition policy_inv ::
    "('p \<Rightarrow> int) \<Rightarrow> ('p \<Rightarrow> task) \<Rightarrow> ('p \<Rightarrow> rqid option) \<Rightarrow> kernel \<Rightarrow> (addr \<Rightarrow> 'p option) \<Rightarrow> bool"
  where
  "policy_inv so ta ro k h \<longleftrightarrow> kernel_wf k \<and> queue_ok k \<and> (\<forall>p. view_ok so ta ro k h p)"

text \<open>A thread the policy may be called for: it has metadata and has not terminated.\<close>

definition attached :: "kernel \<Rightarrow> task \<Rightarrow> bool" where
  "attached k p \<longleftrightarrow> k_meta k p \<noteq> None \<and> k_state k p \<noteq> IPANEMA_TERMINATED"

lemma policy_inv_wf: "policy_inv so ta ro k h \<Longrightarrow> kernel_wf k"
  by (simp add: policy_inv_def)

lemma attached_object:
  assumes "policy_inv so ta ro k h" and "attached k p"
  shows "\<exists>a fp st. k_meta k p = Some a \<and> h a = Some fp \<and> ta fp = p \<and>
    so fp = state_code st \<and> norm_state st = norm_state (k_state k p) \<and> ro fp = k_rq k p"
proof -
  from assms(2) obtain a where a: "k_meta k p = Some a" "k_state k p \<noteq> IPANEMA_TERMINATED"
    by (auto simp: attached_def)
  from assms(1) have "view_ok so ta ro k h p" by (simp add: policy_inv_def)
  with a show ?thesis unfolding view_ok_def by blast
qed

lemma policy_inv_queued:
  assumes "policy_inv so ta ro k h" and "p \<in> set (k_queue k x)"
  shows "attached k p" and "x = LocalRq (k_cpu k p)" and "k_state k p \<noteq> IPANEMA_RUNNING"
proof -
  from assms have "k_rq k p = Some x" by (simp add: policy_inv_def kernel_wfD(2))
  with assms(1) have q: "k_meta k p \<noteq> None" "norm_state (k_state k p) = IPANEMA_READY"
    "x = LocalRq (k_cpu k p)"
    by (auto simp: policy_inv_def queue_ok_def)
  from q(2) have "k_state k p \<noteq> IPANEMA_TERMINATED" by auto
  with q show "attached k p" and "x = LocalRq (k_cpu k p)" and "k_state k p \<noteq> IPANEMA_RUNNING"
    by (auto simp: attached_def)
qed

lemma policy_inv_distinct_objects:
  assumes "policy_inv so ta ro k h" and "attached k p" and "attached k q"
    and "k_meta k p = k_meta k q"
  shows "p = q"
proof -
  obtain a fp where "k_meta k p = Some a" "h a = Some fp" "ta fp = p"
    using attached_object [OF assms(1,2)] by blast
  moreover obtain b fq where "k_meta k q = Some b" "h b = Some fq" "ta fq = q"
    using attached_object [OF assms(1,3)] by blast
  ultimately show ?thesis using assms(4) by simp
qed

section \<open>What keeps it\<close>

context saakm_framework
begin

text \<open>
  The one pattern all place, tick, yield, block and schedule handlers follow: write the
  new state and runqueue into the object and make the same transition in the framework.
\<close>

lemma policy_inv_change_state:
  assumes inv: "policy_inv so ta ro k h" and att: "attached k p"
    and meta: "k_meta k p = Some a"
    and obj: "ta fp = p" "so fp = state_code st" "ro fp = r"
    and live: "st \<noteq> IPANEMA_TERMINATED"
    and rq: "r = None \<or> r = Some (LocalRq (k_cpu k p)) \<and> norm_state st = IPANEMA_READY"
  shows "policy_inv so ta ro (change_state api p st (k_cpu k p) r k) (h(a \<mapsto> fp))"
proof -
  let ?k = "change_state api p st (k_cpu k p) r k"
  have cpu: "k_cpu ?k = k_cpu k" by (simp add: cs_cpu_same)
  have wf: "kernel_wf ?k" using inv by (simp add: cs_wf policy_inv_wf)
  have qo: "queue_ok ?k"
    unfolding queue_ok_def
  proof (intro allI impI)
    fix q x assume rqx: "k_rq ?k q = Some x"
    show "k_meta ?k q \<noteq> None \<and> norm_state (k_state ?k q) = IPANEMA_READY \<and> x = LocalRq (k_cpu ?k q)"
    proof (cases "q = p")
      case True
      with rqx rq meta show ?thesis by (auto simp: cs_rq cs_meta cs_state cs_cpu_same)
    next
      case False
      with rqx inv show ?thesis
        by (auto simp: cs_rq cs_meta cs_state_other cpu policy_inv_def queue_ok_def)
    qed
  qed
  have "view_ok so ta ro ?k (h(a \<mapsto> fp)) q" for q
  proof (cases "q = p")
    case True
    then show ?thesis
      using meta obj by (auto simp: view_ok_def cs_meta cs_rq cs_state)
  next
    case False
    have old: "view_ok so ta ro k h q" using inv by (simp add: policy_inv_def)
    have "k_meta k q = Some a \<Longrightarrow> k_state k q = IPANEMA_TERMINATED"
      using policy_inv_distinct_objects [OF inv att, of q] False meta
      by (auto simp: attached_def)
    with old False show ?thesis
      by (auto simp: view_ok_def cs_meta cs_rq cs_state_other)
  qed
  with wf qo show ?thesis by (simp add: policy_inv_def)
qed

text \<open>The terminate handlers: the transition, then the object is freed.\<close>

lemma policy_inv_terminate:
  assumes inv: "policy_inv so ta ro k h" and att: "attached k p"
    and meta: "k_meta k p = Some a"
    and h': "\<And>b. b \<noteq> a \<Longrightarrow> h' b = h b"
  shows "policy_inv so ta ro (change_state api p IPANEMA_TERMINATED (k_cpu k p) None k) h'"
proof -
  let ?k = "change_state api p IPANEMA_TERMINATED (k_cpu k p) None k"
  have cpu: "k_cpu ?k = k_cpu k" by (simp add: cs_cpu_same)
  have wf: "kernel_wf ?k" using inv by (simp add: cs_wf policy_inv_wf)
  have qo: "queue_ok ?k"
    using inv unfolding queue_ok_def policy_inv_def
    by (auto simp: cs_rq cs_meta cs_state_other cpu split: if_splits)
  have "view_ok so ta ro ?k h' q" for q
  proof (cases "q = p")
    case True
    then show ?thesis by (simp add: view_ok_def)
  next
    case False
    have old: "view_ok so ta ro k h q" using inv by (simp add: policy_inv_def)
    have "k_meta k q = Some a \<Longrightarrow> k_state k q = IPANEMA_TERMINATED"
      using policy_inv_distinct_objects [OF inv att, of q] False meta
      by (auto simp: attached_def)
    then have "k_meta k q = Some b \<Longrightarrow> k_state k q \<noteq> IPANEMA_TERMINATED \<Longrightarrow> h' b = h b" for b
      using h' by (cases "b = a") auto
    with old False show ?thesis
      by (auto simp: view_ok_def cs_meta cs_rq cs_state_other)
  qed
  with wf qo show ?thesis by (simp add: policy_inv_def)
qed

end

text \<open>The prepare handlers: a fresh object for a thread that has none.\<close>

lemma policy_inv_attach:
  assumes inv: "policy_inv so ta ro k h" and fresh: "h a = None"
    and new: "k_state k p = IPANEMA_NOT_QUEUED" "k_rq k p = None"
    and obj: "ta fp = p" "so fp = 0" "ro fp = None"
  shows "policy_inv so ta ro (k\<lparr>k_meta := (k_meta k)(p \<mapsto> a)\<rparr>) (h(a \<mapsto> fp))"
proof -
  have "view_ok so ta ro (k\<lparr>k_meta := (k_meta k)(p \<mapsto> a)\<rparr>) (h(a \<mapsto> fp)) q" for q
  proof (cases "q = p")
    case True
    have "so fp = state_code IPANEMA_NOT_QUEUED" using obj by simp
    with True obj new show ?thesis unfolding view_ok_def by auto
  next
    case False
    have "view_ok so ta ro k h q" using inv by (simp add: policy_inv_def)
    with False fresh show ?thesis by (auto simp: view_ok_def)
  qed
  with inv show ?thesis
    by (auto simp: policy_inv_def queue_ok_def kernel_wf_def)
qed

text \<open>The framework moves a thread that is in no runqueue.\<close>

lemma policy_inv_set_cpu:
  assumes "policy_inv so ta ro k h" and "k_rq k p = None"
  shows "policy_inv so ta ro (k\<lparr>k_cpu := (k_cpu k)(p := c)\<rparr>) h"
  using assms unfolding policy_inv_def queue_ok_def view_ok_def kernel_wf_def
  by (auto simp: fun_upd_apply)

text \<open>Writes to other fields of an object.\<close>

lemma policy_inv_update:
  assumes inv: "policy_inv so ta ro k h" and att: "h a = Some fp"
    and obj: "ta fp' = ta fp" "so fp' = so fp" "ro fp' = ro fp"
  shows "policy_inv so ta ro k (h(a \<mapsto> fp'))"
proof -
  have "view_ok so ta ro k (h(a \<mapsto> fp')) q" for q
  proof -
    have "view_ok so ta ro k h q" using inv by (simp add: policy_inv_def)
    with att obj show ?thesis by (auto simp: view_ok_def)
  qed
  with inv show ?thesis by (simp add: policy_inv_def)
qed

section \<open>The running threads\<close>

text \<open>
  A policy that keeps a pointer to the object of the thread a core runs: the pointer of a
  busy core is that thread's metadata.
\<close>

definition running_ok :: "('c \<Rightarrow> addr option) \<Rightarrow> kernel \<Rightarrow> (cpu \<Rightarrow> 'c) \<Rightarrow> bool" where
  "running_ok cur k cs \<longleftrightarrow> (\<forall>c p. k_current k c = Some p \<longrightarrow>
     k_state k p = IPANEMA_RUNNING \<and> k_meta k p \<noteq> None \<and> k_cpu k p = c \<and> cur (cs c) = k_meta k p)"

lemma running_okD:
  assumes "running_ok cur k cs" and "k_current k c = Some p"
  shows "k_state k p = IPANEMA_RUNNING" "attached k p" "k_cpu k p = c" "cur (cs c) = k_meta k p"
  using assms by (auto simp: running_ok_def attached_def)

lemma running_ok_cores:
  assumes "running_ok cur k cs" and "\<And>c. cur (cs' c) = cur (cs c)"
  shows "running_ok cur k cs'"
  using assms by (simp add: running_ok_def)

lemma running_ok_meta:
  assumes "running_ok cur k cs" and "k_meta k p = None"
  shows "running_ok cur (k\<lparr>k_meta := (k_meta k)(p \<mapsto> a)\<rparr>) cs"
  unfolding running_ok_def
proof (intro allI impI)
  fix c q
  assume q: "k_current (k\<lparr>k_meta := (k_meta k)(p \<mapsto> a)\<rparr>) c = Some q"
  then have cur: "k_current k c = Some q" by simp
  from running_okD(2) [OF assms(1) cur] assms(2) have "q \<noteq> p" by (auto simp: attached_def)
  with q assms(1) show "k_state (k\<lparr>k_meta := (k_meta k)(p \<mapsto> a)\<rparr>) q = IPANEMA_RUNNING \<and>
      k_meta (k\<lparr>k_meta := (k_meta k)(p \<mapsto> a)\<rparr>) q \<noteq> None \<and>
      k_cpu (k\<lparr>k_meta := (k_meta k)(p \<mapsto> a)\<rparr>) q = c \<and>
      cur (cs c) = k_meta (k\<lparr>k_meta := (k_meta k)(p \<mapsto> a)\<rparr>) q"
    by (simp add: running_ok_def)
qed

lemma running_ok_set_cpu:
  assumes "running_ok cur k cs" and "k_state k p \<noteq> IPANEMA_RUNNING"
  shows "running_ok cur (k\<lparr>k_cpu := (k_cpu k)(p := c)\<rparr>) cs"
  using assms by (auto simp: running_ok_def)

context saakm_framework
begin

text \<open>A thread leaves a core, or is placed: its core may drop the pointer only if it ran.\<close>

lemma running_ok_leave:
  assumes ok: "running_ok cur k cs" and st: "st \<noteq> IPANEMA_RUNNING"
    and same: "\<And>c. k_current k c \<noteq> Some p \<Longrightarrow> k_current k c \<noteq> None \<Longrightarrow> cur (cs' c) = cur (cs c)"
  shows "running_ok cur (change_state api p st d r k) cs'"
  unfolding running_ok_def
proof (intro allI impI)
  fix c q
  assume q: "k_current (change_state api p st d r k) c = Some q"
  with st have cur: "k_current k c = Some q" "q \<noteq> p"
    by (auto simp: cs_current_other split: if_splits)
  from running_okD [OF ok cur(1)] cur(2) same [of c]
  show "k_state (change_state api p st d r k) q = IPANEMA_RUNNING \<and>
      k_meta (change_state api p st d r k) q \<noteq> None \<and>
      k_cpu (change_state api p st d r k) q = c \<and>
      cur (cs' c) = k_meta (change_state api p st d r k) q"
    using cur by (auto simp: cs_state_other cs_meta cs_cpu_other attached_def)
qed

text \<open>A thread starts to run on its cpu, which records its object.\<close>

lemma running_ok_start:
  assumes ok: "running_ok cur k cs" and p: "k_meta k p = Some a"
    and notrun: "k_state k p \<noteq> IPANEMA_RUNNING"
    and new: "cur (cs' (k_cpu k p)) = Some a"
    and same: "\<And>c. c \<noteq> k_cpu k p \<Longrightarrow> cur (cs' c) = cur (cs c)"
  shows "running_ok cur (change_state api p IPANEMA_RUNNING (k_cpu k p) r k) cs'"
  unfolding running_ok_def
proof (intro allI impI)
  fix c q
  let ?k = "change_state api p IPANEMA_RUNNING (k_cpu k p) r k"
  assume q: "k_current ?k c = Some q"
  show "k_state ?k q = IPANEMA_RUNNING \<and> k_meta ?k q \<noteq> None \<and> k_cpu ?k q = c \<and>
      cur (cs' c) = k_meta ?k q"
  proof (cases "c = k_cpu k p")
    case True
    with q have "q = p" by (simp add: cs_current_run)
    with True p new show ?thesis by (simp add: cs_meta cs_cpu_same)
  next
    case False
    with q have cur: "k_current k c = Some q" by (simp add: cs_current_run)
    from running_okD [OF ok cur] notrun have "q \<noteq> p" by auto
    with running_okD [OF ok cur] same [OF False] show ?thesis
      by (auto simp: cs_state_other cs_meta cs_cpu_other attached_def)
  qed
qed

end

section \<open>The calling protocol\<close>

text \<open>
  When the framework delivers an event, as the comments of the modules and papiers/
  describe it: a prepare handler meets a thread without metadata and a zeroed object at
  an unused address; a place handler follows for a thread that is not queued, or
  blocked; tick, yield and block are about the thread that runs on its cpu, and a tick or a block
  names that cpu; a thread
  changes cpu only while it is neither queued nor running.
\<close>

fun protocol :: "kevent \<Rightarrow> ('c, 'p, 'z) sys_scheme \<Rightarrow> bool" where
  "protocol (NewPrepare p flags al n) s =
     (n \<noteq> 0 \<and> k_state (kern s) p = IPANEMA_NOT_QUEUED \<and> k_rq (kern s) p = None \<and>
      k_meta (kern s) p = None \<and> (case al of None \<Rightarrow> True | Some a \<Rightarrow> heap s a = None))"
| "protocol (NewPlace p) s = (attached (kern s) p \<and> k_state (kern s) p = IPANEMA_NOT_QUEUED)"
| "protocol (Tick p c now) s = (c = k_cpu (kern s) p \<and> k_current (kern s) c = Some p)"
| "protocol (Yield p) s = (k_current (kern s) (k_cpu (kern s) p) = Some p)"
| "protocol (Block p c) s = (c = k_cpu (kern s) p \<and> k_current (kern s) c = Some p)"
| "protocol (UnblockPrepare p flags n) s = (n \<noteq> 0)"
| "protocol (UnblockPlace p) s = (attached (kern s) p \<and> k_state (kern s) p = IPANEMA_BLOCKED)"
| "protocol (Terminate p) s = (attached (kern s) p \<and>
     (k_state (kern s) p = IPANEMA_RUNNING \<longrightarrow> k_current (kern s) (k_cpu (kern s) p) = Some p))"
| "protocol (SetTaskCpu p c) s =
     (k_rq (kern s) p = None \<and> k_state (kern s) p \<noteq> IPANEMA_RUNNING)"
| "protocol _ s = True"

end
