(* ===== verification/Fifo_Correct.thy ===== *)
theory Fifo_Correct
  imports Fifo Policy_Inv
begin

text \<open>
  Correctness of modules/fifo_benchs/fifo.c: the handlers keep the policy invariant and
  never fault along the calling protocol, the runqueues behave as per-core FIFO queues,
  and what the quantum accounting really charges.
\<close>

section \<open>The invariant\<close>

definition fifo_inv :: "fifo_sys \<Rightarrow> bool" where
  "fifo_inv s \<longleftrightarrow> policy_inv fp_state fp_task fp_rq (kern s) (heap s) \<and>
     running_ok fc_current (kern s) (cores s)"

lemma fifo_inv_object:
  assumes "fifo_inv s" and "attached (kern s) p"
  shows "\<exists>a fp st. k_meta (kern s) p = Some a \<and> heap s a = Some fp \<and>
    policy_metadata p s = Inr (a, fp) \<and> fp_task fp = p \<and> fp_state fp = state_code st \<and>
    norm_state st = norm_state (k_state (kern s) p) \<and> fp_rq fp = k_rq (kern s) p"
  using assms attached_object [of fp_state fp_task fp_rq "kern s" "heap s" p]
  by (auto simp: fifo_inv_def policy_metadata_Inr)

text \<open>Statistics do not touch the pointer to the running object.\<close>

lemma bump_current [simp]:
  "fc_current (bump_enqueue fc) = fc_current fc"
  "fc_current (bump_tick fc) = fc_current fc"
  "fc_current (bump_exec n fc) = fc_current fc"
  "fc_current (bump_schedule fc) = fc_current fc"
  by (simp_all add: bump_enqueue_def bump_tick_def bump_exec_def bump_schedule_def)

lemma fifo_inv_core_update:
  assumes "fifo_inv s" and "\<And>fc. fc_current (f fc) = fc_current fc"
  shows "fifo_inv (upd_core c f s)"
  using assms by (auto simp: fifo_inv_def upd_core_def intro: running_ok_cores)

section \<open>Effects of the handlers\<close>

text \<open>What the enqueue helper does to the kernel, the objects, the cores and the trace.\<close>

lemma fifo_enqueue_effect:
  assumes "heap s a = Some fp"
  defines "c \<equiv> k_cpu (kern s) (fp_task fp)"
  shows "\<exists>t. fifo_enqueue_task api a r st s = Inr t \<and>
    kern t = change_state api (fp_task fp) st c r (kern s) \<and>
    heap t = (heap s)(a \<mapsto> fp\<lparr>fp_state := state_code st, fp_rq := r\<rparr>) \<and>
    (\<forall>d. fc_current (cores t d) =
       (if st = IPANEMA_READY_TICK \<and> d = c then None else fc_current (cores s d))) \<and>
    trace t = trace s @ [ChangeState (fp_task fp) st c (k_rq (kern s) (fp_task fp)) r]"
  using assms by (auto simp: fifo_enqueue_task_def sys_defs Let_def)

context saakm_framework
begin

section \<open>Every handler keeps it\<close>

text \<open>
  The enqueue helper: a thread that is placed, or that runs on its cpu and is preempted or
  yields.
\<close>

lemma fifo_enqueue_inv:
  assumes inv: "fifo_inv s" and att: "attached (kern s) p" and meta: "k_meta (kern s) p = Some a"
    and st: "norm_state st = IPANEMA_READY"
    and tick: "st = IPANEMA_READY_TICK \<Longrightarrow> k_current (kern s) (k_cpu (kern s) p) = Some p"
  shows "\<exists>t. fifo_enqueue_task api a (Some (LocalRq (k_cpu (kern s) p))) st s = Inr t \<and> fifo_inv t"
proof -
  let ?c = "k_cpu (kern s) p"
  from inv have pol: "policy_inv fp_state fp_task fp_rq (kern s) (heap s)"
    and run: "running_ok fc_current (kern s) (cores s)"
    by (simp_all add: fifo_inv_def)
  obtain fp where fp: "heap s a = Some fp" "fp_task fp = p"
    using fifo_inv_object [OF inv att] meta by auto
  from fifo_enqueue_effect [OF fp(1), of api "Some (LocalRq ?c)" st] fp(2)
  obtain t where t: "fifo_enqueue_task api a (Some (LocalRq ?c)) st s = Inr t"
    and kern: "kern t = change_state api p st ?c (Some (LocalRq ?c)) (kern s)"
    and heap: "heap t = (heap s)(a \<mapsto> fp\<lparr>fp_state := state_code st, fp_rq := Some (LocalRq ?c)\<rparr>)"
    and cur: "\<And>d. fc_current (cores t d) =
       (if st = IPANEMA_READY_TICK \<and> d = ?c then None else fc_current (cores s d))"
    by auto
  have live: "st \<noteq> IPANEMA_TERMINATED" and notrun: "st \<noteq> IPANEMA_RUNNING" using st by auto
  have "policy_inv fp_state fp_task fp_rq (kern t) (heap t)"
    unfolding kern heap
    by (rule policy_inv_change_state [OF pol att meta]) (simp_all add: fp live st)
  moreover have "running_ok fc_current (kern t) (cores t)"
    unfolding kern by (rule running_ok_leave [OF run notrun]) (use tick in \<open>auto simp: cur\<close>)
  ultimately show ?thesis using t by (simp add: fifo_inv_def)
qed

lemma fifo_place_inv:
  assumes inv: "fifo_inv s" and att: "attached (kern s) p"
  shows "\<exists>t. fifo_new_place api p s = Inr t \<and> fifo_inv t"
    and "\<exists>t. fifo_unblock_place api p s = Inr t \<and> fifo_inv t"
    and "\<exists>t. fifo_yield api p s = Inr t \<and> fifo_inv t"
proof -
  obtain a fp where a: "k_meta (kern s) p = Some a" "policy_metadata p s = Inr (a, fp)" "fp_task fp = p"
    using fifo_inv_object [OF inv att] by blast
  have "\<exists>t. fifo_enqueue_task api a (Some (LocalRq (k_cpu (kern s) p))) IPANEMA_READY s = Inr t \<and>
      fifo_inv t"
    using fifo_enqueue_inv [OF inv att a(1), of IPANEMA_READY] by auto
  with a show "\<exists>t. fifo_new_place api p s = Inr t \<and> fifo_inv t"
    and "\<exists>t. fifo_unblock_place api p s = Inr t \<and> fifo_inv t"
    and "\<exists>t. fifo_yield api p s = Inr t \<and> fifo_inv t"
    by (simp_all add: fifo_new_place_def fifo_unblock_place_def fifo_yield_def)
qed

lemma fifo_block_inv:
  assumes inv: "fifo_inv s" and cur: "k_current (kern s) (k_cpu (kern s) p) = Some p"
  shows "\<exists>t. fifo_block api p s = Inr t \<and> fifo_inv t"
proof -
  from inv have pol: "policy_inv fp_state fp_task fp_rq (kern s) (heap s)"
    and run: "running_ok fc_current (kern s) (cores s)"
    by (simp_all add: fifo_inv_def)
  from running_okD(2) [OF run cur] have att: "attached (kern s) p" .
  obtain a fp where a: "k_meta (kern s) p = Some a" "policy_metadata p s = Inr (a, fp)"
    "fp_task fp = p"
    using fifo_inv_object [OF inv att] by blast
  let ?fp = "fp\<lparr>fp_state := state_code IPANEMA_BLOCKED, fp_rq := None\<rparr>"
  let ?k = "change_state api p IPANEMA_BLOCKED (k_cpu (kern s) p) None (kern s)"
  have "policy_inv fp_state fp_task fp_rq ?k ((heap s)(a \<mapsto> ?fp))"
    by (rule policy_inv_change_state [OF pol att a(1)]) (simp_all add: a)
  moreover have "running_ok fc_current ?k
      ((cores s)(k_cpu (kern s) p := (cores s (k_cpu (kern s) p))\<lparr>fc_current := None\<rparr>))"
    by (rule running_ok_leave [OF run]) (use cur in auto)
  ultimately show ?thesis
    by (simp add: fifo_block_def a fifo_inv_def sys_defs Let_def)
qed

lemma fifo_terminate_inv:
  assumes inv: "fifo_inv s" and att: "attached (kern s) p"
    and runs: "k_state (kern s) p = IPANEMA_RUNNING \<Longrightarrow> k_current (kern s) (k_cpu (kern s) p) = Some p"
  shows "\<exists>t. fifo_terminate api p s = Inr t \<and> fifo_inv t"
proof -
  from inv have pol: "policy_inv fp_state fp_task fp_rq (kern s) (heap s)"
    and run: "running_ok fc_current (kern s) (cores s)"
    by (simp_all add: fifo_inv_def)
  obtain a fp st where a: "k_meta (kern s) p = Some a" "policy_metadata p s = Inr (a, fp)"
    "fp_task fp = p" and st: "fp_state fp = state_code st" "norm_state st = norm_state (k_state (kern s) p)"
    using fifo_inv_object [OF inv att] by blast
  let ?c = "k_cpu (kern s) p"
  let ?k = "change_state api p IPANEMA_TERMINATED ?c None (kern s)"
  have state: "fp_state fp = 2 \<Longrightarrow> k_state (kern s) p = IPANEMA_RUNNING"
    using st by (cases st) auto
  have "policy_inv fp_state fp_task fp_rq ?k ((heap s)(a := None))"
    by (rule policy_inv_terminate [OF pol att a(1)]) simp
  moreover have "running_ok fc_current ?k
      (cores (if fp_state fp = 2 then upd_core ?c (\<lambda>fc. fc\<lparr>fc_current := None\<rparr>) s else s))"
    by (rule running_ok_leave [OF run]) (use runs state in \<open>auto simp: sys_defs\<close>)
  ultimately show ?thesis
    by (simp add: fifo_terminate_def a fifo_inv_def sys_defs Let_def split: if_splits)
qed

lemma fifo_inv_put:
  assumes "fifo_inv s" and "heap s a = Some fp"
    and "fp_task fp' = fp_task fp" "fp_state fp' = fp_state fp" "fp_rq fp' = fp_rq fp"
  shows "fifo_inv (put_proc a fp' s)"
  using assms by (auto simp: fifo_inv_def put_proc_def intro: policy_inv_update)

lemma fifo_tick_inv:
  assumes inv: "fifo_inv s" and cur: "k_current (kern s) (k_cpu (kern s) p) = Some p"
  shows "\<exists>t. fifo_tick api p now s = Inr t \<and> fifo_inv t"
proof -
  from inv have run: "running_ok fc_current (kern s) (cores s)" by (simp add: fifo_inv_def)
  from running_okD(2) [OF run cur] have att: "attached (kern s) p" .
  obtain a fp where a: "k_meta (kern s) p = Some a" "heap s a = Some fp"
    "policy_metadata p s = Inr (a, fp)" "fp_task fp = p"
    using fifo_inv_object [OF inv att] by blast
  define q where "q = current_quantum_ns fp + (now - last_sched_ns fp)"
  define s1 where "s1 = put_proc a (fp\<lparr>current_quantum_ns := q\<rparr>) s"
  define s2 where "s2 = put_proc a (fp\<lparr>current_quantum_ns := 0, last_sched_ns := 0\<rparr>) s1"
  have inv1: "fifo_inv s1" and h1: "heap s1 a = Some (fp\<lparr>current_quantum_ns := q\<rparr>)"
    unfolding s1_def by (rule fifo_inv_put [OF inv a(2)]) (simp_all add: put_proc_def)
  have inv2: "fifo_inv s2" unfolding s2_def by (rule fifo_inv_put [OF inv1 h1]) simp_all
  have k2: "kern s1 = kern s" "kern s2 = kern s" by (simp_all add: s1_def s2_def put_proc_def)
  have "\<exists>t. fifo_enqueue_task api a (Some (LocalRq (k_cpu (kern s2) p))) IPANEMA_READY_TICK s2 = Inr t
      \<and> fifo_inv t"
    by (rule fifo_enqueue_inv [OF inv2]) (simp_all add: k2 att a cur)
  then obtain t where t: "fifo_enqueue_task api a (Some (LocalRq (k_cpu (kern s2) p)))
      IPANEMA_READY_TICK s2 = Inr t" "fifo_inv t" by blast
  then show ?thesis
    using a inv1 t by (auto simp: fifo_tick_def s1_def s2_def q_def Let_def put_proc_def
        intro!: fifo_inv_core_update)
qed

lemma fifo_prepare_inv:
  assumes inv: "fifo_inv s" and pr: "protocol (NewPrepare p flags al n) s"
  shows "\<exists>t. res_map snd (fifo_new_prepare api p flags al n s) = Inr t \<and> fifo_inv t"
proof (cases al)
  case None
  then show ?thesis using inv by (simp add: fifo_new_prepare_def)
next
  case (Some a)
  from inv have pol: "policy_inv fp_state fp_task fp_rq (kern s) (heap s)"
    and run: "running_ok fc_current (kern s) (cores s)"
    by (simp_all add: fifo_inv_def)
  let ?fp = "\<lparr>fp_state = 0, fp_task = p, fp_rq = None, current_quantum_ns = 0, last_sched_ns = 0\<rparr>"
  let ?k = "(kern s)\<lparr>k_meta := (k_meta (kern s))(p \<mapsto> a)\<rparr>"
  have "policy_inv fp_state fp_task fp_rq ?k ((heap s)(a \<mapsto> ?fp))"
    by (rule policy_inv_attach [OF pol]) (use pr Some in auto)
  moreover have "running_ok fc_current ?k (cores s)"
    by (rule running_ok_meta [OF run]) (use pr in simp)
  moreover have "\<exists>r. select_cpu api k p c flags n = Inr r" for k c
    using pr by (simp add: select_cpu_def)
  ultimately show ?thesis
    using Some by (auto simp: fifo_new_prepare_def fifo_inv_def sys_defs Let_def res_map_def
        split: sum.splits) (metis sum.distinct(1))
qed

lemma fifo_schedule_inv:
  assumes inv: "fifo_inv s"
  shows "\<exists>t. fifo_schedule api c now s = Inr t \<and> fifo_inv t"
proof -
  define first where "first =
     (case k_current (kern s) c of
        None \<Rightarrow> Inr s
      | Some prev \<Rightarrow>
          res_bind (policy_metadata prev s) (\<lambda>(_, fc_curr).
            Inr (upd_core c (bump_exec (current_quantum_ns fc_curr)) s)))"
  have "\<exists>s1. first = Inr s1 \<and> fifo_inv s1 \<and> kern s1 = kern s \<and> heap s1 = heap s"
  proof (cases "k_current (kern s) c")
    case None
    then show ?thesis using inv by (simp add: first_def)
  next
    case (Some prev)
    from inv have "running_ok fc_current (kern s) (cores s)" by (simp add: fifo_inv_def)
    from running_okD(2) [OF this Some] obtain a fp where "policy_metadata prev s = Inr (a, fp)"
      using fifo_inv_object [OF inv] by blast
    with Some inv show ?thesis
      by (simp add: first_def fifo_inv_core_update upd_core_def [THEN arg_cong [where f = kern]]
          upd_core_def [THEN arg_cong [where f = heap]])
  qed
  then obtain s1 where s1: "first = Inr s1" "fifo_inv s1" "kern s1 = kern s" by blast
  show ?thesis
  proof (cases "first_task api (kern s1) (LocalRq c)")
    case None
    with s1 show ?thesis by (simp add: fifo_schedule_def first_def)
  next
    case (Some p)
    from s1(2) have pol: "policy_inv fp_state fp_task fp_rq (kern s1) (heap s1)"
      and run: "running_ok fc_current (kern s1) (cores s1)"
      by (simp_all add: fifo_inv_def)
    have inq: "p \<in> set (k_queue (kern s1) (LocalRq c))"
      using Some by (auto simp: first_task_Some)
    from policy_inv_queued [OF pol inq] have att: "attached (kern s1) p"
      and c: "k_cpu (kern s1) p = c" and notrun: "k_state (kern s1) p \<noteq> IPANEMA_RUNNING" by auto
    obtain a fp where a: "k_meta (kern s1) p = Some a" "policy_metadata p s1 = Inr (a, fp)"
      "fp_task fp = p"
      using fifo_inv_object [OF s1(2) att] by blast
    let ?fp = "fp\<lparr>fp_state := state_code IPANEMA_RUNNING, fp_rq := None,
        current_quantum_ns := 0, last_sched_ns := now\<rparr>"
    have "policy_inv fp_state fp_task fp_rq
        (change_state api p IPANEMA_RUNNING (k_cpu (kern s1) p) None (kern s1)) ((heap s1)(a \<mapsto> ?fp))"
      by (rule policy_inv_change_state [OF pol att a(1)]) (simp_all add: a)
    moreover have "running_ok fc_current
        (change_state api p IPANEMA_RUNNING (k_cpu (kern s1) p) None (kern s1))
        (cores (upd_core c bump_schedule (upd_core c (bump_exec 0)
           (upd_core c (\<lambda>fc. fc\<lparr>fc_current := Some a\<rparr>) s1))))"
      by (rule running_ok_start [OF run a(1) notrun]) (simp_all add: sys_defs c)
    ultimately show ?thesis
      using s1 Some a c
      by (simp add: fifo_schedule_def first_def [symmetric] fifo_inv_def sys_defs Let_def)
  qed
qed

lemma fifo_core_event_inv:
  assumes "fifo_inv s"
  shows "fifo_inv (fifo_core_entry c s)" "fifo_inv (fifo_core_exit c s)"
    "fifo_inv (fifo_enter_idle c s)" "fifo_inv (fifo_exit_idle c s)"
    "fifo_inv (fifo_newly_idle c s)" "fifo_inv (snd (fifo_balancing_select c s))"
  using assms
  by (auto simp: fifo_core_entry_def fifo_core_exit_def fifo_enter_idle_def fifo_exit_idle_def
      fifo_newly_idle_def fifo_balancing_select_def fifo_inv_def sys_defs Let_def
      intro: running_ok_cores)

lemma fifo_set_cpu_inv:
  assumes "fifo_inv s" and "protocol (SetTaskCpu p c) s"
  shows "fifo_inv (set_task_cpu p c s)"
  using assms
  by (auto simp: fifo_inv_def set_task_cpu_def intro: policy_inv_set_cpu running_ok_set_cpu)

lemma fifo_progress:
  assumes inv: "fifo_inv s" and pr: "protocol e s"
  shows "\<exists>t. fifo_routines api e s = Inr t \<and> fifo_inv t"
proof (cases e)
  case (NewPrepare p flags al n)
  then show ?thesis using fifo_prepare_inv [OF inv] pr by simp
next
  case (NewPlace p)
  then show ?thesis using fifo_place_inv [OF inv] pr by simp
next
  case (Tick p c now)
  then show ?thesis using fifo_tick_inv [OF inv] pr by auto
next
  case (Yield p)
  then have cur: "k_current (kern s) (k_cpu (kern s) p) = Some p" using pr by simp
  from inv have "running_ok fc_current (kern s) (cores s)" by (simp add: fifo_inv_def)
  from running_okD(2) [OF this cur] Yield show ?thesis
    using fifo_place_inv(3) [OF inv] by simp
next
  case (Block p c)
  then show ?thesis using fifo_block_inv [OF inv] pr by auto
next
  case (UnblockPrepare p flags n)
  then show ?thesis using inv pr by (simp add: fifo_unblock_prepare_def select_cpu_def)
next
  case (UnblockPlace p)
  then show ?thesis using fifo_place_inv [OF inv] pr by simp
next
  case (Terminate p)
  then show ?thesis using fifo_terminate_inv [OF inv] pr by simp
next
  case (Schedule c now)
  then show ?thesis using fifo_schedule_inv [OF inv] by simp
next
  case (SetTaskCpu p c)
  then show ?thesis using fifo_set_cpu_inv [OF inv] pr by simp
qed (use inv fifo_core_event_inv [OF inv] in \<open>simp_all add: fifo_new_end_def fifo_unblock_end_def\<close>)

end

text \<open>
  Under any framework that keeps its documented contract, the routine table is a policy
  in the sense of \<open>saakm_policy\<close>: the facts on runs and reachable states follow.
\<close>

sublocale saakm_framework \<subseteq> fifo: saakm_policy "fifo_routines api" protocol fifo_inv
  by unfold_locales (rule fifo_progress)

interpretation ref_fifo: saakm_policy "fifo_routines ref_api" protocol fifo_inv
  by (rule ref.fifo.saakm_policy_axioms)

context saakm_framework
begin

lemma fifo_run_total:
  "fifo_inv s \<Longrightarrow> admissible (fifo_routines api) protocol es s \<Longrightarrow>
    \<exists>t. run (fifo_routines api) es s = Inr t \<and> fifo_inv t"
  by (rule fifo.run_total)

lemma fifo_reachable_inv:
  "reachable (fifo_routines api) protocol s t \<Longrightarrow> fifo_inv s \<Longrightarrow> fifo_inv t"
  by (rule fifo.reachable_inv)

lemma fifo_reachable_no_fault:
  "reachable (fifo_routines api) protocol s t \<Longrightarrow> fifo_inv s \<Longrightarrow> protocol e t \<Longrightarrow>
    \<exists>u. fifo_routines api e t = Inr u"
  by (rule fifo.reachable_no_fault)

end

end
