(* ===== verification/Fifo_Spec.thy ===== *)
theory Fifo_Spec
  imports Saakm
begin

text \<open>
  The abstract contract of a scheduler with one FIFO runqueue per core, free of the
  policy's objects and of the framework's bookkeeping: each core has a queue of ready
  threads and at most one running thread; a thread enters a queue at its tail and is
  elected from its head. The concrete policies are shown to refine it.
\<close>

section \<open>Per-core FIFO queues\<close>

record afifo =
  ready :: "cpu \<Rightarrow> task list"
  running :: "cpu \<Rightarrow> task option"

datatype aop =
    Place task cpu    \<comment> \<open>a thread that was not queued becomes ready\<close>
  | Preempt task cpu  \<comment> \<open>the running thread of a core goes back to its tail\<close>
  | Leave task        \<comment> \<open>a thread blocks or terminates\<close>
  | Elect cpu         \<comment> \<open>a core takes the head of its queue\<close>
  | Skip

fun a_step :: "aop \<Rightarrow> afifo \<Rightarrow> afifo" where
  "a_step (Place p c) a = a\<lparr>ready := (ready a)(c := ready a c @ [p])\<rparr>"
| "a_step (Preempt p c) a =
     a\<lparr>ready := (ready a)(c := ready a c @ [p]), running := (running a)(c := None)\<rparr>"
| "a_step (Leave p) a =
     a\<lparr>ready := (\<lambda>c. without p (ready a c)),
       running := (\<lambda>c. if running a c = Some p then None else running a c)\<rparr>"
| "a_step (Elect c) a =
     (case ready a c of
        [] \<Rightarrow> a
      | p # ps \<Rightarrow> a\<lparr>ready := (ready a)(c := ps), running := (running a)(c := Some p)\<rparr>)"
| "a_step Skip a = a"

text \<open>The abstract scheduler in the framework's state.\<close>

definition abs_fifo :: "kernel \<Rightarrow> afifo" where
  "abs_fifo k = \<lparr>ready = (\<lambda>c. k_queue k (LocalRq c)), running = k_current k\<rparr>"

text \<open>A round: the running thread of the core goes to the tail, the head is elected.\<close>

definition a_round :: "cpu \<Rightarrow> afifo \<Rightarrow> afifo" where
  "a_round c a =
     (case running a c of
        None \<Rightarrow> a_step (Elect c) a
      | Some p \<Rightarrow> a_step (Elect c) (a_step (Preempt p c) a))"

lemma a_round_rotates:
  assumes "running a c = Some p" and "ready a c = q # ps"
  shows "running (a_round c a) c = Some q" and "ready (a_round c a) c = ps @ [p]"
  using assms by (simp_all add: a_round_def)

text \<open>After \<open>n\<close> rounds the \<open>n\<close>-th thread in line has the core.\<close>

lemma a_rounds:
  assumes "running a c = Some p" and "ready a c = ps" and "n \<le> length ps"
  shows "running ((a_round c ^^ n) a) c = Some ((p # ps) ! n) \<and>
    ready ((a_round c ^^ n) a) c = drop n ps @ take n (p # ps)"
  using assms(3)
proof (induction n)
  case 0
  then show ?case using assms by simp
next
  case (Suc n)
  let ?a = "(a_round c ^^ n) a"
  from Suc have IH: "running ?a c = Some ((p # ps) ! n)"
    "ready ?a c = drop n ps @ take n (p # ps)" by simp_all
  from Suc.prems have "drop n ps = ps ! n # drop (Suc n) ps" by (simp add: Cons_nth_drop_Suc)
  then have q: "ready ?a c = ps ! n # (drop (Suc n) ps @ take n (p # ps))" using IH by simp
  have "take (Suc n) (p # ps) = take n (p # ps) @ [(p # ps) ! n]"
    using Suc.prems by (intro take_Suc_conv_app_nth) simp
  with a_round_rotates [OF IH(1) q] show ?case
    by (simp del: take_Suc_Cons)
qed

section \<open>The framework's transitions as abstract steps\<close>

context saakm_framework
begin

lemma abs_place:
  assumes "kernel_wf k" and "k_rq k p = None" and "\<And>d. k_current k d \<noteq> Some p"
    and "st \<noteq> IPANEMA_RUNNING"
  shows "abs_fifo (change_state api p st c (Some (LocalRq c)) k) = a_step (Place p c) (abs_fifo k)"
  using assms by (auto simp: abs_fifo_def cs_queue cs_current_other fun_eq_iff kernel_wfD(2))

lemma abs_preempt:
  assumes "kernel_wf k" and "k_rq k p = None" and "\<And>d. k_current k d = Some p \<longleftrightarrow> d = c"
    and "st \<noteq> IPANEMA_RUNNING"
  shows "abs_fifo (change_state api p st c (Some (LocalRq c)) k) = a_step (Preempt p c) (abs_fifo k)"
  using assms by (auto simp: abs_fifo_def cs_queue cs_current_other fun_eq_iff kernel_wfD(2))

lemma abs_leave:
  assumes "kernel_wf k" and "st \<noteq> IPANEMA_RUNNING"
  shows "abs_fifo (change_state api p st c None k) = a_step (Leave p) (abs_fifo k)"
  using assms by (auto simp: abs_fifo_def cs_queue cs_current_other fun_eq_iff)

lemma abs_elect:
  assumes wf: "kernel_wf k" and q: "k_queue k (LocalRq c) = p # ps"
  shows "abs_fifo (change_state api p IPANEMA_RUNNING c None k) = a_step (Elect c) (abs_fifo k)"
proof -
  have rq: "k_rq k p = Some (LocalRq c)" using kernel_wfD(2) [OF wf, of p "LocalRq c"] q by simp
  have "k_queue (change_state api p IPANEMA_RUNNING c None k) (LocalRq d) =
      (if d = c then ps else k_queue k (LocalRq d))" for d
    using cs_dequeue_head [OF wf q] cs_queue_other [OF wf, of p "LocalRq d" None] rq by simp
  then show ?thesis using q by (simp add: abs_fifo_def cs_current_run fun_eq_iff)
qed

end

end
