(* ===== verification/Fifo_Refine.thy ===== *)
theory Fifo_Refine
  imports Fifo_Correct Fifo_Spec
begin

text \<open>
  modules/fifo_benchs/fifo.c implements per-core FIFO queues: every handler is one step
  of \<open>Fifo_Spec\<close>, and a run of the module is a run of the abstract scheduler.
\<close>

section \<open>The abstract step of an event\<close>

definition quantum_expired :: "task \<Rightarrow> u64 \<Rightarrow> fifo_sys \<Rightarrow> bool" where
  "quantum_expired p now s =
     (case policy_metadata p s of
        Inl _ \<Rightarrow> False
      | Inr (a, fp) \<Rightarrow> QUANTUM_NS \<le> current_quantum_ns fp + (now - last_sched_ns fp))"

fun fifo_op :: "kevent \<Rightarrow> fifo_sys \<Rightarrow> aop" where
  "fifo_op (NewPlace p) s = Place p (k_cpu (kern s) p)"
| "fifo_op (UnblockPlace p) s = Place p (k_cpu (kern s) p)"
| "fifo_op (Tick p c now) s =
     (if quantum_expired p now s then Preempt p (k_cpu (kern s) p) else Skip)"
| "fifo_op (Yield p) s = Preempt p (k_cpu (kern s) p)"
| "fifo_op (Block p c) s = Leave p"
| "fifo_op (Terminate p) s = Leave p"
| "fifo_op (Schedule c now) s = Elect c"
| "fifo_op _ s = Skip"

section \<open>What the handlers do to the kernel\<close>

lemma fifo_inv_not_queued:
  assumes "fifo_inv s" and "norm_state (k_state (kern s) p) \<noteq> IPANEMA_READY"
  shows "k_rq (kern s) p = None"
  using assms by (cases "k_rq (kern s) p") (auto simp: fifo_inv_def policy_inv_def queue_ok_def)

lemma fifo_inv_current:
  assumes "fifo_inv s" and "k_current (kern s) d = Some p"
  shows "k_state (kern s) p = IPANEMA_RUNNING" and "k_cpu (kern s) p = d" and "attached (kern s) p"
  using assms by (auto simp: fifo_inv_def dest: running_okD)

lemma fifo_place_kern:
  assumes "policy_metadata p s = Inr (a, fp)" and "fp_task fp = p"
  defines "c \<equiv> k_cpu (kern s) p"
  shows "fifo_new_place api p s = Inr t \<Longrightarrow>
      kern t = change_state api p IPANEMA_READY c (Some (LocalRq c)) (kern s)"
    and "fifo_unblock_place api p s = Inr t \<Longrightarrow>
      kern t = change_state api p IPANEMA_READY c (Some (LocalRq c)) (kern s)"
    and "fifo_yield api p s = Inr t \<Longrightarrow>
      kern t = change_state api p IPANEMA_READY c (Some (LocalRq c)) (kern s)"
  using assms by (auto simp: fifo_new_place_def fifo_unblock_place_def fifo_yield_def
      fifo_enqueue_task_def policy_metadata_Inr sys_defs Let_def)

lemma fifo_tick_kern:
  assumes m: "policy_metadata p s = Inr (a, fp)" and "fp_task fp = p"
    and t: "fifo_tick api p now s = Inr t"
  defines "c \<equiv> k_cpu (kern s) p"
  shows "kern t = (if quantum_expired p now s
    then change_state api p IPANEMA_READY_TICK c (Some (LocalRq c)) (kern s) else kern s)"
proof -
  have "quantum_expired p now s \<longleftrightarrow> QUANTUM_NS \<le> current_quantum_ns fp + (now - last_sched_ns fp)"
    by (simp add: quantum_expired_def m)
  with assms show ?thesis
    by (auto simp: fifo_tick_def fifo_enqueue_task_def sys_defs Let_def split: if_splits)
qed

lemma fifo_leave_kern:
  assumes "policy_metadata p s = Inr (a, fp)" and "fp_task fp = p"
  shows "fifo_block api p s = Inr t \<Longrightarrow>
      kern t = change_state api p IPANEMA_BLOCKED (k_cpu (kern s) p) None (kern s)"
    and "fifo_terminate api p s = Inr t \<Longrightarrow>
      kern t = change_state api p IPANEMA_TERMINATED (k_cpu (kern s) p) None (kern s)"
  using assms by (auto simp: fifo_block_def fifo_terminate_def sys_defs Let_def)

context saakm_framework
begin

lemma fifo_schedule_kern:
  assumes inv: "fifo_inv s" and t: "fifo_schedule api c now s = Inr t"
  shows "kern t = (case k_queue (kern s) (LocalRq c) of
      [] \<Rightarrow> kern s | p # _ \<Rightarrow> change_state api p IPANEMA_RUNNING c None (kern s))"
proof (cases "k_queue (kern s) (LocalRq c)")
  case Nil
  then show ?thesis using t
    by (auto simp: fifo_schedule_def first_task sys_defs res_bind_def
        split: option.splits sum.splits prod.splits)
next
  case (Cons p ps)
  from inv have pol: "policy_inv fp_state fp_task fp_rq (kern s) (heap s)" by (simp add: fifo_inv_def)
  have "p \<in> set (k_queue (kern s) (LocalRq c))" using Cons by simp
  from policy_inv_queued [OF pol this] have att: "attached (kern s) p" and c: "k_cpu (kern s) p = c"
    by auto
  obtain a fp where a: "k_meta (kern s) p = Some a" "heap s a = Some fp" "fp_task fp = p"
    using fifo_inv_object [OF inv att] by blast
  show ?thesis using t Cons a c
    by (auto simp: fifo_schedule_def first_task sys_defs res_bind_def policy_metadata_def Let_def
        split: option.splits sum.splits prod.splits)
qed

section \<open>Refinement\<close>

lemma fifo_step_refines:
  assumes inv: "fifo_inv s" and pr: "protocol e s" and t: "fifo_routines api e s = Inr t"
  shows "abs_fifo (kern t) = a_step (fifo_op e s) (abs_fifo (kern s))"
proof -
  have wf: "kernel_wf (kern s)" using inv by (auto simp: fifo_inv_def dest: policy_inv_wf)
  have place: "abs_fifo (change_state api p IPANEMA_READY (k_cpu (kern s) p)
      (Some (LocalRq (k_cpu (kern s) p))) (kern s)) = a_step (Place p (k_cpu (kern s) p)) (abs_fifo (kern s))"
    if "k_state (kern s) p = IPANEMA_NOT_QUEUED \<or> k_state (kern s) p = IPANEMA_BLOCKED" for p
  proof (rule abs_place [OF wf])
    show "k_rq (kern s) p = None" using that by (intro fifo_inv_not_queued [OF inv]) auto
    show "k_current (kern s) d \<noteq> Some p" for d using that fifo_inv_current(1) [OF inv, of d p] by auto
  qed simp
  have preempt: "abs_fifo (change_state api p st (k_cpu (kern s) p)
      (Some (LocalRq (k_cpu (kern s) p))) (kern s)) = a_step (Preempt p (k_cpu (kern s) p)) (abs_fifo (kern s))"
    if cur: "k_current (kern s) (k_cpu (kern s) p) = Some p" and st: "st \<noteq> IPANEMA_RUNNING" for p st
  proof (rule abs_preempt [OF wf])
    show "k_rq (kern s) p = None"
      using fifo_inv_current(1) [OF inv cur] by (intro fifo_inv_not_queued [OF inv]) simp
    show "k_current (kern s) d = Some p \<longleftrightarrow> d = k_cpu (kern s) p" for d
      using cur fifo_inv_current(2) [OF inv, of d p] by auto
  qed (rule st)
  have obj: "\<exists>a fp. policy_metadata p s = Inr (a, fp) \<and> fp_task fp = p" if "attached (kern s) p" for p
    using fifo_inv_object [OF inv that] by blast
  show ?thesis
  proof (cases e)
    case (NewPlace p)
    with pr t obj [of p] place [of p] show ?thesis by (auto dest: fifo_place_kern)
  next
    case (UnblockPlace p)
    with pr t obj [of p] place [of p] show ?thesis by (auto dest: fifo_place_kern)
  next
    case (Yield p)
    with pr have cur: "k_current (kern s) (k_cpu (kern s) p) = Some p" by simp
    from obj [OF fifo_inv_current(3) [OF inv cur]] Yield t preempt [OF cur, of IPANEMA_READY]
    show ?thesis by (auto dest: fifo_place_kern(3))
  next
    case (Tick p c now)
    with pr have cur: "k_current (kern s) (k_cpu (kern s) p) = Some p" by auto
    from obj [OF fifo_inv_current(3) [OF inv cur]] Tick t preempt [OF cur, of IPANEMA_READY_TICK]
    show ?thesis by (auto dest: fifo_tick_kern)
  next
    case (Block p c)
    with pr have cur: "k_current (kern s) (k_cpu (kern s) p) = Some p" by auto
    from obj [OF fifo_inv_current(3) [OF inv cur]] Block t abs_leave [OF wf, of IPANEMA_BLOCKED]
    show ?thesis by (auto dest: fifo_leave_kern)
  next
    case (Terminate p)
    with pr t obj [of p] abs_leave [OF wf, of IPANEMA_TERMINATED]
    show ?thesis by (auto dest: fifo_leave_kern)
  next
    case (Schedule c now)
    with t have "fifo_schedule api c now s = Inr t" by simp
    from fifo_schedule_kern [OF inv this] Schedule show ?thesis
      by (cases "k_queue (kern s) (LocalRq c)")
         (simp_all add: abs_elect [OF wf], simp add: abs_fifo_def)
  next
    case (NewPrepare p flags al n)
    with t show ?thesis
      by (auto simp: fifo_new_prepare_def sys_defs Let_def abs_fifo_def res_map_eq_Inr
          split: option.splits)
  qed (use t in \<open>auto simp: fifo_core_entry_def fifo_core_exit_def fifo_enter_idle_def
      fifo_exit_idle_def fifo_newly_idle_def fifo_balancing_select_def fifo_new_end_def
      fifo_unblock_end_def fifo_unblock_prepare_def sys_defs Let_def abs_fifo_def res_map_eq_Inr\<close>)
qed

end

section \<open>Runs\<close>

text \<open>The abstract steps of a run of the module.\<close>

abbreviation fifo_ops :: "kapi \<Rightarrow> kevent list \<Rightarrow> fifo_sys \<Rightarrow> aop list" where
  "fifo_ops api \<equiv> ops_of (fifo_routines api) fifo_op"

sublocale saakm_framework \<subseteq> fifo_ref: refining_policy "fifo_routines api" protocol fifo_inv
    "\<lambda>s. abs_fifo (kern s)" fifo_op a_step
  by unfold_locales (rule fifo_step_refines)

interpretation ref_fifo_ref: refining_policy "fifo_routines ref_api" protocol fifo_inv
    "\<lambda>s. abs_fifo (kern s)" fifo_op a_step
  by (rule ref.fifo_ref.refining_policy_axioms)

lemma run_append: "run step (es @ fs) s = res_bind (run step es s) (run step fs)"
proof (induction es arbitrary: s)
  case Nil
  then show ?case by simp
next
  case (Cons e es)
  then show ?case by (cases "step e s") simp_all
qed

context saakm_framework
begin

lemma fifo_run_refines:
  "fifo_inv s \<Longrightarrow> admissible (fifo_routines api) protocol es s \<Longrightarrow>
    \<exists>t. run (fifo_routines api) es s = Inr t \<and> fifo_inv t \<and>
      abs_fifo (kern t) = fold a_step (fifo_ops api es s) (abs_fifo (kern s))"
  by (rule fifo_ref.run_refines)

text \<open>A thread yields and its core schedules: one round of the abstract queue.\<close>

lemma fifo_round:
  assumes inv: "fifo_inv s" and cur: "k_current (kern s) c = Some p"
  shows "\<exists>t. run (fifo_routines api) [Yield p, Schedule c now] s = Inr t \<and> fifo_inv t \<and>
    abs_fifo (kern t) = a_round c (abs_fifo (kern s))"
proof -
  from fifo_inv_current(2) [OF inv cur] have c: "k_cpu (kern s) p = c" .
  then have pr: "protocol (Yield p) s" using cur by simp
  obtain u where u: "fifo_routines api (Yield p) s = Inr u" "fifo_inv u"
    using fifo_progress [OF inv pr] by blast
  have pr': "protocol (Schedule c now) u" by simp
  obtain t where t: "fifo_routines api (Schedule c now) u = Inr t" "fifo_inv t"
    using fifo_progress [OF u(2) pr'] by blast
  have "abs_fifo (kern t) = a_step (Elect c) (a_step (Preempt p c) (abs_fifo (kern s)))"
    using fifo_step_refines [OF inv pr u(1)] fifo_step_refines [OF u(2) pr' t(1)] c by simp
  moreover have "running (abs_fifo (kern s)) c = Some p" using cur by (simp add: abs_fifo_def)
  ultimately have "abs_fifo (kern t) = a_round c (abs_fifo (kern s))" by (simp add: a_round_def)
  with u t show ?thesis by simp
qed

lemma fifo_rounds:
  assumes inv: "fifo_inv s" and cur: "k_current (kern s) c = Some p"
    and queue: "k_queue (kern s) (LocalRq c) = ps" and n: "n \<le> length ps"
  shows "\<exists>t. run (fifo_routines api)
      (concat (map (\<lambda>q. [Yield q, Schedule c now]) (take n (p # ps)))) s = Inr t \<and> fifo_inv t \<and>
    abs_fifo (kern t) = (a_round c ^^ n) (abs_fifo (kern s))"
  using n
proof (induction n)
  case 0
  then show ?case using inv by simp
next
  case (Suc n)
  let ?es = "\<lambda>n. concat (map (\<lambda>q. [Yield q, Schedule c now]) (take n (p # ps)))"
  from Suc obtain u where u: "run (fifo_routines api) (?es n) s = Inr u" "fifo_inv u"
    "abs_fifo (kern u) = (a_round c ^^ n) (abs_fifo (kern s))" by auto
  have a: "running (abs_fifo (kern s)) c = Some p" "ready (abs_fifo (kern s)) c = ps"
    using cur queue by (simp_all add: abs_fifo_def)
  have "running (abs_fifo (kern u)) c = Some ((p # ps) ! n)"
    using a_rounds [OF a, of n] Suc.prems u(3) by simp
  then have "k_current (kern u) c = Some ((p # ps) ! n)" by (simp add: abs_fifo_def)
  from fifo_round [OF u(2) this] obtain t where
    t: "run (fifo_routines api) [Yield ((p # ps) ! n), Schedule c now] u = Inr t" "fifo_inv t"
    "abs_fifo (kern t) = a_round c (abs_fifo (kern u))" by blast
  have "take (Suc n) (p # ps) = take n (p # ps) @ [(p # ps) ! n]"
    using Suc.prems by (intro take_Suc_conv_app_nth) simp
  then have "?es (Suc n) = ?es n @ [Yield ((p # ps) ! n), Schedule c now]"
    by (simp del: take_Suc_Cons)
  then have "run (fifo_routines api) (?es (Suc n)) s = Inr t"
    using u(1) t(1) by (simp only: run_append res_bind_simps)
  with t u(3) show ?case by auto
qed

end

section \<open>Loading\<close>

lemma fifo_init_core_kern:
  "cores (fifo_init_core api cpu s) =
     (cores s)(cpu := (cores s cpu)\<lparr>fc_id := cpu, fc_state := IPANEMA_ACTIVE_CORE,
        stats := \<lparr>total_enqueue = 0, total_exec = 0, schedule_calls = 0, tick_calls = 0\<rparr>\<rparr>)"
  "online_cores (fifo_init_core api cpu s) = cpumask_set_cpu cpu (online_cores s)"
  "kern (fifo_init_core api cpu s) = init_rq api (LocalRq cpu) (kern s)"
  "heap (fifo_init_core api cpu s) = heap s"
  by (simp_all add: fifo_init_core_def sys_defs Let_def)

lemma fifo_init_cores:
  "heap (fold (fifo_init_core api) cpus s) = heap s"
  "online_cores (fold (fifo_init_core api) cpus s) = fset_of_list cpus |\<union>| online_cores s"
  "c \<in> set cpus \<Longrightarrow> fc_id (cores (fold (fifo_init_core api) cpus s) c) = c \<and>
     fc_state (cores (fold (fifo_init_core api) cpus s) c) = IPANEMA_ACTIVE_CORE"
proof -
  show "heap (fold (fifo_init_core api) cpus s) = heap s"
    by (induction cpus arbitrary: s) (simp_all add: fifo_init_core_kern)
  show "online_cores (fold (fifo_init_core api) cpus s) = fset_of_list cpus |\<union>| online_cores s"
    by (induction cpus arbitrary: s) (auto simp: fifo_init_core_kern)
  have keep: "c \<notin> set cpus \<Longrightarrow> cores (fold (fifo_init_core api) cpus s) c = cores s c" for c cpus s
    by (induction cpus arbitrary: s) (simp_all add: fifo_init_core_kern)
  show "c \<in> set cpus \<Longrightarrow> fc_id (cores (fold (fifo_init_core api) cpus s) c) = c \<and>
     fc_state (cores (fold (fifo_init_core api) cpus s) c) = IPANEMA_ACTIVE_CORE"
  proof (induction cpus arbitrary: s)
    case Nil
    then show ?case by simp
  next
    case (Cons d cpus)
    then show ?case by (cases "c \<in> set cpus") (auto simp: fifo_init_core_kern keep)
  qed
qed

context saakm_framework
begin

lemma fresh_init_rq: "fresh_kernel k \<Longrightarrow> fresh_kernel (init_rq api x k)"
  by (auto simp: fresh_kernel_def init_rq)

lemma fresh_policy_inv: "fresh_kernel k \<Longrightarrow> policy_inv so ta ro k h"
  by (auto simp: fresh_kernel_def policy_inv_def kernel_wf_def queue_ok_def view_ok_def)

lemma fresh_running_ok: "fresh_kernel k \<Longrightarrow> running_ok cur k cs"
  by (auto simp: fresh_kernel_def running_ok_def)

lemma fifo_init_fresh:
  "fresh_kernel (kern s) \<Longrightarrow> fresh_kernel (kern (fold (fifo_init_core api) cpus s))"
  by (induction cpus arbitrary: s) (simp_all add: fifo_init_core_kern fresh_init_rq)

lemma fifo_init_inv:
  assumes "fresh_kernel (kern s)"
  shows "fifo_inv (fst (snd (fifo_mod_init api cpus ok res s m)))"
  using fifo_init_fresh [OF assms, of cpus]
  by (simp add: fifo_mod_init_def fifo_inv_def fresh_policy_inv fresh_running_ok Let_def)

end

section \<open>The quantum accounting\<close>

text \<open>A tick before the quantum is used up only charges the object.\<close>

lemma fifo_tick_charges:
  assumes "policy_metadata p s = Inr (a, fp)" and "fp_task fp = p"
    and "current_quantum_ns fp + (now - last_sched_ns fp) < QUANTUM_NS"
  shows "\<exists>t. fifo_tick api p now s = Inr t \<and> kern t = kern s \<and>
    policy_metadata p t =
      Inr (a, fp\<lparr>current_quantum_ns := current_quantum_ns fp + (now - last_sched_ns fp)\<rparr>)"
proof -
  have "\<not> QUANTUM_NS \<le> current_quantum_ns fp + (now - last_sched_ns fp)" using assms(3) by simp
  moreover from assms(1) have "k_meta (kern s) p = Some a" "heap s a = Some fp"
    by (simp_all add: policy_metadata_Inr)
  ultimately show ?thesis
    using assms(2) by (simp add: fifo_tick_def policy_metadata_def sys_defs Let_def)
qed

lemma fifo_ticks_charge:
  assumes "policy_metadata p s = Inr (a, fp)" and "fp_task fp = p"
    and "\<And>i. i \<le> length ts \<Longrightarrow>
      current_quantum_ns fp + (\<Sum>n\<leftarrow>take i ts. n - last_sched_ns fp) < QUANTUM_NS"
  shows "\<exists>t. run (fifo_routines api) (map (Tick p c) ts) s = Inr t \<and> kern t = kern s \<and>
    policy_metadata p t = Inr (a, fp\<lparr>current_quantum_ns :=
      current_quantum_ns fp + (\<Sum>n\<leftarrow>ts. n - last_sched_ns fp)\<rparr>)"
  using assms
proof (induction ts arbitrary: s fp)
  case Nil
  then show ?case by simp
next
  case (Cons n ts)
  let ?fp = "fp\<lparr>current_quantum_ns := current_quantum_ns fp + (n - last_sched_ns fp)\<rparr>"
  from Cons.prems(3) [of 1] have "current_quantum_ns fp + (n - last_sched_ns fp) < QUANTUM_NS"
    by simp
  from fifo_tick_charges [OF Cons.prems(1,2) this] obtain u where
    u: "fifo_tick api p n s = Inr u" "kern u = kern s" "policy_metadata p u = Inr (a, ?fp)" by blast
  have "current_quantum_ns ?fp + (\<Sum>m\<leftarrow>take i ts. m - last_sched_ns ?fp) < QUANTUM_NS"
    if "i \<le> length ts" for i
    using Cons.prems(3) [of "Suc i"] that by (simp add: add.assoc)
  from Cons.IH [OF u(3) _ this] Cons.prems(2) obtain t where
    "run (fifo_routines api) (map (Tick p c) ts) u = Inr t" "kern t = kern u"
    "policy_metadata p t = Inr (a, ?fp\<lparr>current_quantum_ns :=
      current_quantum_ns ?fp + (\<Sum>m\<leftarrow>ts. m - last_sched_ns ?fp)\<rparr>)" by auto
  with u show ?case by (simp add: add.assoc)
qed

text \<open>Ticks every \<open>d\<close> nanoseconds: the charge grows with the triangular numbers.\<close>

lemma sum_triangular:
  "(\<Sum>n\<leftarrow>map (\<lambda>i. l + of_nat i * d) [1..<Suc k]. n - l) = (of_nat (k * (k + 1) div 2) * d :: ulong)"
proof (induction k)
  case 0
  then show ?case by simp
next
  case (Suc k)
  have "Suc k * (Suc k + 1) div 2 = k * (k + 1) div 2 + Suc k" by simp
  with Suc show ?case by (simp add: algebra_simps)
qed

end
