(* ===== verification/Fifo_Props.thy ===== *)
theory Fifo_Props
  imports Fifo_Refine
begin

text \<open>
  The properties of modules/fifo_benchs/fifo.c, with the concrete run on the executable
  framework that the witnesses evaluate.
\<close>

section \<open>A concrete machine\<close>

text \<open>Four cpus, the module just loaded, and two threads placed on cpu 3.\<close>

definition fifo_demo :: fifo_sys where
  "fifo_demo = \<lparr>kern = idle_kernel,
     cores = (\<lambda>c. \<lparr>fc_state = IPANEMA_IDLE_CORE, fc_id = 0, fc_current = None,
        stats = \<lparr>total_enqueue = 0, total_exec = 0, schedule_calls = 0, tick_calls = 0\<rparr>\<rparr>),
     heap = (\<lambda>_. None), trace = [], online_cores = {||}\<rparr>"

definition fifo_loaded :: fifo_sys where
  "fifo_loaded = fst (snd (fifo_mod_init ref_api [0, 1, 2, 3] True 0 fifo_demo no_module))"

definition fifo_script :: "kevent list" where
  "fifo_script = [NewPrepare 7 0 (Some 100) 4, SetTaskCpu 7 3, NewPlace 7,
     NewPrepare 8 0 (Some 101) 4, SetTaskCpu 8 3, NewPlace 8, Schedule 3 0]"

definition fifo_busy :: fifo_sys where
  "fifo_busy = projr (run (fifo_routines ref_api) fifo_script fifo_loaded)"

lemmas fifo_eval = fifo_demo_def idle_kernel_def fifo_loaded_def fifo_mod_init_def
  fifo_init_core_def sys_defs ref_change_state_def ref_first_task_def ref_remove_task_def
  ref_init_rq_def Let_def attached_def policy_metadata_def fifo_script_def handler_defs

lemma fifo_loaded_inv: "fifo_inv fifo_loaded"
  unfolding fifo_loaded_def by (rule ref.fifo_init_inv) (simp add: fifo_demo_def)

lemma fifo_script_admissible: "admissible (fifo_routines ref_api) protocol fifo_script fifo_loaded"
  by (simp add: fifo_eval)

lemma fifo_busy_run: "run (fifo_routines ref_api) fifo_script fifo_loaded = Inr fifo_busy"
  using ref.fifo_run_total [OF fifo_loaded_inv fifo_script_admissible]
  by (auto simp: fifo_busy_def)

lemma fifo_busy_reachable: "reachable (fifo_routines ref_api) protocol fifo_loaded fifo_busy"
  by (rule reachable_run [OF reachable.start fifo_script_admissible fifo_busy_run])

lemma fifo_busy_inv: "fifo_inv fifo_busy"
  by (rule ref.fifo.reachable_inv [OF fifo_busy_reachable fifo_loaded_inv])

lemma fifo_busy_state:
  "k_current (kern fifo_busy) 3 = Some 7" "k_queue (kern fifo_busy) (LocalRq 3) = [8]"
  "k_cpu (kern fifo_busy) 7 = 3" "k_meta (kern fifo_busy) 7 = Some 100"
  "k_state (kern fifo_busy) 7 = IPANEMA_RUNNING"
  "heap fifo_busy 100 = Some \<lparr>fp_state = 2, fp_task = 7, fp_rq = None,
     current_quantum_ns = 0, last_sched_ns = 0\<rparr>"
  "fc_current (cores fifo_busy 3) = Some 100"
  by (simp_all add: fifo_busy_def fifo_eval)

section \<open>Safety\<close>

text \<open>C2 From a module loaded into a fresh kernel, no sequence of events delivered by the
  calling protocol makes a handler of fifo.c fault: whatever thread event or core event
  comes next, its handler returns (no null dereference, no use of a freed object, no
  division by zero).\<close>

theorem fifo_never_faults:
  assumes fw: "saakm_framework api" and fresh: "fresh_kernel (kern s0)"
    and init: "fifo_mod_init api cpus ok res s0 m = (r, s, m')"
    and run: "reachable (fifo_routines api) protocol s t" and pr: "protocol e t"
  shows "\<exists>u. fifo_routines api e t = Inr u"
proof -
  have "fifo_inv s"
    using saakm_framework.fifo_init_inv [OF fw fresh, of cpus ok res m] init by simp
  from saakm_framework.fifo_reachable_no_fault [OF fw run this pr] show ?thesis .
qed

theorem fifo_never_faults_witness:
  "\<exists>u. fifo_routines ref_api (Tick 7 3 9) fifo_busy = Inr u"
proof (rule fifo_never_faults [OF ref.saakm_framework_axioms])
  show "fresh_kernel (kern fifo_demo)" by (simp add: fifo_demo_def)
  show "fifo_mod_init ref_api [0, 1, 2, 3] True 0 fifo_demo no_module =
      (0, fifo_loaded, \<lparr>policy_allocated = True, policy_registered = True, proc_entry = True\<rparr>)"
    by (simp add: fifo_loaded_def fifo_mod_init_def no_module_def Let_def)
  show "reachable (fifo_routines ref_api) protocol fifo_loaded fifo_busy"
    by (rule fifo_busy_reachable)
  show "protocol (Tick 7 3 9) fifo_busy" by (simp add: fifo_busy_state)
qed

text \<open>C26 In every state reached from a loaded module, the object fifo.c keeps for a live
  thread is allocated, belongs to that thread, and agrees with the framework: its state
  field is the code of the framework's state (\<open>READY_TICK\<close> standing for \<open>READY\<close>) and its
  runqueue field is the runqueue the thread sits in.\<close>

theorem fifo_view_agrees:
  assumes fw: "saakm_framework api" and fresh: "fresh_kernel (kern s0)"
    and init: "fifo_mod_init api cpus ok res s0 m = (r, s, m')"
    and run: "reachable (fifo_routines api) protocol s t" and att: "attached (kern t) p"
  shows "\<exists>a fp st. k_meta (kern t) p = Some a \<and> heap t a = Some fp \<and> fp_task fp = p \<and>
    fp_state fp = state_code st \<and> norm_state st = norm_state (k_state (kern t) p) \<and>
    fp_rq fp = k_rq (kern t) p"
proof -
  have "fifo_inv s"
    using saakm_framework.fifo_init_inv [OF fw fresh, of cpus ok res m] init by simp
  from saakm_framework.fifo_reachable_inv [OF fw run this] have "fifo_inv t" .
  from fifo_inv_object [OF this att] show ?thesis by blast
qed

theorem fifo_view_agrees_witness:
  "\<exists>a fp st. k_meta (kern fifo_busy) 7 = Some a \<and> heap fifo_busy a = Some fp \<and> fp_task fp = 7 \<and>
    fp_state fp = state_code st \<and> norm_state st = norm_state (k_state (kern fifo_busy) 7) \<and>
    fp_rq fp = k_rq (kern fifo_busy) 7"
proof (rule fifo_view_agrees [OF ref.saakm_framework_axioms])
  show "fresh_kernel (kern fifo_demo)" by (simp add: fifo_demo_def)
  show "fifo_mod_init ref_api [0, 1, 2, 3] True 0 fifo_demo no_module =
      (0, fifo_loaded, \<lparr>policy_allocated = True, policy_registered = True, proc_entry = True\<rparr>)"
    by (simp add: fifo_loaded_def fifo_mod_init_def no_module_def Let_def)
  show "reachable (fifo_routines ref_api) protocol fifo_loaded fifo_busy"
    by (rule fifo_busy_reachable)
  show "attached (kern fifo_busy) 7" by (simp add: attached_def fifo_busy_state)
qed

section \<open>The queues\<close>

text \<open>C1 fifo.c refines per-core FIFO queues: along every admissible run, the runqueues and
  running threads of the framework are those of the abstract scheduler that appends a
  placed, yielding or expired thread to the queue of its own cpu, elects heads and drops
  blocked and terminated threads.\<close>

theorem fifo_run_is_fifo:
  assumes "saakm_framework api" and "fifo_inv s"
    and "admissible (fifo_routines api) protocol es s"
  shows "\<exists>t. run (fifo_routines api) es s = Inr t \<and> fifo_inv t \<and>
    abs_fifo (kern t) = fold a_step (fifo_ops api es s) (abs_fifo (kern s))"
  by (rule saakm_framework.fifo_run_refines [OF assms])

theorem fifo_run_is_fifo_witness:
  "\<exists>t. run (fifo_routines ref_api) fifo_script fifo_loaded = Inr t \<and> fifo_inv t \<and>
    abs_fifo (kern t) = fold a_step (fifo_ops ref_api fifo_script fifo_loaded) (abs_fifo (kern fifo_loaded))"
  by (rule fifo_run_is_fifo [OF ref.saakm_framework_axioms fifo_loaded_inv fifo_script_admissible])

text \<open>C27 No thread starves: if a core runs \<open>p\<close> and has \<open>ps\<close> in line, then after the first
  \<open>n\<close> of them have each yielded once and the core has scheduled, the \<open>n\<close>-th thread in line
  has the core and the ones that yielded stand at the tail in the same order.\<close>

theorem fifo_round_robin:
  assumes "saakm_framework api" and "fifo_inv s" and "k_current (kern s) c = Some p"
    and "k_queue (kern s) (LocalRq c) = ps" and "n \<le> length ps"
  shows "\<exists>t. run (fifo_routines api)
      (concat (map (\<lambda>q. [Yield q, Schedule c now]) (take n (p # ps)))) s = Inr t \<and>
    k_current (kern t) c = Some ((p # ps) ! n) \<and>
    k_queue (kern t) (LocalRq c) = drop n ps @ take n (p # ps)"
proof -
  have a: "running (abs_fifo (kern s)) c = Some p" "ready (abs_fifo (kern s)) c = ps"
    using assms(3,4) by (simp_all add: abs_fifo_def)
  obtain t where t: "run (fifo_routines api)
      (concat (map (\<lambda>q. [Yield q, Schedule c now]) (take n (p # ps)))) s = Inr t"
    "abs_fifo (kern t) = (a_round c ^^ n) (abs_fifo (kern s))"
    using saakm_framework.fifo_rounds [OF assms] by blast
  have "running (abs_fifo (kern t)) c = Some ((p # ps) ! n)"
    "ready (abs_fifo (kern t)) c = drop n ps @ take n (p # ps)"
    using a_rounds [OF a assms(5)] t(2) by simp_all
  with t(1) show ?thesis by (auto simp: abs_fifo_def)
qed

theorem fifo_round_robin_witness:
  "\<exists>t. run (fifo_routines ref_api) (concat (map (\<lambda>q. [Yield q, Schedule 3 0]) (take 1 [7, 8]))) fifo_busy
      = Inr t \<and> k_current (kern t) 3 = Some ([7, 8] ! 1) \<and>
    k_queue (kern t) (LocalRq 3) = drop 1 [8] @ take 1 [7, 8]"
  by (rule fifo_round_robin [OF ref.saakm_framework_axioms fifo_busy_inv])
     (simp_all add: fifo_busy_state)

section \<open>The quantum\<close>

text \<open>Every tick of fifo.c charges the thread with the whole time since it was elected,
  not with the time since the previous tick: while the quantum lasts, ticks at the times
  \<open>ts\<close> leave the kernel untouched and add the sum of all \<open>n - last_sched_ns\<close>.\<close>

theorem fifo_tick_accounting:
  assumes "policy_metadata p s = Inr (a, fp)" and "fp_task fp = p"
    and "\<And>i. i \<le> length ts \<Longrightarrow>
      current_quantum_ns fp + (\<Sum>n\<leftarrow>take i ts. n - last_sched_ns fp) < QUANTUM_NS"
  shows "\<exists>t. run (fifo_routines api) (map (Tick p c) ts) s = Inr t \<and> kern t = kern s \<and>
    policy_metadata p t = Inr (a, fp\<lparr>current_quantum_ns :=
      current_quantum_ns fp + (\<Sum>n\<leftarrow>ts. n - last_sched_ns fp)\<rparr>)"
  by (rule fifo_ticks_charge [OF assms])

theorem fifo_tick_accounting_witness:
  "\<exists>t. run (fifo_routines ref_api) (map (Tick 7 3) [4000000, 8000000]) fifo_busy = Inr t \<and>
    kern t = kern fifo_busy \<and>
    policy_metadata 7 t = Inr (100, \<lparr>fp_state = 2, fp_task = 7, fp_rq = None,
      current_quantum_ns = 0, last_sched_ns = 0\<rparr>\<lparr>current_quantum_ns :=
      0 + (\<Sum>n\<leftarrow>[4000000, 8000000]. n - 0)\<rparr>)"
proof -
  let ?fp = "\<lparr>fp_state = 2, fp_task = 7, fp_rq = None, current_quantum_ns = 0, last_sched_ns = 0\<rparr>"
  have m: "policy_metadata 7 fifo_busy = Inr (100, ?fp)"
    by (simp add: policy_metadata_Inr fifo_busy_state)
  have "current_quantum_ns ?fp + (\<Sum>n\<leftarrow>take i [4000000, 8000000]. n - last_sched_ns ?fp) < QUANTUM_NS"
    if "i \<le> length [4000000, 8000000 :: u64]" for i
  proof -
    from that consider "i = 0" | "i = Suc 0" | "i = Suc (Suc 0)" by fastforce
    then show ?thesis by cases (simp_all add: QUANTUM_NS_def)
  qed
  from fifo_tick_accounting [OF m _ this] show ?thesis by simp
qed

text \<open>With a tick every \<open>d\<close> nanoseconds after its election a thread is charged \<open>k(k+1)/2\<close>
  times \<open>d\<close> after \<open>k\<close> ticks. So with a tick every 4 ms the quantum of 20 ms is gone at the
  third tick: the thread runs on after 4 ms and 8 ms, and after 12 ms it is sent to the
  tail of its core's queue as \<open>READY_TICK\<close>.\<close>

theorem fifo_quantum_short:
  assumes "policy_metadata p s = Inr (a, fp)" and "fp_task fp = p"
    and "current_quantum_ns fp = 0" and "last_sched_ns fp = l"
  shows "\<exists>t u. run (fifo_routines api) [Tick p c (l + 4000000), Tick p c (l + 8000000)] s = Inr t \<and>
    kern t = kern s \<and> fifo_routines api (Tick p c (l + 12000000)) t = Inr u \<and>
    kern u = change_state api p IPANEMA_READY_TICK (k_cpu (kern s) p)
               (Some (LocalRq (k_cpu (kern s) p))) (kern s)"
proof -
  let ?ts = "[l + 4000000, l + 8000000]"
  have "current_quantum_ns fp + (\<Sum>n\<leftarrow>take i ?ts. n - last_sched_ns fp) < QUANTUM_NS"
    if "i \<le> length ?ts" for i
  proof -
    from that consider "i = 0" | "i = Suc 0" | "i = Suc (Suc 0)" by fastforce
    then show ?thesis using assms by cases (simp_all add: QUANTUM_NS_def)
  qed
  from fifo_ticks_charge [OF assms(1,2) this] assms(3,4) obtain t where
    t: "run (fifo_routines api) (map (Tick p c) ?ts) s = Inr t" "kern t = kern s"
    "policy_metadata p t = Inr (a, fp\<lparr>current_quantum_ns := 12000000\<rparr>)" by auto
  have "quantum_expired p (l + 12000000) t"
    using t(3) assms by (simp add: quantum_expired_def QUANTUM_NS_def)
  moreover have "\<exists>u. fifo_tick api p (l + 12000000) t = Inr u"
    using t(3) by (auto simp: fifo_tick_def fifo_enqueue_task_def put_proc_def Let_def)
  ultimately obtain u where "fifo_tick api p (l + 12000000) t = Inr u"
    "kern u = change_state api p IPANEMA_READY_TICK (k_cpu (kern t) p)
      (Some (LocalRq (k_cpu (kern t) p))) (kern t)"
    using fifo_tick_kern [OF t(3)] assms(2) by auto
  with t show ?thesis by auto
qed

theorem fifo_quantum_short_witness:
  "\<exists>t u. run (fifo_routines ref_api) [Tick 7 3 (0 + 4000000), Tick 7 3 (0 + 8000000)] fifo_busy = Inr t \<and>
    kern t = kern fifo_busy \<and> fifo_routines ref_api (Tick 7 3 (0 + 12000000)) t = Inr u \<and>
    kern u = change_state ref_api 7 IPANEMA_READY_TICK (k_cpu (kern fifo_busy) 7)
               (Some (LocalRq (k_cpu (kern fifo_busy) 7))) (kern fifo_busy)"
  by (rule fifo_quantum_short [where a = 100 and fp = "\<lparr>fp_state = 2, fp_task = 7, fp_rq = None,
      current_quantum_ns = 0, last_sched_ns = 0\<rparr>"])
     (simp_all add: policy_metadata_Inr fifo_busy_state)

section \<open>The pointer to the running object\<close>

text \<open>A thread that yields and then terminates leaves its core with a dangling
  \<open>_current\<close>: fifo_yield does not clear the pointer, fifo_terminate clears it only for a
  thread in state \<open>RUNNING\<close>, and the object is freed.\<close>

theorem fifo_yield_terminate_dangles:
  assumes fw: "saakm_framework api" and inv: "fifo_inv s" and cur: "k_current (kern s) c = Some p"
  shows "\<exists>t a. admissible (fifo_routines api) protocol [Yield p, Terminate p] s \<and>
    run (fifo_routines api) [Yield p, Terminate p] s = Inr t \<and>
    fc_current (cores t c) = Some a \<and> heap t a = None"
proof -
  from inv have run: "running_ok fc_current (kern s) (cores s)" by (simp add: fifo_inv_def)
  from running_okD [OF run cur] have att: "attached (kern s) p" and c: "k_cpu (kern s) p = c"
    and ptr: "fc_current (cores s c) = k_meta (kern s) p" by auto
  obtain a fp where a: "k_meta (kern s) p = Some a" "heap s a = Some fp" "fp_task fp = p"
    using fifo_inv_object [OF inv att] by blast
  let ?k = "change_state api p IPANEMA_READY c (Some (LocalRq c)) (kern s)"
  have k: "k_meta ?k = k_meta (kern s)" "k_state ?k p \<noteq> IPANEMA_TERMINATED"
    "k_state ?k p \<noteq> IPANEMA_RUNNING"
    using saakm_framework.cs_meta [OF fw] saakm_framework.cs_state_eq [OF fw] by simp_all
  let ?fp = "fp\<lparr>fp_state := state_code IPANEMA_READY, fp_rq := Some (LocalRq c)\<rparr>"
  obtain u where u: "fifo_yield api p s = Inr u" "kern u = ?k" "heap u = (heap s)(a \<mapsto> ?fp)"
    "fc_current (cores u c) = Some a"
    using a c ptr by (simp add: fifo_yield_def policy_metadata_def fifo_enqueue_task_def sys_defs Let_def)
  have "admissible (fifo_routines api) protocol [Yield p, Terminate p] s"
    using u a c cur k by (simp add: attached_def split: sum.split)
  moreover obtain t where "fifo_terminate api p u = Inr t" "fc_current (cores t c) = Some a"
    "heap t a = None"
    using u a k by (simp add: fifo_terminate_def policy_metadata_def sys_defs Let_def)
  ultimately show ?thesis using u(1) by auto
qed

theorem fifo_yield_terminate_dangles_witness:
  "\<exists>t a. admissible (fifo_routines ref_api) protocol [Yield 7, Terminate 7] fifo_busy \<and>
    run (fifo_routines ref_api) [Yield 7, Terminate 7] fifo_busy = Inr t \<and>
    fc_current (cores t 3) = Some a \<and> heap t a = None"
  by (rule fifo_yield_terminate_dangles [OF ref.saakm_framework_axioms fifo_busy_inv])
     (simp add: fifo_busy_state)

section \<open>Choosing a cpu\<close>

text \<open>Unless the thread is being rebalanced by exec (which keeps it where it is), the cpu
  fifo.c chooses is the pid modulo the number of online cpus: it lies in range, and it
  does not depend on how many threads any runqueue holds.\<close>

theorem fifo_select_cpu_range:
  assumes "n \<noteq> 0" and "unat n \<le> 2 ^ 31"
  shows "\<exists>r. (\<forall>q. select_cpu api (k\<lparr>k_queue := q\<rparr>) p prev 0 n = Inr r) \<and>
    r = uint (k_pid k p) mod uint n \<and> 0 \<le> r \<and> r < uint n"
proof -
  have pos: "0 < uint n" using assms(1) by (simp add: word_neq_0_conv word_less_def)
  have "uint (k_pid k p mod n) = uint (k_pid k p) mod uint n" by (rule uint_mod)
  moreover from pos have "uint (k_pid k p) mod uint n < uint n" by simp
  moreover have "uint n \<le> 2 ^ 31"
  proof -
    have "int (unat n) \<le> int (2 ^ 31)" using assms(2) by (simp only: of_nat_le_iff)
    then show ?thesis by simp
  qed
  ultimately have lt: "uint (k_pid k p mod n) < 2 ^ 31" by linarith
  have "sint (k_pid k p mod n) = uint (k_pid k p mod n)"
    using lt by (rule sint_small)
  with pos assms(1) show ?thesis by (auto simp: select_cpu_def uint_mod)
qed

theorem fifo_select_cpu_range_witness:
  "\<exists>r. (\<forall>q. select_cpu ref_api (idle_kernel\<lparr>k_queue := q\<rparr>) 7 0 0 4 = Inr r) \<and>
    r = uint (k_pid idle_kernel 7) mod uint (4 :: u32) \<and> 0 \<le> r \<and> r < uint (4 :: u32)"
  by (rule fifo_select_cpu_range) simp_all

section \<open>Loading the module\<close>

text \<open>Loading fifo.c: every possible cpu ends up active, numbered by itself and online,
  whatever happens next; a failed allocation of the policy is \<open>-ENOMEM\<close> with nothing
  else done; a registered policy is \<open>0\<close>; and when the framework refuses the policy its
  object is freed and the error returned, but the procfs entry is created all the same.\<close>

theorem fifo_mod_init_outcomes:
  assumes "fifo_mod_init api cpus ok res s m = (r, t, m')"
  shows "(\<forall>c \<in> set cpus. fc_id (cores t c) = c \<and> fc_state (cores t c) = IPANEMA_ACTIVE_CORE \<and>
       c |\<in>| online_cores t) \<and>
    (\<not> ok \<longrightarrow> r = - ENOMEM \<and> m' = m) \<and>
    (ok \<longrightarrow> r = res \<and> proc_entry m' \<and> policy_allocated m' = (res = 0) \<and>
       policy_registered m' = (res = 0))"
  using assms fifo_init_cores [where api = api and cpus = cpus and s = s]
  by (auto simp: fifo_mod_init_def Let_def fset_of_list_elem split: if_splits)

theorem fifo_mod_init_outcomes_witness:
  "fc_id (cores fifo_loaded 2) = 2 \<and> fc_state (cores fifo_loaded 2) = IPANEMA_ACTIVE_CORE \<and>
    2 |\<in>| online_cores fifo_loaded \<and>
    (let m' = snd (snd (fifo_mod_init ref_api [0, 1, 2, 3] True (-22) fifo_demo no_module))
     in proc_entry m' \<and> \<not> policy_allocated m' \<and> \<not> policy_registered m')"
proof -
  have "fifo_mod_init ref_api [0, 1, 2, 3] True (-22) fifo_demo no_module =
      (-22, fifo_loaded, no_module\<lparr>proc_entry := True\<rparr>)"
    by (simp add: fifo_loaded_def fifo_mod_init_def no_module_def Let_def)
  from fifo_mod_init_outcomes [OF this] this show ?thesis by simp
qed

end
