(* ===== verification/GlobalFifo.thy ===== *)
theory GlobalFifo
  imports Saakm
begin

text \<open>
  modules/global_fifo/global_fifo.c: one FIFO runqueue shared by all cores, protected by a
  spinlock of the module, and a FIFO runqueue per core that receives the threads a core
  pulls when it goes idle. Structures and handlers in the order of the file. The fields of
  the structures have a prefix, \<open>gp_\<close> for \<open>fifo_process\<close> and \<open>gc_\<close> for \<open>fifo_core\<close>, and
  the handlers \<open>gfifo_\<close> for \<open>fifo_\<close>.
\<close>

section \<open>Structures\<close>

definition GQUANTUM_NS :: ulong where
  "GQUANTUM_NS = 20 * 1000000"

record gfifo_process =
  gp_state :: int
  gp_task :: task
  gp_rq :: "rqid option"
  gp_current_quantum_ns :: ulong
  gp_last_sched_ns :: ulong

record gfifo_core =
  gc_state :: core_state
  gc_id :: nat
  gc_current :: "addr option"

text \<open>
  The shared runqueue is \<open>GlobalRq\<close>, its \<open>cpu\<close> field \<open>g_rq_cpu\<close> and its lock
  \<open>ModuleLock\<close>. \<open>idle_cores\<close> is a pointer, null until the module is loaded.
\<close>

record gfifo_sys = "(gfifo_core, gfifo_process) sys" +
  g_online_cores :: cpumask
  g_idle_cores :: "cpumask option"
  g_rq_cpu :: cpu

definition gfifo_upd_idle :: "(cpumask \<Rightarrow> cpumask) \<Rightarrow> gfifo_sys \<Rightarrow> gfifo_sys res" where
  "gfifo_upd_idle f s =
     (case g_idle_cores s of
        None \<Rightarrow> Inl NullDeref
      | Some m \<Rightarrow> Inr (s\<lparr>g_idle_cores := Some (f m)\<rparr>))"

section \<open>Handlers of core events\<close>

definition gfifo_get_core_state :: "cpu \<Rightarrow> gfifo_sys \<Rightarrow> core_state" where
  "gfifo_get_core_state target s = gc_state (cores s target)"

definition gfifo_core_entry :: "cpu \<Rightarrow> gfifo_sys \<Rightarrow> gfifo_sys res" where
  "gfifo_core_entry target s =
     (let s1 = upd_core target (\<lambda>c. c\<lparr>gc_state := IPANEMA_ACTIVE_CORE\<rparr>) s;
          id = gc_id (cores s1 target);
          s2 = s1\<lparr>g_online_cores := cpumask_set_cpu id (g_online_cores s1)\<rparr>
      in gfifo_upd_idle (cpumask_set_cpu id) s2)"

definition gfifo_core_exit :: "cpu \<Rightarrow> gfifo_sys \<Rightarrow> gfifo_sys res" where
  "gfifo_core_exit target s =
     (let s1 = upd_core target (\<lambda>c. c\<lparr>gc_state := IPANEMA_IDLE_CORE\<rparr>) s;
          id = gc_id (cores s1 target);
          s2 = s1\<lparr>g_online_cores := cpumask_clear_cpu id (g_online_cores s1)\<rparr>
      in gfifo_upd_idle (cpumask_clear_cpu id) s2)"

text \<open>
  The \<open>fp\<close> read from the metadata is never dereferenced here, and \<open>task_cpu\<close> is read
  after the shared lock is released.
\<close>

definition gfifo_newly_idle :: "kapi \<Rightarrow> cpu \<Rightarrow> gfifo_sys \<Rightarrow> gfifo_sys" where
  "gfifo_newly_idle api local_cpu s =
     (let s1 = acquire ModuleLock s in
      case first_task api (kern s1) GlobalRq of
        None \<Rightarrow> release ModuleLock s1
      | Some nxt \<Rightarrow>
          let s2 = release ModuleLock (call_remove_task api GlobalRq nxt s1);
              current_task_cpu = k_cpu (kern s2) nxt
          in if local_cpu = current_task_cpu then
               call_change_state api nxt IPANEMA_READY (k_cpu (kern s2) nxt)
                 (Some (LocalRq local_cpu)) s2
             else
               let s3 = acquire_both (CoreLock local_cpu) (CoreLock current_task_cpu) s2;
                   s4 = call_change_state api nxt IPANEMA_MIGRATING local_cpu None s3;
                   s5 = call_change_state api nxt IPANEMA_READY local_cpu
                          (Some (LocalRq local_cpu)) s4
               in release (CoreLock local_cpu) (release (CoreLock current_task_cpu) s5))"

text \<open>
  Its critical sections, one by one: another cpu may run a handler between them. \<open>gfifo_pull\<close>
  takes the first thread out of the shared runqueue, under the lock; then \<open>task_cpu\<close> is
  read with no lock held; a thread of the same cpu is queued, one of another cpu migrates
  and then is queued.
\<close>

definition gfifo_pull :: "kapi \<Rightarrow> gfifo_sys \<Rightarrow> task option \<times> gfifo_sys" where
  "gfifo_pull api s =
     (let s1 = acquire ModuleLock s in
      case first_task api (kern s1) GlobalRq of
        None \<Rightarrow> (None, release ModuleLock s1)
      | Some nxt \<Rightarrow> (Some nxt, release ModuleLock (call_remove_task api GlobalRq nxt s1)))"

definition gfifo_queue_local :: "kapi \<Rightarrow> cpu \<Rightarrow> task \<Rightarrow> gfifo_sys \<Rightarrow> gfifo_sys" where
  "gfifo_queue_local api local_cpu nxt s =
     call_change_state api nxt IPANEMA_READY (k_cpu (kern s) nxt) (Some (LocalRq local_cpu)) s"

definition gfifo_migrate :: "kapi \<Rightarrow> cpu \<Rightarrow> task \<Rightarrow> cpu \<Rightarrow> gfifo_sys \<Rightarrow> gfifo_sys" where
  "gfifo_migrate api local_cpu nxt current_task_cpu s =
     call_change_state api nxt IPANEMA_MIGRATING local_cpu None
       (acquire_both (CoreLock local_cpu) (CoreLock current_task_cpu) s)"

definition gfifo_queue_moved :: "kapi \<Rightarrow> cpu \<Rightarrow> task \<Rightarrow> cpu \<Rightarrow> gfifo_sys \<Rightarrow> gfifo_sys" where
  "gfifo_queue_moved api local_cpu nxt current_task_cpu s =
     release (CoreLock local_cpu) (release (CoreLock current_task_cpu)
       (call_change_state api nxt IPANEMA_READY local_cpu (Some (LocalRq local_cpu)) s))"

lemma gfifo_newly_idle_sections:
  "gfifo_newly_idle api c s =
     (case gfifo_pull api s of
        (None, t) \<Rightarrow> t
      | (Some p, t) \<Rightarrow>
          let d = k_cpu (kern t) p
          in if c = d then gfifo_queue_local api c p t
             else gfifo_queue_moved api c p d (gfifo_migrate api c p d t))"
  by (simp add: gfifo_newly_idle_def gfifo_pull_def gfifo_queue_local_def gfifo_migrate_def
      gfifo_queue_moved_def Let_def split: option.split)

definition gfifo_enter_idle :: "cpu \<Rightarrow> gfifo_sys \<Rightarrow> gfifo_sys res" where
  "gfifo_enter_idle target s =
     gfifo_upd_idle (cpumask_set_cpu target)
       (upd_core target (\<lambda>c. c\<lparr>gc_state := IPANEMA_IDLE_CORE\<rparr>) s)"

definition gfifo_exit_idle :: "cpu \<Rightarrow> gfifo_sys \<Rightarrow> gfifo_sys res" where
  "gfifo_exit_idle target s =
     (let s1 = upd_core target (\<lambda>c. c\<lparr>gc_state := IPANEMA_ACTIVE_CORE\<rparr>) s;
          s2 = s1\<lparr>g_online_cores := cpumask_clear_cpu target (g_online_cores s1)\<rparr>
      in gfifo_upd_idle (cpumask_clear_cpu target) s2)"

section \<open>Handlers of thread events\<close>

definition gfifo_select_cpu :: "kernel \<Rightarrow> task \<Rightarrow> cpu \<Rightarrow> u32 \<Rightarrow> int res" where
  "gfifo_select_cpu k p prev_cpu num_online =
     (if num_online = 0 then Inl DivByZero else Inr (sint (k_pid k p mod num_online)))"

definition gfifo_new_prepare ::
    "task \<Rightarrow> addr option \<Rightarrow> u32 \<Rightarrow> gfifo_sys \<Rightarrow> (int \<times> gfifo_sys) res" where
  "gfifo_new_prepare p alloc num_online s =
     (case alloc of
        None \<Rightarrow> Inr (-1, s)
      | Some a \<Rightarrow>
          let fp = \<lparr>gp_state = state_code IPANEMA_NOT_QUEUED, gp_task = p, gp_rq = None,
                    gp_current_quantum_ns = 0, gp_last_sched_ns = 0\<rparr>;
              s1 = set_metadata p a (put_proc a fp s)
          in res_map (\<lambda>r. (r, s1)) (gfifo_select_cpu (kern s1) p (k_cpu (kern s1) p) num_online))"

definition gfifo_new_place :: "kapi \<Rightarrow> task \<Rightarrow> gfifo_sys \<Rightarrow> gfifo_sys" where
  "gfifo_new_place api p s =
     (let s1 = acquire ModuleLock s
      in release ModuleLock
           (call_change_state api p IPANEMA_READY (k_cpu (kern s1) p) (Some GlobalRq) s1))"

definition gfifo_new_end :: "task \<Rightarrow> gfifo_sys \<Rightarrow> gfifo_sys" where
  "gfifo_new_end p s = s"

text \<open>\<open>c\<close> is \<open>e->cpu\<close>.\<close>

definition gfifo_tick :: "kapi \<Rightarrow> task \<Rightarrow> cpu \<Rightarrow> u64 \<Rightarrow> gfifo_sys \<Rightarrow> gfifo_sys res" where
  "gfifo_tick api p c now s =
     res_bind (policy_metadata p s) (\<lambda>(a, fp).
       let fp1 = fp\<lparr>gp_current_quantum_ns :=
                      gp_current_quantum_ns fp + (gp_last_sched_ns fp - now)\<rparr>;
           fp2 = fp1\<lparr>gp_last_sched_ns := now\<rparr>;
           s1 = put_proc a fp2 s
       in if gp_current_quantum_ns fp2 \<ge> GQUANTUM_NS then
            let s2 = put_proc a (fp2\<lparr>gp_current_quantum_ns := 0\<rparr>) s1
            in if k_queue (kern s2) (LocalRq c) = [] then
                 Inr (call_change_state api p IPANEMA_READY_TICK (k_cpu (kern s2) p)
                        (Some (LocalRq c)) s2)
               else
                 let s3 = acquire ModuleLock s2
                 in Inr (release ModuleLock
                      (call_change_state api p IPANEMA_READY_TICK (k_cpu (kern s3) p)
                         (Some GlobalRq) s3))
          else Inr s1)"

definition gfifo_yield :: "kapi \<Rightarrow> task \<Rightarrow> gfifo_sys \<Rightarrow> gfifo_sys" where
  "gfifo_yield api p s =
     (let s1 = acquire ModuleLock s
      in release ModuleLock
           (call_change_state api p IPANEMA_READY (k_cpu (kern s1) p) (Some GlobalRq) s1))"

definition gfifo_block :: "kapi \<Rightarrow> task \<Rightarrow> gfifo_sys \<Rightarrow> gfifo_sys" where
  "gfifo_block api p s =
     (let s1 = acquire ModuleLock s
      in release ModuleLock
           (call_change_state api p IPANEMA_BLOCKED (k_cpu (kern s1) p) None s1))"

definition gfifo_unblock_prepare :: "task \<Rightarrow> gfifo_sys \<Rightarrow> int" where
  "gfifo_unblock_prepare p s = int (k_cpu (kern s) p)"

definition gfifo_unblock_place :: "kapi \<Rightarrow> task \<Rightarrow> gfifo_sys \<Rightarrow> gfifo_sys" where
  "gfifo_unblock_place api p s =
     (let s1 = acquire ModuleLock s
      in release ModuleLock
           (call_change_state api p IPANEMA_READY (g_rq_cpu s1) (Some GlobalRq) s1))"

definition gfifo_unblock_end :: "task \<Rightarrow> gfifo_sys \<Rightarrow> gfifo_sys" where
  "gfifo_unblock_end p s = s"

definition gfifo_terminate :: "kapi \<Rightarrow> task \<Rightarrow> gfifo_sys \<Rightarrow> gfifo_sys res" where
  "gfifo_terminate api p s =
     res_bind (policy_metadata p s) (\<lambda>(a, fp).
       let c = k_cpu (kern s) p;
           s1 = (if gp_state fp = state_code IPANEMA_RUNNING
                 then upd_core c (\<lambda>fc. fc\<lparr>gc_current := None\<rparr>) s else s);
           s2 = put_proc a (fp\<lparr>gp_state := state_code IPANEMA_TERMINATED, gp_rq := None\<rparr>) s1
       in Inr (call_change_state api p IPANEMA_TERMINATED (k_cpu (kern s2) p) None s2))"

text \<open>The lines the two branches of \<open>fifo_schedule\<close> share.\<close>

definition gfifo_run_next :: "kapi \<Rightarrow> task \<Rightarrow> cpu \<Rightarrow> u64 \<Rightarrow> gfifo_sys \<Rightarrow> gfifo_sys res" where
  "gfifo_run_next api nxt cpu now s =
     res_bind (policy_metadata nxt s) (\<lambda>(a, fp).
       let fp1 = fp\<lparr>gp_state := TASK_RUNNING api, gp_rq := None,
                    gp_last_sched_ns := now, gp_current_quantum_ns := 0\<rparr>;
           s1 = put_proc a fp1 s;
           s2 = upd_core cpu (\<lambda>fc. fc\<lparr>gc_current := Some a\<rparr>) s1
       in Inr (call_change_state api nxt IPANEMA_RUNNING cpu None s2))"

definition gfifo_schedule :: "kapi \<Rightarrow> cpu \<Rightarrow> u64 \<Rightarrow> gfifo_sys \<Rightarrow> gfifo_sys res" where
  "gfifo_schedule api cpu now s =
     (case first_task api (kern s) (LocalRq cpu) of
        Some nxt \<Rightarrow> gfifo_run_next api nxt cpu now s
      | None \<Rightarrow>
          let s1 = acquire ModuleLock s in
          case first_task api (kern s1) GlobalRq of
            None \<Rightarrow> Inr (release ModuleLock s1)
          | Some nxt \<Rightarrow>
              if k_cpu (kern s1) nxt \<noteq> cpu then Inr (release ModuleLock s1)
              else res_map (release ModuleLock) (gfifo_run_next api nxt cpu now s1))"

definition gfifo_load_balance :: "kapi \<Rightarrow> cpu \<Rightarrow> gfifo_sys \<Rightarrow> gfifo_sys" where
  "gfifo_load_balance api target s = gfifo_newly_idle api target s"

section \<open>The routine table\<close>

fun gfifo_routines :: "kapi \<Rightarrow> kevent \<Rightarrow> gfifo_sys \<Rightarrow> gfifo_sys res" where
  "gfifo_routines api (NewPrepare p flags al n) s = res_map snd (gfifo_new_prepare p al n s)"
| "gfifo_routines api (NewPlace p) s = Inr (gfifo_new_place api p s)"
| "gfifo_routines api (NewEnd p) s = Inr (gfifo_new_end p s)"
| "gfifo_routines api (Tick p c now) s = gfifo_tick api p c now s"
| "gfifo_routines api (Yield p) s = Inr (gfifo_yield api p s)"
| "gfifo_routines api (Block p c) s = Inr (gfifo_block api p s)"
| "gfifo_routines api (UnblockPrepare p flags n) s = Inr s"
| "gfifo_routines api (UnblockPlace p) s = Inr (gfifo_unblock_place api p s)"
| "gfifo_routines api (UnblockEnd p) s = Inr (gfifo_unblock_end p s)"
| "gfifo_routines api (Terminate p) s = gfifo_terminate api p s"
| "gfifo_routines api (Schedule c now) s = gfifo_schedule api c now s"
| "gfifo_routines api (CoreEntry c) s = gfifo_core_entry c s"
| "gfifo_routines api (CoreExit c) s = gfifo_core_exit c s"
| "gfifo_routines api (NewlyIdle c) s = Inr (gfifo_newly_idle api c s)"
| "gfifo_routines api (EnterIdle c) s = gfifo_enter_idle c s"
| "gfifo_routines api (ExitIdle c) s = gfifo_exit_idle c s"
| "gfifo_routines api (BalancingSelect c) s = Inr (gfifo_load_balance api c s)"
| "gfifo_routines api (SetTaskCpu p c) s = Inr (set_task_cpu p c s)"

section \<open>Loading and unloading the module\<close>

definition gfifo_init :: int where
  "gfifo_init = 0"

definition gfifo_free_metadata :: "addr option \<Rightarrow> gfifo_sys \<Rightarrow> int \<times> gfifo_sys" where
  "gfifo_free_metadata policy_data s =
     (case policy_data of None \<Rightarrow> (0, s) | Some a \<Rightarrow> (0, kfree a s))"

definition gfifo_can_be_default :: int where
  "gfifo_can_be_default = 1"

definition gfifo_attach :: "task \<Rightarrow> string \<Rightarrow> bool" where
  "gfifo_attach p command = True"

definition gfifo_init_core :: "kapi \<Rightarrow> cpu \<Rightarrow> gfifo_sys \<Rightarrow> gfifo_sys" where
  "gfifo_init_core api cpu s =
     (let s1 = upd_core cpu (\<lambda>c. c\<lparr>gc_id := cpu, gc_state := IPANEMA_ACTIVE_CORE\<rparr>) s;
          s2 = s1\<lparr>g_online_cores := cpumask_set_cpu cpu (g_online_cores s1)\<rparr>;
          s3 = s2\<lparr>g_idle_cores := map_option (cpumask_set_cpu cpu) (g_idle_cores s2)\<rparr>
      in s3\<lparr>kern := init_rq api (LocalRq cpu) (kern s3)\<rparr>)"

text \<open>
  \<open>idle_ok\<close> and \<open>policy_ok\<close>: the two allocations succeeded; \<open>add_res\<close>: the result of
  \<open>ipanema_add_policy\<close>.
\<close>

definition gfifo_mod_init ::
    "kapi \<Rightarrow> cpu list \<Rightarrow> bool \<Rightarrow> bool \<Rightarrow> int \<Rightarrow> gfifo_sys \<Rightarrow> module \<Rightarrow> int \<times> gfifo_sys \<times> module"
  where
  "gfifo_mod_init api possible_cpus idle_ok policy_ok add_res s m =
     (let s1 = s\<lparr>kern := init_rq api GlobalRq (kern s), g_rq_cpu := 0\<rparr>
      in if \<not> idle_ok then (- ENOMEM, s1\<lparr>g_idle_cores := None\<rparr>, m)
         else
           let s2 = s1\<lparr>g_idle_cores := Some {||}, g_online_cores := {||}\<rparr>;
               s3 = fold (gfifo_init_core api) possible_cpus s2
           in if \<not> policy_ok then (- ENOMEM, s3, m)
              else
                let m1 = m\<lparr>policy_allocated := True, policy_registered := (add_res = 0)\<rparr>;
                    m2 = (if add_res \<noteq> 0 then m1\<lparr>policy_allocated := False\<rparr> else m1);
                    m3 = m2\<lparr>proc_entry := True\<rparr>
                in (add_res, s3, m3))"

definition gfifo_exit :: "module \<Rightarrow> module" where
  "gfifo_exit m = m\<lparr>policy_registered := False, policy_allocated := False, proc_entry := False\<rparr>"

lemmas gfifo_defs =
  gfifo_upd_idle_def gfifo_core_entry_def gfifo_core_exit_def gfifo_newly_idle_def
  gfifo_enter_idle_def gfifo_exit_idle_def gfifo_select_cpu_def gfifo_new_prepare_def
  gfifo_new_place_def gfifo_new_end_def gfifo_tick_def gfifo_yield_def gfifo_block_def
  gfifo_unblock_prepare_def gfifo_unblock_place_def gfifo_unblock_end_def gfifo_terminate_def
  gfifo_run_next_def gfifo_schedule_def gfifo_load_balance_def

end
