(* ===== verification/Shared_Inv.thy ===== *)
theory Shared_Inv
  imports Policy_Inv
begin

text \<open>
  The invariant of the policies with one shared runqueue beside the per-core ones: every
  queued thread is ready and sits in the shared runqueue or in that of its own cpu, every
  ready thread is queued somewhere, and a live thread with metadata has its object.
\<close>

section \<open>The invariant\<close>

definition placed_ok :: "kernel \<Rightarrow> bool" where
  "placed_ok k \<longleftrightarrow> (\<forall>p x. k_rq k p = Some x \<longrightarrow>
     k_meta k p \<noteq> None \<and> norm_state (k_state k p) = IPANEMA_READY \<and>
     (x = GlobalRq \<or> x = LocalRq (k_cpu k p)))"

definition objects_ok :: "('p \<Rightarrow> task) \<Rightarrow> kernel \<Rightarrow> (addr \<Rightarrow> 'p option) \<Rightarrow> bool" where
  "objects_ok ta k h \<longleftrightarrow> (\<forall>p a. k_meta k p = Some a \<longrightarrow> k_state k p \<noteq> IPANEMA_TERMINATED \<longrightarrow>
     (\<exists>fp. h a = Some fp \<and> ta fp = p))"

text \<open>Every ready thread outside \<open>E\<close> is in a runqueue: none is lost.\<close>

definition none_lost :: "task set \<Rightarrow> kernel \<Rightarrow> bool" where
  "none_lost E k \<longleftrightarrow> (\<forall>p. p \<notin> E \<longrightarrow> norm_state (k_state k p) = IPANEMA_READY \<longrightarrow> k_rq k p \<noteq> None)"

definition shared_inv ::
    "('p \<Rightarrow> task) \<Rightarrow> task set \<Rightarrow> kernel \<Rightarrow> (addr \<Rightarrow> 'p option) \<Rightarrow> bool" where
  "shared_inv ta E k h \<longleftrightarrow> kernel_wf k \<and> placed_ok k \<and> objects_ok ta k h \<and> none_lost E k"

lemma shared_inv_wf: "shared_inv ta E k h \<Longrightarrow> kernel_wf k"
  by (simp add: shared_inv_def)

lemma shared_inv_mono: "shared_inv ta E k h \<Longrightarrow> E \<subseteq> F \<Longrightarrow> shared_inv ta F k h"
  by (auto simp: shared_inv_def none_lost_def)

lemma shared_object:
  assumes "shared_inv ta E k h" and "attached k p"
  shows "\<exists>a fp. k_meta k p = Some a \<and> h a = Some fp \<and> ta fp = p"
  using assms by (auto simp: shared_inv_def objects_ok_def attached_def)

lemma shared_queued:
  assumes "shared_inv ta E k h" and "p \<in> set (k_queue k x)"
  shows "attached k p" and "x = GlobalRq \<or> x = LocalRq (k_cpu k p)"
    and "k_state k p \<noteq> IPANEMA_RUNNING" and "k_rq k p = Some x"
proof -
  from assms show rq: "k_rq k p = Some x" by (simp add: shared_inv_def kernel_wfD(2))
  with assms(1) have q: "k_meta k p \<noteq> None" "norm_state (k_state k p) = IPANEMA_READY"
    "x = GlobalRq \<or> x = LocalRq (k_cpu k p)"
    by (auto simp: shared_inv_def placed_ok_def)
  from q(2) have "k_state k p \<noteq> IPANEMA_TERMINATED" by auto
  with q show "attached k p" and "x = GlobalRq \<or> x = LocalRq (k_cpu k p)"
    and "k_state k p \<noteq> IPANEMA_RUNNING"
    by (auto simp: attached_def)
qed

lemma shared_not_queued:
  assumes "shared_inv ta E k h" and "norm_state (k_state k p) \<noteq> IPANEMA_READY"
  shows "k_rq k p = None"
  using assms by (cases "k_rq k p") (auto simp: shared_inv_def placed_ok_def)

text \<open>A thread is ready exactly when it is in one runqueue.\<close>

lemma shared_ready_iff:
  assumes "shared_inv ta {} k h"
  shows "norm_state (k_state k p) = IPANEMA_READY \<longleftrightarrow> (\<exists>!x. p \<in> set (k_queue k x))"
proof -
  have wf: "kernel_wf k" using assms by (rule shared_inv_wf)
  have "norm_state (k_state k p) = IPANEMA_READY \<longleftrightarrow> k_rq k p \<noteq> None"
    using assms by (auto simp: shared_inv_def placed_ok_def none_lost_def)
  also have "\<dots> \<longleftrightarrow> (\<exists>!x. p \<in> set (k_queue k x))" by (auto simp: kernel_wfD(2) [OF wf])
  finally show ?thesis .
qed

section \<open>What keeps it\<close>

text \<open>Objects are only written in place.\<close>

definition same_objects :: "('p \<Rightarrow> task) \<Rightarrow> (addr \<Rightarrow> 'p option) \<Rightarrow> (addr \<Rightarrow> 'p option) \<Rightarrow> bool" where
  "same_objects ta h h' \<longleftrightarrow> (\<forall>a fp. h a = Some fp \<longrightarrow> (\<exists>fp'. h' a = Some fp' \<and> ta fp' = ta fp))"

lemma same_objects_refl [simp]: "same_objects ta h h"
  by (simp add: same_objects_def)

lemma same_objects_upd: "h a = Some fp \<Longrightarrow> ta fp' = ta fp \<Longrightarrow> same_objects ta h (h(a \<mapsto> fp'))"
  by (simp add: same_objects_def)

lemma shared_heap:
  assumes "shared_inv ta E k h" and "same_objects ta h h'"
  shows "shared_inv ta E k h'"
  using assms by (fastforce simp: shared_inv_def objects_ok_def same_objects_def)

context saakm_framework
begin

text \<open>
  A transition of one thread, which may be missing from the runqueues before it; the threads
  that are missing besides (\<open>F\<close>) stay so.
\<close>

lemma shared_change:
  assumes inv: "shared_inv ta E k h" and E: "E \<subseteq> insert p F" and att: "attached k p"
    and rq: "case r of
        None \<Rightarrow> norm_state st \<noteq> IPANEMA_READY
      | Some GlobalRq \<Rightarrow> norm_state st = IPANEMA_READY
      | Some (LocalRq d) \<Rightarrow> norm_state st = IPANEMA_READY \<and> d = c \<and> c = k_cpu k p"
  shows "shared_inv ta F (change_state api p st c r k) h"
proof -
  let ?k = "change_state api p st c r k"
  have wf: "kernel_wf ?k" using inv by (simp add: cs_wf shared_inv_wf)
  have place: "placed_ok ?k"
    unfolding placed_ok_def
  proof (intro allI impI)
    fix q x assume rqx: "k_rq ?k q = Some x"
    show "k_meta ?k q \<noteq> None \<and> norm_state (k_state ?k q) = IPANEMA_READY \<and>
        (x = GlobalRq \<or> x = LocalRq (k_cpu ?k q))"
    proof (cases "q = p")
      case True
      with rqx have r: "r = Some x" by (simp add: cs_rq)
      with True rq att show ?thesis
        by (cases x) (auto simp: cs_meta cs_state cs_cpu_same attached_def)
    next
      case False
      with rqx inv show ?thesis
        by (auto simp: cs_rq cs_meta cs_state_other cs_cpu_other shared_inv_def placed_ok_def)
    qed
  qed
  have obj: "objects_ok ta ?k h"
    unfolding objects_ok_def
  proof (intro allI impI)
    fix q a assume q: "k_meta ?k q = Some a" "k_state ?k q \<noteq> IPANEMA_TERMINATED"
    show "\<exists>fp. h a = Some fp \<and> ta fp = q"
    proof (cases "q = p")
      case True
      with shared_object [OF inv att] q show ?thesis by (auto simp: cs_meta)
    next
      case False
      with q inv show ?thesis
        by (auto simp: cs_meta cs_state_other shared_inv_def objects_ok_def)
    qed
  qed
  have "none_lost F ?k"
    unfolding none_lost_def
  proof (intro allI impI)
    fix q assume F: "q \<notin> F" and q: "norm_state (k_state ?k q) = IPANEMA_READY"
    show "k_rq ?k q \<noteq> None"
    proof (cases "q = p")
      case True
      with q rq show ?thesis by (cases r) (auto simp: cs_rq cs_state)
    next
      case False
      with q E F inv show ?thesis
        by (auto simp: cs_rq cs_state_other shared_inv_def none_lost_def)
    qed
  qed
  with wf place obj show ?thesis by (simp add: shared_inv_def)
qed

text \<open>A thread terminates, and its object may be freed.\<close>

lemma shared_terminate:
  assumes inv: "shared_inv ta E k h" and att: "attached k p" and meta: "k_meta k p = Some a"
    and h': "\<And>b. b \<noteq> a \<Longrightarrow> h' b = h b"
  shows "shared_inv ta E (change_state api p IPANEMA_TERMINATED c None k) h'"
proof -
  let ?k = "change_state api p IPANEMA_TERMINATED c None k"
  have inv': "shared_inv ta E ?k h" by (rule shared_change [OF inv _ att]) auto
  obtain fp where fp: "h a = Some fp" "ta fp = p" using shared_object [OF inv att] meta by auto
  have "objects_ok ta ?k h'"
    unfolding objects_ok_def
  proof (intro allI impI)
    fix q b assume q: "k_meta ?k q = Some b" "k_state ?k q \<noteq> IPANEMA_TERMINATED"
    with inv' obtain fq where fq: "h b = Some fq" "ta fq = q"
      by (auto simp: shared_inv_def objects_ok_def)
    from q(2) have "q \<noteq> p" by auto
    with fp fq have "b \<noteq> a" by auto
    with fq h' show "\<exists>fp. h' b = Some fp \<and> ta fp = q" by simp
  qed
  with inv' show ?thesis by (simp add: shared_inv_def)
qed

text \<open>A ready thread is unlinked and is now in no runqueue.\<close>

lemma shared_remove:
  assumes inv: "shared_inv ta E k h" and p: "k_rq k p = Some x"
  shows "shared_inv ta (insert p E) (remove_task api x p k) h"
  using assms rt_wf [OF shared_inv_wf [OF inv] p]
  by (auto simp: shared_inv_def placed_ok_def objects_ok_def none_lost_def rt_laws)

lemma running_ok_remove: "running_ok cur k cs \<Longrightarrow> running_ok cur (remove_task api x p k) cs"
  by (simp add: running_ok_def rt_laws)

lemma attached_remove [simp]: "attached (remove_task api x p k) q = attached k q"
  by (simp add: attached_def rt_laws)

lemma attached_change:
  "st \<noteq> IPANEMA_TERMINATED \<Longrightarrow> attached k q \<Longrightarrow> attached (change_state api p st c r k) q"
  by (cases "q = p") (auto simp: attached_def cs_meta cs_state_other)

end

lemma shared_attach:
  assumes inv: "shared_inv ta E k h" and fresh: "h a = None"
    and new: "k_state k p = IPANEMA_NOT_QUEUED" "k_rq k p = None" and obj: "ta fp = p"
  shows "shared_inv ta E (k\<lparr>k_meta := (k_meta k)(p \<mapsto> a)\<rparr>) (h(a \<mapsto> fp))"
  using assms by (fastforce simp: shared_inv_def kernel_wf_def placed_ok_def objects_ok_def none_lost_def)

lemma shared_set_cpu:
  assumes "shared_inv ta E k h" and "k_rq k p = None"
  shows "shared_inv ta E (k\<lparr>k_cpu := (k_cpu k)(p := c)\<rparr>) h"
  using assms by (auto simp: shared_inv_def kernel_wf_def placed_ok_def objects_ok_def none_lost_def)

lemma fresh_shared_inv: "fresh_kernel k \<Longrightarrow> shared_inv ta {} k h"
  by (auto simp: fresh_kernel_def shared_inv_def kernel_wf_def placed_ok_def objects_ok_def
      none_lost_def)

section \<open>The invariant of a policy state\<close>

text \<open>
  The invariant with the record of the running objects, over the whole state of a policy,
  and what the calls a handler is made of do to it.
\<close>

definition shared_ok ::
    "('p \<Rightarrow> task) \<Rightarrow> ('c \<Rightarrow> addr option) \<Rightarrow> task set \<Rightarrow> ('c, 'p, 'z) sys_scheme \<Rightarrow> bool" where
  "shared_ok ta cur E s \<longleftrightarrow> shared_inv ta E (kern s) (heap s) \<and> running_ok cur (kern s) (cores s)"

lemma shared_ok_lock [simp]:
  "shared_ok ta cur E (acquire l s) = shared_ok ta cur E s"
  "shared_ok ta cur E (acquire_both l m s) = shared_ok ta cur E s"
  "shared_ok ta cur E (release l s) = shared_ok ta cur E s"
  by (simp_all add: shared_ok_def sys_defs)

lemma kern_simps [simp]:
  "kern (acquire l s) = kern s" "kern (acquire_both l m s) = kern s" "kern (release l s) = kern s"
  "kern (put_proc a fp s) = kern s" "kern (upd_core c f s) = kern s" "kern (kfree a s) = kern s"
  "kern (call_change_state api p st c r s) = change_state api p st c r (kern s)"
  "kern (call_remove_task api x p s) = remove_task api x p (kern s)"
  by (simp_all add: sys_defs)

lemma heap_simps [simp]:
  "heap (acquire l s) = heap s" "heap (acquire_both l m s) = heap s" "heap (release l s) = heap s"
  "heap (put_proc a fp s) = (heap s)(a \<mapsto> fp)" "heap (upd_core c f s) = heap s"
  "heap (call_change_state api p st c r s) = heap s"
  "heap (call_remove_task api x p s) = heap s"
  by (simp_all add: sys_defs)

lemma cores_simps [simp]:
  "cores (acquire l s) = cores s" "cores (acquire_both l m s) = cores s"
  "cores (release l s) = cores s" "cores (put_proc a fp s) = cores s"
  "cores (upd_core c f s) = (cores s)(c := f (cores s c))" "cores (kfree a s) = cores s"
  "cores (call_change_state api p st c r s) = cores s"
  "cores (call_remove_task api x p s) = cores s"
  by (simp_all add: sys_defs)

lemma shared_ok_metadata:
  assumes "shared_ok ta cur E s" and "attached (kern s) p"
  shows "\<exists>a fp. k_meta (kern s) p = Some a \<and> heap s a = Some fp \<and> ta fp = p \<and>
    policy_metadata p s = Inr (a, fp)"
  using shared_object [of ta E "kern s" "heap s" p] assms
  by (auto simp: shared_ok_def policy_metadata_Inr)

lemma shared_ok_current:
  assumes "shared_ok ta cur E s" and "k_current (kern s) c = Some p"
  shows "attached (kern s) p" and "k_cpu (kern s) p = c" and "k_state (kern s) p = IPANEMA_RUNNING"
  using assms by (auto simp: shared_ok_def dest: running_okD)

lemma shared_ok_put:
  assumes "shared_ok ta cur E s" and "heap s a = Some fp" and "ta fp' = ta fp"
  shows "shared_ok ta cur E (put_proc a fp' s)"
  using assms by (auto simp: shared_ok_def intro: shared_heap same_objects_upd)

lemma shared_ok_core:
  assumes "shared_ok ta cur E s" and "\<And>c. cur (f c) = cur c"
  shows "shared_ok ta cur E (upd_core c f s)"
  using assms by (auto simp: shared_ok_def intro: running_ok_cores)

lemma shared_ok_attach:
  assumes "shared_ok ta cur E s" and "heap s a = None" and "k_state (kern s) p = IPANEMA_NOT_QUEUED"
    and "k_rq (kern s) p = None" and "k_meta (kern s) p = None" and "ta fp = p"
  shows "shared_ok ta cur E (set_metadata p a (put_proc a fp s))"
  using assms shared_attach [of ta E "kern s" "heap s" a p fp] running_ok_meta [of cur "kern s" "cores s" p a]
  by (simp add: shared_ok_def set_metadata_def put_proc_def)

lemma shared_ok_set_cpu:
  assumes "shared_ok ta cur E s" and "k_rq (kern s) p = None"
    and "k_state (kern s) p \<noteq> IPANEMA_RUNNING"
  shows "shared_ok ta cur E (set_task_cpu p c s)"
  using assms by (auto simp: shared_ok_def set_task_cpu_def intro: shared_set_cpu running_ok_set_cpu)

context saakm_framework
begin

lemma shared_ok_change:
  assumes "shared_ok ta cur E s" and "E \<subseteq> insert p F" and "attached (kern s) p"
    and "st \<noteq> IPANEMA_RUNNING"
    and "case r of
        None \<Rightarrow> norm_state st \<noteq> IPANEMA_READY
      | Some GlobalRq \<Rightarrow> norm_state st = IPANEMA_READY
      | Some (LocalRq d) \<Rightarrow> norm_state st = IPANEMA_READY \<and> d = c \<and> c = k_cpu (kern s) p"
  shows "shared_ok ta cur F (call_change_state api p st c r s)"
  using assms
  by (auto simp: shared_ok_def intro: shared_change running_ok_leave simp del: split_paired_All)

text \<open>The core of a thread that leaves it may drop its pointer.\<close>

lemma shared_ok_leave:
  assumes ok: "shared_ok ta cur E s" and att: "attached (kern s) p"
    and st: "st \<noteq> IPANEMA_RUNNING" "norm_state st \<noteq> IPANEMA_READY"
    and f: "\<And>q. k_current (kern s) d = Some q \<Longrightarrow> q \<noteq> p \<Longrightarrow> cur (f (cores s d)) = cur (cores s d)"
  shows "shared_ok ta cur E (call_change_state api p st c None (upd_core d f s))"
proof -
  from ok have inv: "shared_inv ta E (kern s) (heap s)"
    and run: "running_ok cur (kern s) (cores s)" by (simp_all add: shared_ok_def)
  have "running_ok cur (change_state api p st c None (kern s)) ((cores s)(d := f (cores s d)))"
    by (rule running_ok_leave [OF run st(1)]) (use f in auto)
  with shared_change [OF inv _ att, where F = E and r = None and st = st and c = c] st show ?thesis by (auto simp: shared_ok_def)
qed

lemma shared_ok_start:
  assumes ok: "shared_ok ta cur E s" and att: "attached (kern s) p"
    and meta: "k_meta (kern s) p = Some a" and cpu: "k_cpu (kern s) p = c"
    and notrun: "k_state (kern s) p \<noteq> IPANEMA_RUNNING" and f: "cur (f (cores s c)) = Some a"
  shows "shared_ok ta cur E (call_change_state api p IPANEMA_RUNNING c None (upd_core c f s))"
proof -
  from ok have inv: "shared_inv ta E (kern s) (heap s)"
    and run: "running_ok cur (kern s) (cores s)" by (simp_all add: shared_ok_def)
  have "running_ok cur (change_state api p IPANEMA_RUNNING (k_cpu (kern s) p) None (kern s))
      ((cores s)(c := f (cores s c)))"
    by (rule running_ok_start [OF run meta notrun]) (use f cpu in auto)
  with shared_change [OF inv _ att, where F = E and r = None and st = IPANEMA_RUNNING and c = c] cpu show ?thesis
    by (auto simp: shared_ok_def)
qed

lemma shared_ok_remove:
  assumes "shared_ok ta cur E s" and "k_rq (kern s) p = Some x"
  shows "shared_ok ta cur (insert p E) (call_remove_task api x p s)"
  using assms by (simp add: shared_ok_def shared_remove running_ok_remove)

lemma shared_ok_head:
  assumes "shared_ok ta cur E s" and "first_task api (kern s) x = Some p"
  shows "attached (kern s) p" and "x = GlobalRq \<or> x = LocalRq (k_cpu (kern s) p)"
    and "k_state (kern s) p \<noteq> IPANEMA_RUNNING" and "k_rq (kern s) p = Some x"
proof -
  from assms(2) have q: "p \<in> set (k_queue (kern s) x)" by (auto simp: first_task_Some)
  from assms(1) have inv: "shared_inv ta E (kern s) (heap s)" by (simp add: shared_ok_def)
  show "attached (kern s) p" by (rule shared_queued(1) [OF inv q])
  show "x = GlobalRq \<or> x = LocalRq (k_cpu (kern s) p)" by (rule shared_queued(2) [OF inv q])
  show "k_state (kern s) p \<noteq> IPANEMA_RUNNING" by (rule shared_queued(3) [OF inv q])
  show "k_rq (kern s) p = Some x" by (rule shared_queued(4) [OF inv q])
qed

end

section \<open>Policies that do not record the running object\<close>

text \<open>
  A policy whose core structures are not a reliable record of the running thread: only the
  framework's side of the running threads is invariant.
\<close>

definition current_ok :: "kernel \<Rightarrow> bool" where
  "current_ok k \<longleftrightarrow> (\<forall>c p. k_current k c = Some p \<longrightarrow>
     k_state k p = IPANEMA_RUNNING \<and> k_meta k p \<noteq> None \<and> k_cpu k p = c)"

lemma current_okD:
  assumes "current_ok k" and "k_current k c = Some p"
  shows "k_state k p = IPANEMA_RUNNING" "attached k p" "k_cpu k p = c"
  using assms by (auto simp: current_ok_def attached_def)

definition base_ok :: "('p \<Rightarrow> task) \<Rightarrow> ('c, 'p, 'z) sys_scheme \<Rightarrow> bool" where
  "base_ok ta s \<longleftrightarrow> shared_inv ta {} (kern s) (heap s) \<and> current_ok (kern s)"

lemma base_ok_frame [simp]:
  "base_ok ta (acquire l s) = base_ok ta s"
  "base_ok ta (release l s) = base_ok ta s"
  "base_ok ta (upd_core c f s) = base_ok ta s"
  by (simp_all add: base_ok_def sys_defs)

lemma base_ok_metadata:
  assumes "base_ok ta s" and "attached (kern s) p"
  shows "\<exists>a fp. k_meta (kern s) p = Some a \<and> heap s a = Some fp \<and> ta fp = p \<and>
    policy_metadata p s = Inr (a, fp)"
  using shared_object [of ta "{}" "kern s" "heap s" p] assms
  by (auto simp: base_ok_def policy_metadata_Inr)

lemma base_ok_put:
  assumes "base_ok ta s" and "heap s a = Some fp" and "ta fp' = ta fp"
  shows "base_ok ta (put_proc a fp' s)"
  using assms by (auto simp: base_ok_def intro: shared_heap same_objects_upd)

lemma base_ok_attach:
  assumes "base_ok ta s" and "heap s a = None" and "k_state (kern s) p = IPANEMA_NOT_QUEUED"
    and "k_rq (kern s) p = None" and "k_meta (kern s) p = None" and "ta fp = p"
  shows "base_ok ta (set_metadata p a (put_proc a fp s))"
proof -
  have "shared_inv ta {} ((kern s)\<lparr>k_meta := (k_meta (kern s))(p \<mapsto> a)\<rparr>) ((heap s)(a \<mapsto> fp))"
    by (rule shared_attach) (use assms in \<open>simp_all add: base_ok_def\<close>)
  moreover have "current_ok ((kern s)\<lparr>k_meta := (k_meta (kern s))(p \<mapsto> a)\<rparr>)"
    using assms by (auto simp: base_ok_def current_ok_def)
  ultimately show ?thesis by (simp add: base_ok_def set_metadata_def put_proc_def)
qed

lemma base_ok_set_cpu:
  assumes "base_ok ta s" and "k_rq (kern s) p = None" and "k_state (kern s) p \<noteq> IPANEMA_RUNNING"
  shows "base_ok ta (set_task_cpu p c s)"
  using assms by (auto simp: base_ok_def set_task_cpu_def current_ok_def intro: shared_set_cpu)

context saakm_framework
begin

lemma current_ok_leave:
  assumes ok: "current_ok k" and st: "st \<noteq> IPANEMA_RUNNING"
  shows "current_ok (change_state api p st c r k)"
  unfolding current_ok_def
proof (intro allI impI)
  fix d q assume "k_current (change_state api p st c r k) d = Some q"
  with st have cur: "k_current k d = Some q" "q \<noteq> p"
    by (auto simp: cs_current_other split: if_splits)
  with current_okD [OF ok cur(1)]
  show "k_state (change_state api p st c r k) q = IPANEMA_RUNNING \<and>
      k_meta (change_state api p st c r k) q \<noteq> None \<and> k_cpu (change_state api p st c r k) q = d"
    by (auto simp: cs_state_other cs_meta cs_cpu_other attached_def)
qed

lemma current_ok_start:
  assumes ok: "current_ok k" and p: "k_meta k p \<noteq> None" "k_state k p \<noteq> IPANEMA_RUNNING"
    and c: "k_cpu k p = c"
  shows "current_ok (change_state api p IPANEMA_RUNNING c r k)"
  unfolding current_ok_def
proof (intro allI impI)
  fix d q assume q: "k_current (change_state api p IPANEMA_RUNNING c r k) d = Some q"
  show "k_state (change_state api p IPANEMA_RUNNING c r k) q = IPANEMA_RUNNING \<and>
      k_meta (change_state api p IPANEMA_RUNNING c r k) q \<noteq> None \<and>
      k_cpu (change_state api p IPANEMA_RUNNING c r k) q = d"
  proof (cases "d = c")
    case True
    with q p c show ?thesis by (auto simp: cs_current_run cs_meta cs_cpu_same)
  next
    case False
    with q have cur: "k_current k d = Some q" by (simp add: cs_current_run)
    from current_okD [OF ok cur] p(2) have "q \<noteq> p" by auto
    with current_okD [OF ok cur] show ?thesis
      by (auto simp: cs_state_other cs_meta cs_cpu_other attached_def)
  qed
qed

lemma base_ok_change:
  assumes "base_ok ta s" and "attached (kern s) p" and "st \<noteq> IPANEMA_RUNNING"
    and "case r of
        None \<Rightarrow> norm_state st \<noteq> IPANEMA_READY
      | Some GlobalRq \<Rightarrow> norm_state st = IPANEMA_READY
      | Some (LocalRq d) \<Rightarrow> norm_state st = IPANEMA_READY \<and> d = c \<and> c = k_cpu (kern s) p"
  shows "base_ok ta (call_change_state api p st c r s)"
  using assms by (auto simp: base_ok_def intro: shared_change current_ok_leave)

lemma base_ok_start:
  assumes "base_ok ta s" and "attached (kern s) p" and "k_state (kern s) p \<noteq> IPANEMA_RUNNING"
    and "k_cpu (kern s) p = c"
  shows "base_ok ta (call_change_state api p IPANEMA_RUNNING c None s)"
  using assms shared_change [where E = "{}" and F = "{}" and k = "kern s" and h = "heap s" and p = p
      and st = IPANEMA_RUNNING and r = None and c = c]
  by (auto simp: base_ok_def attached_def intro: current_ok_start)

lemma base_ok_head:
  assumes "base_ok ta s" and "first_task api (kern s) x = Some p"
  shows "attached (kern s) p" and "x = GlobalRq \<or> x = LocalRq (k_cpu (kern s) p)"
    and "k_state (kern s) p \<noteq> IPANEMA_RUNNING" and "k_rq (kern s) p = Some x"
proof -
  from assms(2) have q: "p \<in> set (k_queue (kern s) x)" by (auto simp: first_task_Some)
  from assms(1) have inv: "shared_inv ta {} (kern s) (heap s)" by (simp add: base_ok_def)
  show "attached (kern s) p" by (rule shared_queued(1) [OF inv q])
  show "x = GlobalRq \<or> x = LocalRq (k_cpu (kern s) p)" by (rule shared_queued(2) [OF inv q])
  show "k_state (kern s) p \<noteq> IPANEMA_RUNNING" by (rule shared_queued(3) [OF inv q])
  show "k_rq (kern s) p = Some x" by (rule shared_queued(4) [OF inv q])
qed

end

section \<open>Lock discipline and loading\<close>

text \<open>The events whose handlers touch the shared runqueue only under its lock.\<close>

fun not_terminate :: "kevent \<Rightarrow> bool" where
  "not_terminate (Terminate p) = False"
| "not_terminate e = True"

lemma trace_simps [simp]:
  "trace (acquire l s) = trace s @ [Acquire l]"
  "trace (acquire_both l m s) = trace s @ [AcquireBoth l m]"
  "trace (release l s) = trace s @ [Release l]"
  "trace (put_proc a fp s) = trace s" "trace (upd_core c f s) = trace s"
  "trace (call_change_state api p st c r s) =
     trace s @ [ChangeState p st c (k_rq (kern s) p) r]"
  "trace (call_remove_task api x p s) = trace s @ [RemoveTask x p]"
  "trace (set_metadata p a s) = trace s" "trace (set_task_cpu p c s) = trace s"
  by (simp_all add: sys_defs)

context saakm_framework
begin

lemma init_rq_fresh: "fresh_kernel k \<Longrightarrow> fresh_kernel (init_rq api x k)"
  by (auto simp: fresh_kernel_def init_rq)

lemma fresh_shared_ok: "fresh_kernel (kern s) \<Longrightarrow> shared_ok ta cur {} s"
  by (auto simp: shared_ok_def fresh_shared_inv running_ok_def) (simp_all add: fresh_kernel_def)

lemma fresh_base_ok: "fresh_kernel (kern s) \<Longrightarrow> base_ok ta s"
  by (auto simp: base_ok_def fresh_shared_inv current_ok_def) (simp_all add: fresh_kernel_def)

end

end
