(* ===== verification/GlobalFifo_Correct.thy ===== *)
theory GlobalFifo_Correct
  imports GlobalFifo Shared_Inv
begin

text \<open>
  modules/global_fifo/global_fifo.c: every handler keeps the invariant of the policies with
  a shared runqueue and returns, every lock a handler takes it gives back, and the shared
  runqueue is only touched under its lock except by \<open>fifo_terminate\<close>.
\<close>

section \<open>The invariant\<close>

text \<open>No object is ever marked \<open>IPANEMA_RUNNING\<close>: the scheduler writes \<open>TASK_RUNNING\<close>.\<close>

definition gfifo_unmarked :: "(addr \<Rightarrow> gfifo_process option) \<Rightarrow> bool" where
  "gfifo_unmarked h \<longleftrightarrow> (\<forall>a fp. h a = Some fp \<longrightarrow> gp_state fp \<noteq> state_code IPANEMA_RUNNING)"

lemma gfifo_unmarked_upd:
  "gfifo_unmarked h \<Longrightarrow> gp_state fp \<noteq> state_code IPANEMA_RUNNING \<Longrightarrow> gfifo_unmarked (h(a \<mapsto> fp))"
  by (simp add: gfifo_unmarked_def)

definition gfifo_inv :: "gfifo_sys \<Rightarrow> bool" where
  "gfifo_inv s \<longleftrightarrow> shared_ok gp_task gc_current {} s \<and> g_idle_cores s \<noteq> None \<and>
     gfifo_unmarked (heap s)"

text \<open>The same with some ready threads, \<open>E\<close>, in no runqueue.\<close>

definition gfifo_ok :: "task set \<Rightarrow> gfifo_sys \<Rightarrow> bool" where
  "gfifo_ok E s \<longleftrightarrow> shared_ok gp_task gc_current E s \<and> g_idle_cores s \<noteq> None \<and>
     gfifo_unmarked (heap s)"

lemma gfifo_ok_empty: "gfifo_ok {} = gfifo_inv"
  by (simp add: fun_eq_iff gfifo_ok_def gfifo_inv_def)

lemma g_idle_simps [simp]:
  "g_idle_cores (acquire l s) = g_idle_cores s" "g_idle_cores (release l s) = g_idle_cores s"
  "g_idle_cores (acquire_both l m s) = g_idle_cores s"
  "g_idle_cores (put_proc a fp s) = g_idle_cores s" "g_idle_cores (upd_core c f s) = g_idle_cores s"
  "g_idle_cores (call_change_state api p st c r s) = g_idle_cores s"
  "g_idle_cores (call_remove_task api x p s) = g_idle_cores s"
  "g_idle_cores (set_metadata p a s) = g_idle_cores s"
  "g_idle_cores (set_task_cpu p c s) = g_idle_cores s"
  by (simp_all add: sys_defs)

lemma shared_ok_masks [simp]:
  "shared_ok ta cur E (s\<lparr>g_online_cores := m\<rparr>) = shared_ok ta cur E s"
  "shared_ok ta cur E (s\<lparr>g_idle_cores := i\<rparr>) = shared_ok ta cur E s"
  by (simp_all add: shared_ok_def)

text \<open>The object of a live thread.\<close>

lemma gfifo_ok_object:
  assumes "gfifo_ok E s" and "attached (kern s) p"
  shows "\<exists>a fp. k_meta (kern s) p = Some a \<and> heap s a = Some fp \<and> gp_task fp = p \<and>
    policy_metadata p s = Inr (a, fp) \<and> gp_state fp \<noteq> state_code IPANEMA_RUNNING"
  using assms shared_ok_metadata [of gp_task gc_current E s p]
  by (fastforce simp: gfifo_ok_def gfifo_unmarked_def)

lemmas gfifo_object = gfifo_ok_object [of "{}", unfolded gfifo_ok_empty]

lemma gfifo_ok_put:
  assumes "gfifo_ok E s" and "heap s a = Some fp" and "gp_task fp' = gp_task fp"
    and "gp_state fp' \<noteq> state_code IPANEMA_RUNNING"
  shows "gfifo_ok E (put_proc a fp' s)"
  using assms shared_ok_put [of gp_task gc_current E s a fp fp'] gfifo_unmarked_upd
  by (simp add: gfifo_ok_def)

lemma gfifo_ok_masks [simp]:
  "gfifo_ok E (s\<lparr>g_online_cores := m\<rparr>) = gfifo_ok E s"
  "gfifo_ok E (acquire l s) = gfifo_ok E s"
  "gfifo_ok E (release l s) = gfifo_ok E s"
  "gfifo_ok E (acquire_both l m' s) = gfifo_ok E s"
  by (simp_all add: gfifo_ok_def)

lemma gfifo_upd_idle_ok:
  assumes "gfifo_ok E s"
  shows "\<exists>t. gfifo_upd_idle f s = Inr t \<and> gfifo_ok E t"
  using assms by (cases "g_idle_cores s") (simp_all add: gfifo_upd_idle_def gfifo_ok_def)

lemma gfifo_ok_core:
  assumes "gfifo_ok E s" and "\<And>c. gc_current (f c) = gc_current c"
  shows "gfifo_ok E (upd_core c f s)"
  using assms by (simp add: gfifo_ok_def shared_ok_core)

context saakm_framework
begin

section \<open>Every handler keeps it\<close>

text \<open>A thread is enqueued, blocks or terminates.\<close>

lemma gfifo_change_ok:
  assumes "gfifo_ok E s" and "E \<subseteq> insert p F" and "attached (kern s) p" and "st \<noteq> IPANEMA_RUNNING"
    and "case r of
        None \<Rightarrow> norm_state st \<noteq> IPANEMA_READY
      | Some GlobalRq \<Rightarrow> norm_state st = IPANEMA_READY
      | Some (LocalRq d) \<Rightarrow> norm_state st = IPANEMA_READY \<and> d = c \<and> c = k_cpu (kern s) p"
  shows "gfifo_ok F (call_change_state api p st c r s)"
  using assms unfolding gfifo_ok_def by (auto intro: shared_ok_change)

lemmas gfifo_change_same_ok = gfifo_change_ok [OF _ subset_insertI]

lemma gfifo_place_ok:
  assumes inv: "gfifo_ok E s" and att: "attached (kern s) p"
  shows "gfifo_ok E (gfifo_new_place api p s)" and "gfifo_ok E (gfifo_unblock_place api p s)"
    and "gfifo_ok E (gfifo_yield api p s)" and "gfifo_ok E (gfifo_block api p s)"
  using assms by (simp_all add: gfifo_new_place_def gfifo_unblock_place_def gfifo_yield_def
      gfifo_block_def Let_def gfifo_change_same_ok)

lemma gfifo_tick_ok:
  assumes inv: "gfifo_ok E s" and cur: "k_current (kern s) c = Some p"
  shows "\<exists>t. gfifo_tick api p c now s = Inr t \<and> gfifo_ok E t"
proof -
  from inv have ok: "shared_ok gp_task gc_current E s" by (simp add: gfifo_ok_def)
  have att: "attached (kern s) p" and c: "k_cpu (kern s) p = c"
    by (rule shared_ok_current [OF ok cur])+
  obtain a fp where a: "heap s a = Some fp" "policy_metadata p s = Inr (a, fp)"
    "gp_state fp \<noteq> state_code IPANEMA_RUNNING"
    using gfifo_ok_object [OF inv att] by blast
  define fp2 where "fp2 = fp\<lparr>gp_current_quantum_ns :=
      gp_current_quantum_ns fp + (gp_last_sched_ns fp - now), gp_last_sched_ns := now\<rparr>"
  define s1 where "s1 = put_proc a fp2 s"
  define s2 where "s2 = put_proc a (fp2\<lparr>gp_current_quantum_ns := 0\<rparr>) s1"
  have inv1: "gfifo_ok E s1" unfolding s1_def
    by (rule gfifo_ok_put [OF inv a(1)]) (use a in \<open>simp_all add: fp2_def\<close>)
  have inv2: "gfifo_ok E s2" unfolding s2_def
    by (rule gfifo_ok_put [OF inv1, where fp = fp2]) (use a in \<open>simp_all add: fp2_def s1_def\<close>)
  have k2: "kern s1 = kern s" "kern s2 = kern s" by (simp_all add: s1_def s2_def)
  have tick: "gfifo_tick api p c now s =
      (if gp_current_quantum_ns fp2 \<ge> GQUANTUM_NS then
         if k_queue (kern s2) (LocalRq c) = [] then
           Inr (call_change_state api p IPANEMA_READY_TICK (k_cpu (kern s2) p) (Some (LocalRq c)) s2)
         else Inr (release ModuleLock (call_change_state api p IPANEMA_READY_TICK
                (k_cpu (kern s2) p) (Some GlobalRq) (acquire ModuleLock s2)))
       else Inr s1)"
    using a by (simp add: gfifo_tick_def s2_def s1_def fp2_def Let_def)
  show ?thesis
    unfolding tick using inv1 inv2 att c by (simp add: k2 gfifo_change_same_ok)
qed

lemma gfifo_terminate_ok:
  assumes inv: "gfifo_ok E s" and att: "attached (kern s) p"
  shows "\<exists>t. gfifo_terminate api p s = Inr t \<and> gfifo_ok E t"
proof -
  obtain a fp where a: "heap s a = Some fp" "policy_metadata p s = Inr (a, fp)"
    "gp_state fp \<noteq> state_code IPANEMA_RUNNING"
    using gfifo_ok_object [OF inv att] by blast
  have "gfifo_ok E (put_proc a (fp\<lparr>gp_state := state_code IPANEMA_TERMINATED, gp_rq := None\<rparr>) s)"
    by (rule gfifo_ok_put [OF inv a(1)]) simp_all
  with a att show ?thesis
    by (simp add: gfifo_terminate_def Let_def gfifo_change_same_ok)
qed

lemma gfifo_run_next_ok:
  assumes inv: "gfifo_ok E s" and head: "first_task api (kern s) x = Some p"
    and c: "k_cpu (kern s) p = c"
  shows "\<exists>t. gfifo_run_next api p c now s = Inr t \<and> gfifo_ok E t \<and>
    kern t = change_state api p IPANEMA_RUNNING c None (kern s)"
proof -
  from inv have ok: "shared_ok gp_task gc_current E s" by (simp add: gfifo_ok_def)
  have att: "attached (kern s) p" and notrun: "k_state (kern s) p \<noteq> IPANEMA_RUNNING"
    by (rule shared_ok_head [OF ok head])+
  obtain a fp where a: "k_meta (kern s) p = Some a" "heap s a = Some fp"
    "policy_metadata p s = Inr (a, fp)"
    using gfifo_ok_object [OF inv att] by blast
  let ?s = "put_proc a (fp\<lparr>gp_state := TASK_RUNNING api, gp_rq := None,
      gp_last_sched_ns := now, gp_current_quantum_ns := 0\<rparr>) s"
  have inv1: "gfifo_ok E ?s"
    by (rule gfifo_ok_put [OF inv a(2)]) (simp_all add: task_running)
  then have "shared_ok gp_task gc_current E ?s" by (simp add: gfifo_ok_def)
  then have "shared_ok gp_task gc_current E (call_change_state api p IPANEMA_RUNNING c None
      (upd_core c (\<lambda>fc. fc\<lparr>gc_current := Some a\<rparr>) ?s))"
    by (rule shared_ok_start) (use att a c notrun in simp_all)
  with inv1 a show ?thesis
    by (simp add: gfifo_run_next_def Let_def gfifo_ok_def)
qed

lemma gfifo_schedule_ok:
  assumes inv: "gfifo_ok E s"
  shows "\<exists>t. gfifo_schedule api c now s = Inr t \<and> gfifo_ok E t"
proof (cases "first_task api (kern s) (LocalRq c)")
  case (Some p)
  from inv have ok: "shared_ok gp_task gc_current E s" by (simp add: gfifo_ok_def)
  from shared_ok_head(2) [OF ok Some] have "k_cpu (kern s) p = c" by simp
  with gfifo_run_next_ok [OF inv Some] Some show ?thesis by (auto simp: gfifo_schedule_def)
next
  case None
  have inv1: "gfifo_ok E (acquire ModuleLock s)" using inv by simp
  show ?thesis
  proof (cases "first_task api (kern s) GlobalRq")
    case (Some p)
    with None gfifo_run_next_ok [OF inv1, of GlobalRq p c now] inv show ?thesis
      by (auto simp: gfifo_schedule_def Let_def)
  qed (use None inv in \<open>simp add: gfifo_schedule_def\<close>)
qed

text \<open>The sections of \<open>fifo_newly_idle\<close>: the thread in hand is missing until it is queued.\<close>

lemma gfifo_pull_ok:
  assumes inv: "gfifo_ok E s" and pull: "gfifo_pull api s = (n, t)"
  shows "case n of
      None \<Rightarrow> gfifo_ok E t \<and> kern t = kern s
    | Some p \<Rightarrow> gfifo_ok (insert p E) t \<and> attached (kern t) p \<and> k_rq (kern s) p = Some GlobalRq \<and>
        kern t = remove_task api GlobalRq p (kern s)"
proof (cases "first_task api (kern s) GlobalRq")
  case None
  then show ?thesis using inv pull by (auto simp: gfifo_pull_def)
next
  case (Some p)
  let ?s = "acquire ModuleLock s"
  from inv have ok: "shared_ok gp_task gc_current E ?s" by (simp add: gfifo_ok_def)
  have head: "first_task api (kern ?s) GlobalRq = Some p" using Some by simp
  from Some pull have n: "n = Some p" "t = release ModuleLock (call_remove_task api GlobalRq p ?s)"
    by (simp_all add: gfifo_pull_def)
  from shared_ok_remove [OF ok shared_ok_head(4) [OF ok head]] inv
  have "gfifo_ok (insert p E) t" by (simp add: n gfifo_ok_def)
  with shared_ok_head [OF ok head] show ?thesis by (simp add: n)
qed

lemma gfifo_queue_local_ok:
  assumes "gfifo_ok (insert p E) s" and "attached (kern s) p" and "k_cpu (kern s) p = c"
  shows "gfifo_ok E (gfifo_queue_local api c p s)"
  unfolding gfifo_queue_local_def by (rule gfifo_change_ok [OF assms(1)]) (use assms in simp_all)

lemma gfifo_migrate_ok:
  assumes "gfifo_ok E s" and "attached (kern s) p"
  shows "gfifo_ok E (gfifo_migrate api c p d s)"
    and "attached (kern (gfifo_migrate api c p d s)) p"
    and "k_cpu (kern (gfifo_migrate api c p d s)) p = c"
  using assms
  by (simp_all add: gfifo_migrate_def gfifo_change_same_ok attached_change cs_cpu_migrate)

lemma gfifo_queue_moved_ok:
  assumes "gfifo_ok (insert p E) s" and "attached (kern s) p" and "k_cpu (kern s) p = c"
  shows "gfifo_ok E (gfifo_queue_moved api c p d s)"
proof -
  have "gfifo_ok E (call_change_state api p IPANEMA_READY c (Some (LocalRq c)) s)"
    by (rule gfifo_change_ok [OF assms(1)]) (use assms in simp_all)
  then show ?thesis by (simp add: gfifo_queue_moved_def)
qed

lemma gfifo_newly_idle_ok:
  assumes inv: "gfifo_ok E s"
  shows "gfifo_ok E (gfifo_newly_idle api c s)"
proof -
  obtain n t where pull: "gfifo_pull api s = (n, t)" by fastforce
  show ?thesis
  proof (cases n)
    case None
    with gfifo_pull_ok [OF inv pull] pull show ?thesis by (simp add: gfifo_newly_idle_sections)
  next
    case (Some p)
    with gfifo_pull_ok [OF inv pull] have t: "gfifo_ok (insert p E) t" "attached (kern t) p"
      by auto
    with Some pull gfifo_queue_local_ok [OF t]
      gfifo_queue_moved_ok [OF gfifo_migrate_ok(1) [OF t] gfifo_migrate_ok(2,3) [OF t]]
    show ?thesis by (simp add: gfifo_newly_idle_sections Let_def)
  qed
qed

lemma gfifo_prepare_ok:
  assumes inv: "gfifo_ok E s" and pr: "protocol (NewPrepare p flags al n) s"
  shows "\<exists>t. res_map snd (gfifo_new_prepare p al n s) = Inr t \<and> gfifo_ok E t"
proof (cases al)
  case None
  then show ?thesis using inv by (simp add: gfifo_new_prepare_def)
next
  case (Some a)
  let ?fp = "\<lparr>gp_state = 0, gp_task = p, gp_rq = None, gp_current_quantum_ns = 0, gp_last_sched_ns = 0\<rparr>"
  have "shared_ok gp_task gc_current E (set_metadata p a (put_proc a ?fp s))"
    by (rule shared_ok_attach) (use inv pr Some in \<open>simp_all add: gfifo_ok_def\<close>)
  moreover have "gfifo_unmarked ((heap s)(a \<mapsto> ?fp))"
    using inv by (simp add: gfifo_ok_def gfifo_unmarked_upd)
  ultimately show ?thesis
    using inv pr Some
    by (simp add: gfifo_new_prepare_def gfifo_select_cpu_def gfifo_ok_def Let_def)
       (simp add: sys_defs)
qed

lemma gfifo_core_event_ok:
  assumes "gfifo_ok E s"
  shows "\<exists>t. gfifo_core_entry c s = Inr t \<and> gfifo_ok E t"
    "\<exists>t. gfifo_core_exit c s = Inr t \<and> gfifo_ok E t"
    "\<exists>t. gfifo_enter_idle c s = Inr t \<and> gfifo_ok E t"
    "\<exists>t. gfifo_exit_idle c s = Inr t \<and> gfifo_ok E t"
  using assms
  by (simp_all add: gfifo_core_entry_def gfifo_core_exit_def gfifo_enter_idle_def
      gfifo_exit_idle_def Let_def gfifo_upd_idle_ok gfifo_ok_core)

lemma gfifo_ok_progress:
  assumes inv: "gfifo_ok E s" and pr: "protocol e s"
  shows "\<exists>t. gfifo_routines api e s = Inr t \<and> gfifo_ok E t"
proof -
  have ok: "shared_ok gp_task gc_current E s" using inv by (simp add: gfifo_ok_def)
  have att: "attached (kern s) p" if "k_current (kern s) c = Some p" for c p
    by (rule shared_ok_current(1) [OF ok that])
  show ?thesis
  proof (cases e)
    case (NewPrepare p flags al n)
    then show ?thesis using gfifo_prepare_ok [OF inv] pr by simp
  next
    case (Tick p c now)
    then show ?thesis using gfifo_tick_ok [OF inv] pr by auto
  next
    case (Terminate p)
    then show ?thesis using gfifo_terminate_ok [OF inv] pr by simp
  next
    case (Schedule c now)
    then show ?thesis using gfifo_schedule_ok [OF inv] by simp
  next
    case (SetTaskCpu p c)
    with pr shared_ok_set_cpu [OF ok, of p c] inv show ?thesis
      by (simp add: gfifo_ok_def) (simp add: sys_defs)
  qed (use inv pr att in \<open>simp_all add: gfifo_place_ok gfifo_core_event_ok gfifo_newly_idle_ok
      gfifo_load_balance_def gfifo_new_end_def gfifo_unblock_end_def\<close>)
qed

text \<open>No thread is missing between the handlers.\<close>

lemmas gfifo_progress = gfifo_ok_progress [of "{}", unfolded gfifo_ok_empty]
lemmas gfifo_run_next_inv = gfifo_run_next_ok [of "{}", unfolded gfifo_ok_empty]

end

sublocale saakm_framework \<subseteq> gfifo: saakm_policy "gfifo_routines api" protocol gfifo_inv
  by unfold_locales (rule gfifo_progress)

section \<open>Lock discipline\<close>

context saakm_framework
begin

lemma gfifo_guarded:
  assumes inv: "gfifo_inv s" and pr: "protocol e s" and ok: "not_terminate e"
    and t: "gfifo_routines api e s = Inr t"
  shows "\<exists>seg. trace t = trace s @ seg \<and> lock_run [] seg = Some [] \<and>
    touches_guarded GlobalRq ModuleLock [] seg"
proof -
  have sok: "shared_ok gp_task gc_current {} s" using inv by (simp add: gfifo_inv_def)
  have rq: "k_rq (kern s) p = None" if "k_current (kern s) c = Some p" for c p
  proof -
    from shared_ok_current(3) [OF sok that] show ?thesis
      using sok by (intro shared_not_queued [of gp_task "{}" "kern s" "heap s"]) (simp_all add: shared_ok_def)
  qed
  have head: "k_rq (kern s) p = Some x" if "first_task api (kern s) x = Some p" for x p
    by (rule shared_ok_head(4) [OF sok that])
  show ?thesis
  proof (cases e)
    case (Tick p c now)
    with t pr rq [of c p] show ?thesis
      by (auto simp: gfifo_tick_def res_bind_eq_Inr Let_def split: if_splits)
  next
    case (NewlyIdle c)
    with t show ?thesis
      by (auto simp: gfifo_newly_idle_def Let_def cs_rq rt_rq split: option.splits)
  next
    case (BalancingSelect c)
    with t show ?thesis
      by (auto simp: gfifo_load_balance_def gfifo_newly_idle_def Let_def cs_rq rt_rq
          split: option.splits)
  next
    case (Schedule c now)
    with t head show ?thesis
      by (auto simp: gfifo_schedule_def gfifo_run_next_def res_bind_eq_Inr res_map_eq_Inr Let_def
          split: option.splits if_splits)
  next
    case (Terminate p)
    with ok show ?thesis by simp
  qed (use t in \<open>auto simp: gfifo_new_prepare_def gfifo_new_place_def gfifo_yield_def gfifo_block_def
      gfifo_unblock_place_def gfifo_new_end_def gfifo_unblock_end_def gfifo_core_entry_def
      gfifo_core_exit_def gfifo_enter_idle_def gfifo_exit_idle_def gfifo_upd_idle_def Let_def
      res_map_eq_Inr split: option.splits\<close>)
qed

end

sublocale saakm_framework \<subseteq> gfifo_lock: guarded_policy "gfifo_routines api" protocol gfifo_inv
    trace not_terminate GlobalRq ModuleLock
  by unfold_locales (rule gfifo_guarded)

interpretation ref_gfifo: guarded_policy "gfifo_routines ref_api" protocol gfifo_inv
    trace not_terminate GlobalRq ModuleLock
  by (rule ref.gfifo_lock.guarded_policy_axioms)

context saakm_framework
begin

lemma gfifo_run_total:
  "gfifo_inv s \<Longrightarrow> admissible (gfifo_routines api) protocol es s \<Longrightarrow>
    \<exists>t. run (gfifo_routines api) es s = Inr t \<and> gfifo_inv t"
  by (rule gfifo.run_total)

lemma gfifo_reachable_inv:
  "reachable (gfifo_routines api) protocol s t \<Longrightarrow> gfifo_inv s \<Longrightarrow> gfifo_inv t"
  by (rule gfifo.reachable_inv)

lemma gfifo_reachable_no_fault:
  "reachable (gfifo_routines api) protocol s t \<Longrightarrow> gfifo_inv s \<Longrightarrow> protocol e t \<Longrightarrow>
    \<exists>u. gfifo_routines api e t = Inr u"
  by (rule gfifo.reachable_no_fault)

lemma gfifo_run_guarded:
  "gfifo_inv s \<Longrightarrow> admissible (gfifo_routines api) protocol es s \<Longrightarrow> list_all not_terminate es \<Longrightarrow>
    run (gfifo_routines api) es s = Inr t \<Longrightarrow>
    \<exists>seg. trace t = trace s @ seg \<and> lock_run [] seg = Some [] \<and>
      touches_guarded GlobalRq ModuleLock [] seg"
  by (rule gfifo_lock.run_guarded)

end

end
