(* ===== verification/Shared_Spec.thy ===== *)
theory Shared_Spec
  imports Saakm
begin

text \<open>
  The abstract contract of a scheduler with one FIFO queue shared by all cores and a short
  queue per core for the threads a core has pulled: where threads enter and leave, and in
  which order. The policies with a shared runqueue are shown to refine it.
\<close>

section \<open>A shared queue and per-core queues\<close>

record ashared =
  shared :: "task list"
  pulled :: "cpu \<Rightarrow> task list"
  on_core :: "cpu \<Rightarrow> task option"

datatype sop =
    Enter task       \<comment> \<open>to the tail of the shared queue, off its core\<close>
  | Keep task cpu    \<comment> \<open>to the tail of a core's own queue, off the core\<close>
  | Take             \<comment> \<open>the head of the shared queue leaves it, in the hands of a core\<close>
  | Pull cpu         \<comment> \<open>the head of the shared queue moves to a core's queue\<close>
  | ElectOwn cpu     \<comment> \<open>a core takes the head of its own queue\<close>
  | ElectShared cpu  \<comment> \<open>a core takes the head of the shared queue\<close>
  | Stop task        \<comment> \<open>a running thread leaves its core\<close>
  | Drop task        \<comment> \<open>a thread disappears\<close>
  | Idle

definition off_core :: "task \<Rightarrow> (cpu \<Rightarrow> task option) \<Rightarrow> cpu \<Rightarrow> task option" where
  "off_core p cur = (\<lambda>c. if cur c = Some p then None else cur c)"

fun s_step :: "sop \<Rightarrow> ashared \<Rightarrow> ashared" where
  "s_step (Enter p) a = a\<lparr>shared := shared a @ [p], on_core := off_core p (on_core a)\<rparr>"
| "s_step (Keep p c) a =
     a\<lparr>pulled := (pulled a)(c := pulled a c @ [p]), on_core := off_core p (on_core a)\<rparr>"
| "s_step Take a = (case shared a of [] \<Rightarrow> a | p # ps \<Rightarrow> a\<lparr>shared := ps\<rparr>)"
| "s_step (Pull c) a =
     (case shared a of
        [] \<Rightarrow> a
      | p # ps \<Rightarrow> a\<lparr>shared := ps, pulled := (pulled a)(c := pulled a c @ [p])\<rparr>)"
| "s_step (ElectOwn c) a =
     (case pulled a c of
        [] \<Rightarrow> a
      | p # ps \<Rightarrow> a\<lparr>pulled := (pulled a)(c := ps), on_core := (on_core a)(c := Some p)\<rparr>)"
| "s_step (ElectShared c) a =
     (case shared a of
        [] \<Rightarrow> a
      | p # ps \<Rightarrow> a\<lparr>shared := ps, on_core := (on_core a)(c := Some p)\<rparr>)"
| "s_step (Stop p) a = a\<lparr>on_core := off_core p (on_core a)\<rparr>"
| "s_step (Drop p) a =
     a\<lparr>shared := without p (shared a), pulled := (\<lambda>c. without p (pulled a c)),
       on_core := off_core p (on_core a)\<rparr>"
| "s_step Idle a = a"

definition abs_shared :: "kernel \<Rightarrow> ashared" where
  "abs_shared k = \<lparr>shared = k_queue k GlobalRq, pulled = (\<lambda>c. k_queue k (LocalRq c)),
     on_core = k_current k\<rparr>"

lemma abs_shared_eq_iff:
  "abs_shared k = a \<longleftrightarrow> k_queue k GlobalRq = shared a \<and>
     (\<forall>c. k_queue k (LocalRq c) = pulled a c) \<and> k_current k = on_core a"
  by (cases a) (auto simp: abs_shared_def fun_eq_iff)

section \<open>First in, first out\<close>

text \<open>The threads that entered the shared queue, in order.\<close>

fun entered :: "sop list \<Rightarrow> task list" where
  "entered [] = []"
| "entered (Enter p # ops) = p # entered ops"
| "entered (_ # ops) = entered ops"

fun is_drop :: "sop \<Rightarrow> bool" where
  "is_drop (Drop p) = True"
| "is_drop _ = False"

text \<open>
  Without a \<open>Drop\<close>, what is left of the shared queue is what it held, followed by what
  entered, less a number of threads at the front.
\<close>

lemma s_step_fifo:
  "\<not> is_drop op \<Longrightarrow> \<exists>n. shared (s_step op a) = drop n (shared a @ entered [op]) \<and> n \<le> length (shared a)"
  by (cases op) (auto split: list.splits intro: exI [of _ 0] exI [of _ 1])

lemma entered_append: "entered (ops @ ops') = entered ops @ entered ops'"
  by (induction ops rule: entered.induct) auto

lemma shared_fifo:
  "list_all (\<lambda>op. \<not> is_drop op) ops \<Longrightarrow>
    \<exists>n. shared (fold s_step ops a) = drop n (shared a @ entered ops)"
proof (induction ops arbitrary: a)
  case Nil
  then show ?case by (auto intro: exI [of _ 0])
next
  case (Cons op ops)
  from Cons.prems s_step_fifo [of op a] obtain m where
    m: "shared (s_step op a) = drop m (shared a @ entered [op])" "m \<le> length (shared a)" by auto
  from Cons obtain n where "shared (fold s_step ops (s_step op a)) =
      drop n (shared (s_step op a) @ entered ops)" by fastforce
  then have "shared (fold s_step ops (s_step op a)) =
      drop n (drop m (shared a @ entered [op]) @ entered ops)" using m(1) by simp
  also have "drop m (shared a @ entered [op]) @ entered ops =
      drop m (shared a @ entered (op # ops))"
    using m(2) entered_append [of "[op]" ops] by simp
  finally have "shared (fold s_step ops (s_step op a)) = drop (n + m) (shared a @ entered (op # ops))"
    by (simp only: drop_drop)
  then show ?case by (intro exI [of _ "n + m"]) (simp del: drop_append)
qed

text \<open>
  The threads that cores took from the shared queue, in order: to run them, to put them into a queue of
  their own, or in their hands.
\<close>

fun taken :: "sop list \<Rightarrow> ashared \<Rightarrow> task list" where
  "taken [] a = []"
| "taken (op # ops) a =
     (case op of
        Take \<Rightarrow> take 1 (shared a)
      | Pull c \<Rightarrow> take 1 (shared a)
      | ElectShared c \<Rightarrow> take 1 (shared a)
      | _ \<Rightarrow> []) @ taken ops (s_step op a)"

text \<open>What was in the queue and what entered it is what was taken, in this order, and what is left.\<close>

lemma shared_taken:
  "list_all (\<lambda>op. \<not> is_drop op) ops \<Longrightarrow>
    shared a @ entered ops = taken ops a @ shared (fold s_step ops a)"
proof (induction ops arbitrary: a)
  case Nil
  then show ?case by simp
next
  case (Cons op ops)
  then have IH: "shared (s_step op a) @ entered ops =
      taken ops (s_step op a) @ shared (fold s_step ops (s_step op a))" by simp
  from Cons.prems IH show ?case
    by (cases op; cases "shared a") (auto split: list.splits)
qed

lemma abs_shared_sel [simp]:
  "shared (abs_shared k) = k_queue k GlobalRq" "pulled (abs_shared k) c = k_queue k (LocalRq c)"
  "on_core (abs_shared k) = k_current k"
  by (simp_all add: abs_shared_def)

lemma shared_fifo_kernel:
  assumes "abs_shared k' = fold s_step ops (abs_shared k)" and "list_all (\<lambda>op. \<not> is_drop op) ops"
  shows "\<exists>n. k_queue k' GlobalRq = drop n (k_queue k GlobalRq @ entered ops)"
  using shared_fifo [OF assms(2), of "abs_shared k"] assms(1) [symmetric]
  by (simp del: drop_append)

lemma shared_taken_kernel:
  assumes "abs_shared k' = fold s_step ops (abs_shared k)" and "list_all (\<lambda>op. \<not> is_drop op) ops"
  shows "k_queue k GlobalRq @ entered ops = taken ops (abs_shared k) @ k_queue k' GlobalRq"
  using shared_taken [OF assms(2), of "abs_shared k"] assms(1) [symmetric] by simp

section \<open>The framework's transitions as abstract steps\<close>

context saakm_framework
begin

lemma abs_enter:
  assumes "kernel_wf k" and "k_rq k p = None" and "st \<noteq> IPANEMA_RUNNING"
  shows "abs_shared (change_state api p st c (Some GlobalRq) k) = s_step (Enter p) (abs_shared k)"
  using assms
  by (simp add: abs_shared_def cs_queue cs_current_other kernel_wfD(2) off_core_def)

lemma abs_keep:
  assumes "kernel_wf k" and "k_rq k p = None" and "st \<noteq> IPANEMA_RUNNING"
  shows "abs_shared (change_state api p st c (Some (LocalRq d)) k) = s_step (Keep p d) (abs_shared k)"
  using assms
  by (auto simp: abs_shared_def cs_queue cs_current_other kernel_wfD(2) off_core_def)

lemma abs_stop:
  assumes "kernel_wf k" and "k_rq k p = None" and "st \<noteq> IPANEMA_RUNNING"
  shows "abs_shared (change_state api p st c None k) = s_step (Stop p) (abs_shared k)"
  using assms
  by (simp add: abs_shared_def cs_queue cs_current_other kernel_wfD(2) off_core_def)

lemma abs_drop:
  assumes "kernel_wf k" and "st \<noteq> IPANEMA_RUNNING"
  shows "abs_shared (change_state api p st c None k) = s_step (Drop p) (abs_shared k)"
  using assms by (simp add: abs_shared_def cs_queue cs_current_other off_core_def)

lemma abs_elect_own:
  assumes wf: "kernel_wf k" and q: "k_queue k (LocalRq c) = p # ps"
  shows "abs_shared (change_state api p IPANEMA_RUNNING c None k) = s_step (ElectOwn c) (abs_shared k)"
proof -
  have rq: "k_rq k p = Some (LocalRq c)" using kernel_wfD(2) [OF wf, of p "LocalRq c"] q by simp
  have "k_queue (change_state api p IPANEMA_RUNNING c None k) x =
      (if x = LocalRq c then ps else k_queue k x)" for x
    using cs_dequeue_head [OF wf q] cs_queue_other [OF wf, of p x None] rq by simp
  then show ?thesis using q by (auto simp: abs_shared_def cs_current_run)
qed

lemma abs_elect_shared:
  assumes wf: "kernel_wf k" and q: "k_queue k GlobalRq = p # ps"
  shows "abs_shared (change_state api p IPANEMA_RUNNING c None k) = s_step (ElectShared c) (abs_shared k)"
proof -
  have rq: "k_rq k p = Some GlobalRq" using kernel_wfD(2) [OF wf, of p GlobalRq] q by simp
  have "k_queue (change_state api p IPANEMA_RUNNING c None k) x =
      (if x = GlobalRq then ps else k_queue k x)" for x
    using cs_dequeue_head [OF wf q] cs_queue_other [OF wf, of p x None] rq by simp
  then show ?thesis using q by (simp add: abs_shared_def cs_current_run)
qed

lemma abs_take:
  assumes wf: "kernel_wf k" and q: "k_queue k GlobalRq = p # ps"
  shows "abs_shared (remove_task api GlobalRq p k) = s_step Take (abs_shared k)"
  using q kernel_wfD(1) [OF wf, of GlobalRq] by (simp add: abs_shared_def rt_laws)

text \<open>A thread that no core runs moves from the shared queue to a core's own.\<close>

lemma abs_pull:
  assumes wf: "kernel_wf k" and q: "k_queue k GlobalRq = p # ps"
    and cur: "\<And>d. k_current k d \<noteq> Some p" and st: "st \<noteq> IPANEMA_RUNNING"
  shows "abs_shared (change_state api p st c (Some (LocalRq d)) k) = s_step (Pull d) (abs_shared k)"
proof -
  have rq: "k_rq k p = Some GlobalRq" using kernel_wfD(2) [OF wf, of p GlobalRq] q by simp
  have "k_queue (change_state api p st c (Some (LocalRq d)) k) x =
      (if x = GlobalRq then ps else if x = LocalRq d then k_queue k x @ [p] else k_queue k x)" for x
    using rq q kernel_wfD(1) [OF wf, of GlobalRq] kernel_wfD(2) [OF wf, of p x]
    by (auto simp: cs_queue [OF wf])
  then show ?thesis using q cur st by (auto simp: abs_shared_def cs_current_other fun_eq_iff)
qed

end

end
