(* ===== verification/GlobalFifo_Refine.thy ===== *)
theory GlobalFifo_Refine
  imports GlobalFifo_Correct Shared_Spec
begin

text \<open>
  modules/global_fifo/global_fifo.c implements the shared queue of \<open>Shared_Spec\<close>: every
  handler is one abstract step, so a run of the module is a run of the abstract scheduler.
\<close>

section \<open>The abstract step of an event\<close>

definition gfifo_expired :: "task \<Rightarrow> u64 \<Rightarrow> gfifo_sys \<Rightarrow> bool" where
  "gfifo_expired p now s =
     (case policy_metadata p s of
        Inl _ \<Rightarrow> False
      | Inr (a, fp) \<Rightarrow> GQUANTUM_NS \<le> gp_current_quantum_ns fp + (gp_last_sched_ns fp - now))"

definition gfifo_elect :: "cpu \<Rightarrow> kernel \<Rightarrow> sop" where
  "gfifo_elect c k =
     (if k_queue k (LocalRq c) \<noteq> [] then ElectOwn c
      else case k_queue k GlobalRq of
        [] \<Rightarrow> Idle
      | p # _ \<Rightarrow> if k_cpu k p = c then ElectShared c else Idle)"

fun gfifo_op :: "kevent \<Rightarrow> gfifo_sys \<Rightarrow> sop" where
  "gfifo_op (NewPlace p) s = Enter p"
| "gfifo_op (UnblockPlace p) s = Enter p"
| "gfifo_op (Tick p c now) s =
     (if gfifo_expired p now s then
        (if k_queue (kern s) (LocalRq c) = [] then Keep p c else Enter p)
      else Idle)"
| "gfifo_op (Yield p) s = Enter p"
| "gfifo_op (Block p c) s = Stop p"
| "gfifo_op (Terminate p) s = Drop p"
| "gfifo_op (Schedule c now) s = gfifo_elect c (kern s)"
| "gfifo_op (NewlyIdle c) s = Pull c"
| "gfifo_op (BalancingSelect c) s = Pull c"
| "gfifo_op _ s = Idle"

section \<open>What the handlers do to the kernel\<close>

lemma gfifo_tick_kern:
  assumes m: "policy_metadata p s = Inr (a, fp)" and t: "gfifo_tick api p c now s = Inr t"
  shows "kern t = (if gfifo_expired p now s
    then change_state api p IPANEMA_READY_TICK (k_cpu (kern s) p)
      (Some (if k_queue (kern s) (LocalRq c) = [] then LocalRq c else GlobalRq)) (kern s)
    else kern s)"
proof -
  have "gfifo_expired p now s \<longleftrightarrow> GQUANTUM_NS \<le> gp_current_quantum_ns fp + (gp_last_sched_ns fp - now)"
    by (simp add: gfifo_expired_def m)
  with assms show ?thesis by (auto simp: gfifo_tick_def Let_def split: if_splits)
qed

context saakm_framework
begin

lemma gfifo_schedule_kern:
  assumes t: "gfifo_schedule api c now s = Inr t"
  shows "kern t = (case k_queue (kern s) (LocalRq c) of
      p # _ \<Rightarrow> change_state api p IPANEMA_RUNNING c None (kern s)
    | [] \<Rightarrow> (case k_queue (kern s) GlobalRq of
        [] \<Rightarrow> kern s
      | p # _ \<Rightarrow> if k_cpu (kern s) p = c
               then change_state api p IPANEMA_RUNNING c None (kern s) else kern s))"
  using t
  by (auto simp: gfifo_schedule_def gfifo_run_next_def first_task res_bind_eq_Inr res_map_eq_Inr
      Let_def split: list.splits if_splits)

lemma gfifo_newly_idle_kern:
  assumes q: "k_queue (kern s) GlobalRq = p # ps"
  shows "kern (gfifo_newly_idle api c s) =
    (let k = remove_task api GlobalRq p (kern s) in
     if c = k_cpu (kern s) p then change_state api p IPANEMA_READY c (Some (LocalRq c)) k
     else change_state api p IPANEMA_READY c (Some (LocalRq c))
       (change_state api p IPANEMA_MIGRATING c None k))"
  using q by (auto simp: gfifo_newly_idle_def first_task Let_def rt_cpu)

text \<open>The pull: unlinked from the shared queue, migrated if needed, then queued on the core.\<close>

lemma abs_gfifo_pull:
  assumes inv: "gfifo_ok E s"
  shows "abs_shared (kern (gfifo_newly_idle api c s)) = s_step (Pull c) (abs_shared (kern s))"
proof (cases "k_queue (kern s) GlobalRq")
  case Nil
  then show ?thesis by (simp add: gfifo_newly_idle_def first_task abs_shared_def Let_def)
next
  case (Cons p ps)
  from inv have ok: "shared_ok gp_task gc_current E s" by (simp add: gfifo_ok_def)
  then have wf: "kernel_wf (kern s)" by (auto simp: shared_ok_def dest: shared_inv_wf)
  have head: "first_task api (kern s) GlobalRq = Some p" using Cons by (simp add: first_task)
  have notcur: "k_current (kern s) d \<noteq> Some p" for d
    using shared_ok_current(3) [OF ok, of d p] shared_ok_head(3) [OF ok head] by auto
  have rq: "k_rq (kern s) p = Some GlobalRq" by (rule shared_ok_head(4) [OF ok head])
  define k1 where "k1 = remove_task api GlobalRq p (kern s)"
  have wf1: "kernel_wf k1" unfolding k1_def by (rule rt_wf [OF wf rq])
  have q1: "k_queue k1 = (k_queue (kern s))(GlobalRq := ps)" "k_rq k1 p = None"
    "k_current k1 = k_current (kern s)"
    using Cons kernel_wfD(1) [OF wf, of GlobalRq] by (auto simp: k1_def rt_laws)
  have keep: "abs_shared (change_state api p IPANEMA_READY c (Some (LocalRq c)) k) =
      s_step (Keep p c) (abs_shared k)" if "kernel_wf k" "k_rq k p = None" for k
    by (rule abs_keep [OF that]) simp
  have stop: "abs_shared (change_state api p IPANEMA_MIGRATING c None k1) =
      s_step (Stop p) (abs_shared k1)"
    by (rule abs_stop [OF wf1 q1(2)]) simp
  have off: "off_core p (k_current (kern s)) = k_current (kern s)"
    using notcur by (auto simp: off_core_def fun_eq_iff)
  let ?m = "change_state api p IPANEMA_MIGRATING c None k1"
  have pull: "s_step (Keep p c) (abs_shared k1) = s_step (Pull c) (abs_shared (kern s))"
    using Cons off by (simp add: abs_shared_def q1)
  have "s_step (Stop p) (abs_shared k1) = abs_shared k1"
    using off by (simp add: abs_shared_def q1)
  then have "s_step (Keep p c) (abs_shared ?m) = s_step (Pull c) (abs_shared (kern s))"
    by (simp only: stop pull)
  moreover have "k_rq ?m p = None" by (simp add: cs_rq)
  ultimately have "abs_shared (change_state api p IPANEMA_READY c (Some (LocalRq c)) ?m) =
      s_step (Pull c) (abs_shared (kern s))"
    using keep [OF cs_wf [OF wf1]] by simp
  moreover have "abs_shared (change_state api p IPANEMA_READY c (Some (LocalRq c)) k1) =
      s_step (Pull c) (abs_shared (kern s))"
    using keep [OF wf1 q1(2)] pull by simp
  ultimately show ?thesis
    by (simp only: gfifo_newly_idle_kern [OF Cons] k1_def [symmetric] Let_def split: if_split) simp
qed

section \<open>Refinement\<close>

lemma gfifo_ok_refines:
  assumes inv: "gfifo_ok E s" and pr: "protocol e s" and t: "gfifo_routines api e s = Inr t"
  shows "abs_shared (kern t) = s_step (gfifo_op e s) (abs_shared (kern s))"
proof -
  from inv have ok: "shared_ok gp_task gc_current E s" by (simp add: gfifo_ok_def)
  then have sinv: "shared_inv gp_task E (kern s) (heap s)" by (simp add: shared_ok_def)
  then have wf: "kernel_wf (kern s)" by (rule shared_inv_wf)
  have out: "k_rq (kern s) p = None" if "norm_state (k_state (kern s) p) \<noteq> IPANEMA_READY" for p
    by (rule shared_not_queued [OF sinv that])
  have run: "k_rq (kern s) p = None" "attached (kern s) p" if "k_current (kern s) c = Some p" for c p
    using shared_ok_current [OF ok that] out by auto
  have enter: "abs_shared (change_state api p st c (Some GlobalRq) (kern s)) =
      s_step (Enter p) (abs_shared (kern s))" if "k_rq (kern s) p = None" "st \<noteq> IPANEMA_RUNNING" for p st c
    by (rule abs_enter [OF wf that])
  show ?thesis
  proof (cases e)
    case (NewPrepare p flags al n)
    with t show ?thesis
      by (auto simp: gfifo_new_prepare_def Let_def abs_shared_def res_map_eq_Inr set_metadata_def
          split: option.splits)
  next
    case (Tick p c now)
    with pr have cur: "k_current (kern s) c = Some p" by auto
    obtain a fp where m: "policy_metadata p s = Inr (a, fp)"
      using gfifo_ok_object [OF inv run(2) [OF cur]] by blast
    from Tick t have "gfifo_tick api p c now s = Inr t" by simp
    from gfifo_tick_kern [OF m this] Tick run(1) [OF cur] show ?thesis
      by (simp add: enter abs_keep [OF wf])
  next
    case (Schedule c now)
    with t have "gfifo_schedule api c now s = Inr t" by simp
    from gfifo_schedule_kern [OF this] Schedule show ?thesis
      by (auto simp: gfifo_elect_def abs_elect_own [OF wf] abs_elect_shared [OF wf] split: list.splits)
  next
    case (NewlyIdle c)
    with t abs_gfifo_pull [OF inv, of c] show ?thesis by (auto simp del: s_step.simps)
  next
    case (BalancingSelect c)
    with t abs_gfifo_pull [OF inv, of c] show ?thesis
      by (auto simp: gfifo_load_balance_def simp del: s_step.simps)
  next
    case (NewPlace p)
    with t pr out show ?thesis by (auto simp: gfifo_new_place_def Let_def enter)
  next
    case (UnblockPlace p)
    with t pr out show ?thesis by (auto simp: gfifo_unblock_place_def Let_def enter)
  next
    case (Yield p)
    with t pr run(1) show ?thesis by (auto simp: gfifo_yield_def Let_def enter)
  next
    case (Block p c)
    with t pr run(1) [of c p] show ?thesis by (auto simp: gfifo_block_def Let_def abs_stop [OF wf])
  next
    case (Terminate p)
    with t abs_drop [OF wf, of IPANEMA_TERMINATED] show ?thesis
      by (auto simp: gfifo_terminate_def Let_def res_bind_eq_Inr)
  qed (use t in \<open>auto simp: gfifo_core_entry_def gfifo_core_exit_def gfifo_enter_idle_def
      gfifo_exit_idle_def gfifo_upd_idle_def gfifo_new_end_def gfifo_unblock_end_def set_task_cpu_def
      abs_shared_def Let_def split: option.splits\<close>)
qed

lemmas gfifo_step_refines = gfifo_ok_refines [of "{}", unfolded gfifo_ok_empty]

end

abbreviation gfifo_ops :: "kapi \<Rightarrow> kevent list \<Rightarrow> gfifo_sys \<Rightarrow> sop list" where
  "gfifo_ops api \<equiv> ops_of (gfifo_routines api) gfifo_op"

sublocale saakm_framework \<subseteq> gfifo_ref: refining_policy "gfifo_routines api" protocol gfifo_inv
    "\<lambda>s. abs_shared (kern s)" gfifo_op s_step
  by unfold_locales (rule gfifo_step_refines)

interpretation ref_gfifo_ref: refining_policy "gfifo_routines ref_api" protocol gfifo_inv
    "\<lambda>s. abs_shared (kern s)" gfifo_op s_step
  by (rule ref.gfifo_ref.refining_policy_axioms)

lemma gfifo_op_drop: "not_terminate e \<Longrightarrow> \<not> is_drop (gfifo_op e s)"
  by (cases "(e, s)" rule: gfifo_op.cases) (auto simp: gfifo_elect_def split: list.splits)

lemma gfifo_ops_drop:
  "list_all not_terminate es \<Longrightarrow> list_all (\<lambda>op. \<not> is_drop op) (gfifo_ops api es s)"
  by (induction es arbitrary: s) (auto simp: gfifo_op_drop split: sum.splits)

context saakm_framework
begin

lemma gfifo_run_refines:
  "gfifo_inv s \<Longrightarrow> admissible (gfifo_routines api) protocol es s \<Longrightarrow>
    \<exists>t. run (gfifo_routines api) es s = Inr t \<and> gfifo_inv t \<and>
      abs_shared (kern t) = fold s_step (gfifo_ops api es s) (abs_shared (kern s))"
  by (rule gfifo_ref.run_refines)

end

end
