(* ===== verification/GlobalFifo_Props.thy ===== *)
theory GlobalFifo_Props
  imports GlobalFifo_Refine
begin

text \<open>
  The properties of modules/global_fifo/global_fifo.c: safety and conservation of threads
  over all runs, the order of the shared queue, its lock, and what the tick, the idle
  masks and the loading code do.
\<close>

section \<open>Loading\<close>

lemma gfifo_init_core_kern:
  "cores (gfifo_init_core api cpu s) =
     (cores s)(cpu := (cores s cpu)\<lparr>gc_id := cpu, gc_state := IPANEMA_ACTIVE_CORE\<rparr>)"
  "g_online_cores (gfifo_init_core api cpu s) = cpumask_set_cpu cpu (g_online_cores s)"
  "g_idle_cores (gfifo_init_core api cpu s) = map_option (cpumask_set_cpu cpu) (g_idle_cores s)"
  "kern (gfifo_init_core api cpu s) = init_rq api (LocalRq cpu) (kern s)"
  "heap (gfifo_init_core api cpu s) = heap s"
  "g_rq_cpu (gfifo_init_core api cpu s) = g_rq_cpu s"
  by (simp_all add: gfifo_init_core_def sys_defs Let_def)

lemma gfifo_init_cores:
  "heap (fold (gfifo_init_core api) cpus s) = heap s"
  "g_rq_cpu (fold (gfifo_init_core api) cpus s) = g_rq_cpu s"
  "g_online_cores (fold (gfifo_init_core api) cpus s) = fset_of_list cpus |\<union>| g_online_cores s"
  "g_idle_cores s = Some m \<Longrightarrow>
     g_idle_cores (fold (gfifo_init_core api) cpus s) = Some (fset_of_list cpus |\<union>| m)"
  by (induction cpus arbitrary: s m) (auto simp: gfifo_init_core_kern)

lemma gfifo_init_cores_core:
  "c \<in> set cpus \<Longrightarrow> gc_id (cores (fold (gfifo_init_core api) cpus s) c) = c \<and>
     gc_state (cores (fold (gfifo_init_core api) cpus s) c) = IPANEMA_ACTIVE_CORE"
proof -
  have keep: "c \<notin> set cpus \<Longrightarrow> cores (fold (gfifo_init_core api) cpus s) c = cores s c" for c cpus s
    by (induction cpus arbitrary: s) (simp_all add: gfifo_init_core_kern)
  show "c \<in> set cpus \<Longrightarrow> ?thesis"
  proof (induction cpus arbitrary: s)
    case Nil
    then show ?case by simp
  next
    case (Cons d cpus)
    then show ?case by (cases "c \<in> set cpus") (auto simp: gfifo_init_core_kern keep)
  qed
qed

context saakm_framework
begin

lemma gfifo_init_fresh:
  "fresh_kernel (kern s) \<Longrightarrow> fresh_kernel (kern (fold (gfifo_init_core api) cpus s))"
  by (induction cpus arbitrary: s) (simp_all add: gfifo_init_core_kern init_rq_fresh)

lemma gfifo_init_inv:
  assumes fresh: "fresh_kernel (kern s)" and heap: "heap s = (\<lambda>_. None)"
  shows "gfifo_inv (fst (snd (gfifo_mod_init api cpus True ok res s m)))"
proof -
  let ?s = "s\<lparr>kern := init_rq api GlobalRq (kern s), g_rq_cpu := 0, g_idle_cores := Some {||},
      g_online_cores := {||}\<rparr>"
  let ?t = "fold (gfifo_init_core api) cpus ?s"
  have "fresh_kernel (kern ?t)" by (rule gfifo_init_fresh) (simp add: fresh init_rq_fresh)
  then have "shared_ok gp_task gc_current {} ?t" by (rule fresh_shared_ok)
  then have "gfifo_inv ?t"
    by (simp add: gfifo_inv_def gfifo_init_cores heap gfifo_unmarked_def)
  then show ?thesis by (simp add: gfifo_mod_init_def Let_def)
qed

section \<open>One round of tick and schedule\<close>

lemma gfifo_tick_round:
  assumes inv: "gfifo_inv s" and cur: "k_current (kern s) c = Some p"
    and own: "k_queue (kern s) (LocalRq c) = []"
    and m: "policy_metadata p s = Inr (a, fp)" and q: "gp_current_quantum_ns fp = 0"
    and late: "gp_last_sched_ns fp < now" "now < 2 ^ 63"
  shows "\<exists>t fp'. run (gfifo_routines api) [Tick p c now, Schedule c next_sched] s = Inr t \<and>
    gfifo_inv t \<and> k_current (kern t) c = Some p \<and> k_queue (kern t) (LocalRq c) = [] \<and>
    k_queue (kern t) GlobalRq = k_queue (kern s) GlobalRq \<and>
    policy_metadata p t = Inr (a, fp') \<and> gp_current_quantum_ns fp' = 0 \<and>
    gp_last_sched_ns fp' = next_sched"
proof -
  from inv have ok: "shared_ok gp_task gc_current {} s" by (simp add: gfifo_inv_def)
  then have sinv: "shared_inv gp_task {} (kern s) (heap s)" by (simp add: shared_ok_def)
  then have wf: "kernel_wf (kern s)" by (rule shared_inv_wf)
  from shared_ok_current [OF ok cur] have cpu: "k_cpu (kern s) p = c"
    and rq: "k_rq (kern s) p = None"
    using shared_not_queued [OF sinv, of p] by auto
  have exp: "gfifo_expired p now s"
  proof -
    have "unat (gp_last_sched_ns fp - now) = 2 ^ 64 - (unat now - unat (gp_last_sched_ns fp))"
      using word_sub_wrap [OF late(1)] by simp
    moreover have "unat now < 2 ^ 63" using late(2) by (simp add: word_less_nat_alt)
    ultimately have "unat GQUANTUM_NS \<le> unat (gp_last_sched_ns fp - now)"
      by (simp add: GQUANTUM_NS_def)
    then show ?thesis by (simp add: gfifo_expired_def m q word_le_nat_alt)
  qed
  have pr: "protocol (Tick p c now) s" using cur cpu by simp
  obtain u where u: "gfifo_tick api p c now s = Inr u" "gfifo_inv u"
    using gfifo_progress [OF inv pr] by auto
  have ku: "kern u = change_state api p IPANEMA_READY_TICK c (Some (LocalRq c)) (kern s)"
    using gfifo_tick_kern [OF m u(1)] exp own cpu by simp
  have qu: "k_queue (kern u) (LocalRq c) = [p]" "k_queue (kern u) GlobalRq = k_queue (kern s) GlobalRq"
    using own by (simp_all add: ku cs_queue [OF wf] kernel_wfD(2) [OF wf] rq)
  from m have a: "k_meta (kern s) p = Some a" by (simp add: policy_metadata_Inr)
  have au: "k_meta (kern u) p = Some a" by (simp add: ku cs_meta a)
  have head: "first_task api (kern u) (LocalRq c) = Some p" using qu by (simp add: first_task)
  have cpu': "k_cpu (kern u) p = c" using cpu by (simp add: ku cs_cpu_same)
  from gfifo_run_next_inv [OF u(2) head cpu'] obtain t where
    t: "gfifo_run_next api p c next_sched u = Inr t" "gfifo_inv t"
    "kern t = change_state api p IPANEMA_RUNNING c None (kern u)" by blast
  from t(1) obtain fp' where fp': "policy_metadata p t = Inr (a, fp')"
    "gp_current_quantum_ns fp' = 0" "gp_last_sched_ns fp' = next_sched"
    using au by (auto simp: gfifo_run_next_def res_bind_eq_Inr policy_metadata_Inr cs_meta Let_def)
  have wfu: "kernel_wf (kern u)" by (simp add: ku cs_wf wf)
  have "k_queue (kern t) (LocalRq c) = []" "k_queue (kern t) GlobalRq = k_queue (kern s) GlobalRq"
    using qu rq by (simp_all add: t(3) cs_queue [OF wfu] kernel_wfD(2) [OF wf])
  moreover have "gfifo_schedule api c next_sched u = Inr t"
    using head t(1) by (simp add: gfifo_schedule_def)
  ultimately show ?thesis using u t fp' by (simp add: cs_current_run)
qed

text \<open>Idling, then scheduling: the head of what the core and the shared queue hold.\<close>

lemma gfifo_pull_and_elect:
  assumes inv: "gfifo_inv s"
    and work: "k_queue (kern s) (LocalRq c) @ k_queue (kern s) GlobalRq = p # ps"
  shows "\<exists>t. run (gfifo_routines api) [NewlyIdle c, Schedule c now] s = Inr t \<and> gfifo_inv t \<and>
    k_current (kern t) c = Some p"
proof -
  let ?e = "NewlyIdle c" let ?f = "Schedule c now"
  obtain u where u: "gfifo_routines api ?e s = Inr u" "gfifo_inv u"
    using gfifo_progress [OF inv, of ?e] by auto
  obtain t where t: "gfifo_routines api ?f u = Inr t" "gfifo_inv t"
    using gfifo_progress [OF u(2), of ?f] by auto
  have au: "abs_shared (kern u) = s_step (Pull c) (abs_shared (kern s))"
    using gfifo_step_refines [OF inv _ u(1)] by simp
  obtain ps' where q: "k_queue (kern u) (LocalRq c) = p # ps'"
  proof (cases "k_queue (kern s) GlobalRq")
    case Nil
    with au work that show ?thesis by (auto simp: abs_shared_eq_iff)
  next
    case (Cons q qs)
    with au have "k_queue (kern u) (LocalRq c) = k_queue (kern s) (LocalRq c) @ [q]"
      by (simp add: abs_shared_eq_iff)
    with work Cons that show ?thesis by (cases "k_queue (kern s) (LocalRq c)") auto
  qed
  have "kern t = change_state api p IPANEMA_RUNNING c None (kern u)"
    using gfifo_schedule_kern [of c now u t] t(1) q by simp
  then show ?thesis using u t by (simp add: cs_current_run)
qed

end

section \<open>A concrete machine\<close>

text \<open>Four cpus: thread 7 runs on cpu 3, thread 8, last on cpu 2, waits in the shared queue.\<close>

definition gfifo_demo :: gfifo_sys where
  "gfifo_demo = \<lparr>kern = idle_kernel,
     cores = (\<lambda>c. \<lparr>gc_state = IPANEMA_IDLE_CORE, gc_id = 0, gc_current = None\<rparr>),
     heap = (\<lambda>_. None), trace = [], g_online_cores = {||}, g_idle_cores = None, g_rq_cpu = 0\<rparr>"

definition gfifo_loaded :: gfifo_sys where
  "gfifo_loaded = fst (snd (gfifo_mod_init ref_api [0, 1, 2, 3] True True 0 gfifo_demo no_module))"

definition gfifo_script :: "kevent list" where
  "gfifo_script = [NewPrepare 7 0 (Some 100) 4, SetTaskCpu 7 3, NewPlace 7, Schedule 3 5,
     NewPrepare 8 0 (Some 101) 4, SetTaskCpu 8 2, NewPlace 8]"

definition gfifo_busy :: gfifo_sys where
  "gfifo_busy = projr (run (gfifo_routines ref_api) gfifo_script gfifo_loaded)"

lemmas gfifo_eval = gfifo_demo_def idle_kernel_def gfifo_loaded_def gfifo_mod_init_def
  gfifo_init_core_def sys_defs ref_change_state_def ref_first_task_def ref_remove_task_def
  ref_init_rq_def Let_def attached_def policy_metadata_def gfifo_script_def gfifo_defs

lemma gfifo_loaded_init: "gfifo_mod_init ref_api [0, 1, 2, 3] True True 0 gfifo_demo no_module =
    (0, gfifo_loaded, \<lparr>policy_allocated = True, policy_registered = True, proc_entry = True\<rparr>)"
  by (simp add: gfifo_loaded_def gfifo_mod_init_def no_module_def Let_def)

lemma gfifo_loaded_inv: "gfifo_inv gfifo_loaded"
  unfolding gfifo_loaded_def by (rule ref.gfifo_init_inv) (simp_all add: gfifo_demo_def)

lemma gfifo_script_admissible: "admissible (gfifo_routines ref_api) protocol gfifo_script gfifo_loaded"
  by (simp add: gfifo_eval)

lemma gfifo_busy_run: "run (gfifo_routines ref_api) gfifo_script gfifo_loaded = Inr gfifo_busy"
  using ref.gfifo_run_total [OF gfifo_loaded_inv gfifo_script_admissible]
  by (auto simp: gfifo_busy_def)

lemma gfifo_busy_reachable: "reachable (gfifo_routines ref_api) protocol gfifo_loaded gfifo_busy"
  by (rule reachable_run [OF reachable.start gfifo_script_admissible gfifo_busy_run])

lemma gfifo_busy_inv: "gfifo_inv gfifo_busy"
  by (rule ref.gfifo_reachable_inv [OF gfifo_busy_reachable gfifo_loaded_inv])

lemma gfifo_busy_state:
  "k_current (kern gfifo_busy) 3 = Some 7" "k_queue (kern gfifo_busy) GlobalRq = [8]"
  "k_queue (kern gfifo_busy) (LocalRq 3) = []" "k_queue (kern gfifo_busy) (LocalRq 0) = []"
  "k_cpu (kern gfifo_busy) 7 = 3" "k_cpu (kern gfifo_busy) 8 = 2"
  "k_rq (kern gfifo_busy) 8 = Some GlobalRq"
  "k_meta (kern gfifo_busy) 7 = Some 100" "k_meta (kern gfifo_busy) 8 = Some 101"
  "k_state (kern gfifo_busy) 7 = IPANEMA_RUNNING" "k_state (kern gfifo_busy) 8 = IPANEMA_READY"
  "heap gfifo_busy 100 = Some \<lparr>gp_state = 0, gp_task = 7, gp_rq = None,
     gp_current_quantum_ns = 0, gp_last_sched_ns = 5\<rparr>"
  "gc_current (cores gfifo_busy 3) = Some 100"
  by (simp_all add: gfifo_busy_def gfifo_eval)

section \<open>Safety and conservation\<close>

lemma gfifo_loaded_reachable_inv:
  assumes fw: "saakm_framework api" and fresh: "fresh_kernel (kern s0)" "heap s0 = (\<lambda>_. None)"
    and init: "gfifo_mod_init api cpus True ok res s0 m = (r, s, m')"
    and run: "reachable (gfifo_routines api) protocol s t"
  shows "gfifo_inv t"
proof -
  have "gfifo_inv s"
    using saakm_framework.gfifo_init_inv [OF fw fresh, of cpus ok res m] init by simp
  from saakm_framework.gfifo_reachable_inv [OF fw run this] show ?thesis .
qed

text \<open>From a loaded module no handler of global_fifo.c faults, whatever events the calling
  protocol delivers.\<close>

theorem gfifo_never_faults:
  assumes fw: "saakm_framework api" and fresh: "fresh_kernel (kern s0)" "heap s0 = (\<lambda>_. None)"
    and init: "gfifo_mod_init api cpus True ok res s0 m = (r, s, m')"
    and run: "reachable (gfifo_routines api) protocol s t" and pr: "protocol e t"
  shows "\<exists>u. gfifo_routines api e t = Inr u"
  using saakm_framework.gfifo_progress
    [OF fw gfifo_loaded_reachable_inv [OF fw fresh init run] pr] by blast

theorem gfifo_never_faults_witness: "\<exists>u. gfifo_routines ref_api (Tick 7 3 9) gfifo_busy = Inr u"
  by (rule gfifo_never_faults [OF ref.saakm_framework_axioms _ _ gfifo_loaded_init
        gfifo_busy_reachable])
     (simp_all add: gfifo_busy_state gfifo_demo_def)

text \<open>No thread is lost by global_fifo.c: in every reachable state each ready thread is in
  exactly one runqueue, which is the shared one or that of its own cpu, and a queued thread
  is ready, has its object, and is queued once.\<close>

theorem gfifo_none_lost:
  assumes fw: "saakm_framework api" and fresh: "fresh_kernel (kern s0)" "heap s0 = (\<lambda>_. None)"
    and init: "gfifo_mod_init api cpus True ok res s0 m = (r, s, m')"
    and run: "reachable (gfifo_routines api) protocol s t"
  shows "(norm_state (k_state (kern t) p) = IPANEMA_READY \<longleftrightarrow> (\<exists>!x. p \<in> set (k_queue (kern t) x))) \<and>
    (\<forall>x. p \<in> set (k_queue (kern t) x) \<longrightarrow> (x = GlobalRq \<or> x = LocalRq (k_cpu (kern t) p)) \<and>
       distinct (k_queue (kern t) x) \<and> policy_metadata p t \<in> range Inr)"
proof -
  have inv: "gfifo_inv t" by (rule gfifo_loaded_reachable_inv [OF fw fresh init run])
  then have sinv: "shared_inv gp_task {} (kern t) (heap t)"
    by (simp add: gfifo_inv_def shared_ok_def)
  then have wf: "kernel_wf (kern t)" by (rule shared_inv_wf)
  have "policy_metadata p t \<in> range Inr" if "p \<in> set (k_queue (kern t) x)" for x
    using gfifo_object [OF inv shared_queued(1) [OF sinv that]] by auto
  with shared_ready_iff [OF sinv, of p] kernel_wfD(1) [OF wf] shared_queued(2) [OF sinv]
  show ?thesis by blast
qed

theorem gfifo_none_lost_witness:
  "(norm_state (k_state (kern gfifo_busy) 8) = IPANEMA_READY \<longleftrightarrow>
      (\<exists>!x. 8 \<in> set (k_queue (kern gfifo_busy) x))) \<and> policy_metadata 8 gfifo_busy \<in> range Inr"
proof -
  have "8 \<in> set (k_queue (kern gfifo_busy) GlobalRq)" by (simp add: gfifo_busy_state)
  with gfifo_none_lost [OF ref.saakm_framework_axioms _ _ gfifo_loaded_init gfifo_busy_reachable, of 8]
  show ?thesis by (auto simp: gfifo_demo_def)
qed

section \<open>The shared queue\<close>

text \<open>The shared runqueue of global_fifo.c is first in, first out: along every admissible run
  in which no thread terminates, what it holds at the end is what it held at the start,
  followed by the threads that were placed, unblocked, yielded or preempted into it, in
  that order, less some threads at the front.\<close>

theorem gfifo_shared_is_fifo:
  assumes fw: "saakm_framework api" and inv: "gfifo_inv s"
    and adm: "admissible (gfifo_routines api) protocol es s" and live: "list_all not_terminate es"
  shows "\<exists>t n. run (gfifo_routines api) es s = Inr t \<and>
    k_queue (kern t) GlobalRq =
      drop n (k_queue (kern s) GlobalRq @ entered (gfifo_ops api es s))"
proof -
  obtain t where t: "run (gfifo_routines api) es s = Inr t"
    "abs_shared (kern t) = fold s_step (gfifo_ops api es s) (abs_shared (kern s))"
    using saakm_framework.gfifo_run_refines [OF fw inv adm] by blast
  with shared_fifo_kernel [OF t(2) gfifo_ops_drop [OF live]] show ?thesis by blast
qed

theorem gfifo_shared_is_fifo_witness:
  "\<exists>t n. run (gfifo_routines ref_api) gfifo_script gfifo_loaded = Inr t \<and>
    k_queue (kern t) GlobalRq =
      drop n (k_queue (kern gfifo_loaded) GlobalRq @ entered (gfifo_ops ref_api gfifo_script gfifo_loaded))"
  by (rule gfifo_shared_is_fifo [OF ref.saakm_framework_axioms gfifo_loaded_inv gfifo_script_admissible])
     (simp add: gfifo_script_def)

text \<open>C21 Lock discipline of global_fifo.c: along every admissible run without terminations, the
  handlers give back every lock they take, never take one they hold, and change the shared
  runqueue only with its lock held.\<close>

theorem gfifo_lock_discipline:
  assumes "saakm_framework api" and "gfifo_inv s"
    and "admissible (gfifo_routines api) protocol es s" and "list_all not_terminate es"
  shows "\<exists>t calls. run (gfifo_routines api) es s = Inr t \<and> trace t = trace s @ calls \<and>
    lock_run [] calls = Some [] \<and> touches_guarded GlobalRq ModuleLock [] calls"
proof -
  obtain t where t: "run (gfifo_routines api) es s = Inr t"
    using saakm_framework.gfifo_run_total [OF assms(1-3)] by blast
  with saakm_framework.gfifo_run_guarded [OF assms t] show ?thesis by blast
qed

theorem gfifo_lock_discipline_witness:
  "\<exists>t calls. run (gfifo_routines ref_api) gfifo_script gfifo_loaded = Inr t \<and>
    trace t = trace gfifo_loaded @ calls \<and> lock_run [] calls = Some [] \<and>
    touches_guarded GlobalRq ModuleLock [] calls"
  by (rule gfifo_lock_discipline [OF ref.saakm_framework_axioms gfifo_loaded_inv gfifo_script_admissible])
     (simp add: gfifo_script_def)

text \<open>\<open>fifo_terminate\<close> of global_fifo.c breaks that discipline: when a thread that waits in
  the shared runqueue terminates, it is unlinked from it although no lock is held; and its
  object is not freed.\<close>

theorem gfifo_terminate_unlocked:
  assumes fw: "saakm_framework api" and inv: "gfifo_inv s"
    and q: "p \<in> set (k_queue (kern s) GlobalRq)"
  shows "\<exists>t calls a. gfifo_routines api (Terminate p) s = Inr t \<and> trace t = trace s @ calls \<and>
    \<not> touches_guarded GlobalRq ModuleLock [] calls \<and>
    k_queue (kern t) GlobalRq = without p (k_queue (kern s) GlobalRq) \<and>
    k_meta (kern t) p = Some a \<and> heap t a \<noteq> None"
proof -
  from inv have sinv: "shared_inv gp_task {} (kern s) (heap s)"
    by (simp add: gfifo_inv_def shared_ok_def)
  then have wf: "kernel_wf (kern s)" by (rule shared_inv_wf)
  obtain a fp where a: "k_meta (kern s) p = Some a" "heap s a = Some fp"
    "policy_metadata p s = Inr (a, fp)"
    using gfifo_object [OF inv shared_queued(1) [OF sinv q]] by blast
  with shared_queued(4) [OF sinv q] show ?thesis
    by (simp add: gfifo_terminate_def Let_def saakm_framework.cs_queue [OF fw wf]
        saakm_framework.cs_meta [OF fw])
qed

theorem gfifo_terminate_unlocked_witness:
  "\<exists>t calls a. gfifo_routines ref_api (Terminate 8) gfifo_busy = Inr t \<and>
    trace t = trace gfifo_busy @ calls \<and> \<not> touches_guarded GlobalRq ModuleLock [] calls \<and>
    k_queue (kern t) GlobalRq = without 8 (k_queue (kern gfifo_busy) GlobalRq) \<and>
    k_meta (kern t) 8 = Some a \<and> heap t a \<noteq> None"
  by (rule gfifo_terminate_unlocked [OF ref.saakm_framework_axioms gfifo_busy_inv])
     (simp add: gfifo_busy_state)

section \<open>Liveness\<close>

text \<open>A core that goes idle while threads wait gets work: after \<open>fifo_newly_idle\<close> and
  \<open>fifo_schedule\<close> it runs the first of the threads of its own runqueue and of the shared
  one, in this order, wherever that thread ran before.\<close>

theorem gfifo_idle_core_gets_work:
  assumes "saakm_framework api" and "gfifo_inv s"
    and "k_queue (kern s) (LocalRq c) @ k_queue (kern s) GlobalRq = p # ps"
  shows "\<exists>t. run (gfifo_routines api) [NewlyIdle c, Schedule c now] s = Inr t \<and>
    k_current (kern t) c = Some p"
  using saakm_framework.gfifo_pull_and_elect [OF assms] by blast

theorem gfifo_idle_core_gets_work_witness:
  "\<exists>t. run (gfifo_routines ref_api) [NewlyIdle 0, Schedule 0 9] gfifo_busy = Inr t \<and>
    k_current (kern t) 0 = Some 8"
  by (rule gfifo_idle_core_gets_work [OF ref.saakm_framework_axioms gfifo_busy_inv, where ps = "[]"])
     (simp add: gfifo_busy_state)

text \<open>The tick times of a thread: each tick is later than its election, on a clock that has
  run for less than \<open>2 ^ 63\<close> ns.\<close>

fun later_ticks :: "u64 \<Rightarrow> (u64 \<times> u64) list \<Rightarrow> bool" where
  "later_ticks l [] = True"
| "later_ticks l ((n, m) # ts) = (l < n \<and> n < 2 ^ 63 \<and> later_ticks m ts)"

lemma gfifo_tick_rounds:
  assumes fw: "saakm_framework api"
  shows "gfifo_inv s \<Longrightarrow> k_current (kern s) c = Some p \<Longrightarrow> k_queue (kern s) (LocalRq c) = [] \<Longrightarrow>
    policy_metadata p s = Inr (a, fp) \<Longrightarrow> gp_current_quantum_ns fp = 0 \<Longrightarrow>
    later_ticks (gp_last_sched_ns fp) ts \<Longrightarrow>
    \<exists>t. run (gfifo_routines api) (concat (map (\<lambda>(n, m). [Tick p c n, Schedule c m]) ts)) s = Inr t \<and>
      k_current (kern t) c = Some p \<and> k_queue (kern t) GlobalRq = k_queue (kern s) GlobalRq"
proof (induction ts arbitrary: s fp)
  case Nil
  then show ?case by simp
next
  case (Cons x ts)
  obtain n m where x: "x = (n, m)" by (cases x)
  with Cons.prems have late: "gp_last_sched_ns fp < n" "n < 2 ^ 63" by simp_all
  obtain u fp' where u: "run (gfifo_routines api) [Tick p c n, Schedule c m] s = Inr u"
    "gfifo_inv u" "k_current (kern u) c = Some p" "k_queue (kern u) (LocalRq c) = []"
    "k_queue (kern u) GlobalRq = k_queue (kern s) GlobalRq" "policy_metadata p u = Inr (a, fp')"
    "gp_current_quantum_ns fp' = 0" "gp_last_sched_ns fp' = m"
    using saakm_framework.gfifo_tick_round [OF fw Cons.prems(1-5) late, of m] by blast
  have "later_ticks (gp_last_sched_ns fp') ts" using Cons.prems(6) x u(8) by simp
  from Cons.IH [OF u(2-4) u(6,7) this] u(5) obtain t where
    t: "run (gfifo_routines api) (concat (map (\<lambda>(n, m). [Tick p c n, Schedule c m]) ts)) u = Inr t"
    "k_current (kern t) c = Some p" "k_queue (kern t) GlobalRq = k_queue (kern s) GlobalRq" by auto
  have "run (gfifo_routines api) (concat (map (\<lambda>(n, m). [Tick p c n, Schedule c m]) (x # ts))) s = Inr t"
    using u(1) t(1) x by (auto simp: res_bind_eq_Inr)
  with t show ?case by blast
qed

text \<open>C34 The tick of global_fifo.c can starve the shared queue. It subtracts the clock from the
  time of the election, so the unsigned difference wraps and any tick after the election
  exceeds the quantum; and it sends the thread back to its core's own runqueue when that is
  empty, where the next schedule finds it first. So through any number of ticks the thread
  keeps its core and the threads in the shared runqueue stay where they are.\<close>

theorem gfifo_tick_starves_shared:
  assumes "saakm_framework api" and "gfifo_inv s" and "k_current (kern s) c = Some p"
    and "k_queue (kern s) (LocalRq c) = []" and "policy_metadata p s = Inr (a, fp)"
    and "gp_current_quantum_ns fp = 0" and "later_ticks (gp_last_sched_ns fp) ts"
  shows "\<exists>t. run (gfifo_routines api) (concat (map (\<lambda>(n, m). [Tick p c n, Schedule c m]) ts)) s = Inr t \<and>
      k_current (kern t) c = Some p \<and> k_queue (kern t) GlobalRq = k_queue (kern s) GlobalRq"
  by (rule gfifo_tick_rounds [OF assms])

theorem gfifo_tick_starves_shared_witness:
  "\<exists>t. run (gfifo_routines ref_api) (concat (map (\<lambda>(n, m). [Tick 7 3 n, Schedule 3 m])
      [(6, 7), (8, 9), (10, 11)])) gfifo_busy = Inr t \<and>
    k_current (kern t) 3 = Some 7 \<and> k_queue (kern t) GlobalRq = k_queue (kern gfifo_busy) GlobalRq"
  by (rule gfifo_tick_starves_shared [OF ref.saakm_framework_axioms gfifo_busy_inv, where a = 100 and
      fp = "\<lparr>gp_state = 0, gp_task = 7, gp_rq = None, gp_current_quantum_ns = 0, gp_last_sched_ns = 5\<rparr>"])
     (simp_all add: gfifo_busy_state policy_metadata_Inr)

section \<open>The masks and loading\<close>

text \<open>\<open>fifo_exit_idle\<close> of global_fifo.c takes the core that becomes active out of
  \<open>online_cores\<close>: after a core of the right number has entered and left idleness it is
  active and not idle, but no longer online, until a core entry event.\<close>

theorem gfifo_idle_cycle_offline:
  assumes "gfifo_inv s" and "gc_id (cores s c) = c"
  shows "\<exists>t m u. run (gfifo_routines api) [EnterIdle c, ExitIdle c] s = Inr t \<and>
    gc_state (cores t c) = IPANEMA_ACTIVE_CORE \<and> g_idle_cores t = Some m \<and> c |\<notin>| m \<and>
    c |\<notin>| g_online_cores t \<and> g_online_cores t |\<subseteq>| g_online_cores s \<and>
    gfifo_routines api (CoreEntry c) t = Inr u \<and> c |\<in>| g_online_cores u"
proof -
  from assms obtain m where "g_idle_cores s = Some m" by (auto simp: gfifo_inv_def)
  with assms(2) show ?thesis
    by (auto simp: gfifo_enter_idle_def gfifo_exit_idle_def gfifo_core_entry_def
        gfifo_upd_idle_def sys_defs Let_def)
qed

theorem gfifo_idle_cycle_offline_witness:
  "\<exists>t m u. run (gfifo_routines ref_api) [EnterIdle 0, ExitIdle 0] gfifo_busy = Inr t \<and>
    gc_state (cores t 0) = IPANEMA_ACTIVE_CORE \<and> g_idle_cores t = Some m \<and> 0 |\<notin>| m \<and>
    0 |\<notin>| g_online_cores t \<and> g_online_cores t |\<subseteq>| g_online_cores gfifo_busy \<and>
    gfifo_routines ref_api (CoreEntry 0) t = Inr u \<and> 0 |\<in>| g_online_cores u"
proof (rule gfifo_idle_cycle_offline [OF gfifo_busy_inv])
  show "gc_id (cores gfifo_busy 0) = 0" by (simp add: gfifo_busy_def gfifo_eval)
qed

text \<open>Loading global_fifo.c: with both allocations every possible cpu ends up active, online
  and marked idle and the shared runqueue empty; a failed allocation of the idle mask
  returns \<open>-ENOMEM\<close> with no core touched, and of the policy \<open>-ENOMEM\<close> with the idle mask
  still allocated; a refusal by the framework returns its error but leaves the procfs entry.\<close>

theorem gfifo_mod_init_outcomes:
  assumes fw: "saakm_framework api"
    and init: "gfifo_mod_init api cpus idle_ok ok res s m = (r, t, m')"
  shows "(\<not> idle_ok \<longrightarrow> r = - ENOMEM \<and> cores t = cores s \<and> g_idle_cores t = None \<and> m' = m) \<and>
    (idle_ok \<longrightarrow> g_idle_cores t = Some (fset_of_list cpus) \<and> g_online_cores t = fset_of_list cpus \<and>
       k_queue (kern t) GlobalRq = [] \<and>
       (\<forall>c \<in> set cpus. gc_id (cores t c) = c \<and> gc_state (cores t c) = IPANEMA_ACTIVE_CORE)) \<and>
    (idle_ok \<and> \<not> ok \<longrightarrow> r = - ENOMEM \<and> m' = m) \<and>
    (idle_ok \<and> ok \<longrightarrow> r = res \<and> proc_entry m' \<and> policy_allocated m' = (res = 0))"
proof -
  have "k_queue (kern (fold (gfifo_init_core api) cs u)) GlobalRq = k_queue (kern u) GlobalRq" for cs u
    by (induction cs arbitrary: u) (simp_all add: gfifo_init_core_kern saakm_framework.init_rq [OF fw])
  then show ?thesis
    using init gfifo_init_cores_core [where api = api and cpus = cpus]
    by (auto simp: gfifo_mod_init_def Let_def gfifo_init_cores saakm_framework.init_rq [OF fw]
        split: if_splits)
qed

theorem gfifo_mod_init_outcomes_witness:
  "g_idle_cores gfifo_loaded = Some (fset_of_list [0, 1, 2, 3]) \<and>
    fst (gfifo_mod_init ref_api [0, 1] False True 0 gfifo_demo no_module) = - ENOMEM"
  using gfifo_mod_init_outcomes [OF ref.saakm_framework_axioms gfifo_loaded_init]
  by (simp add: gfifo_mod_init_def Let_def)

end
