(* ===== verification/OneQueue.thy ===== *)
theory OneQueue
  imports Saakm
begin

text \<open>
  modules/fifo_one_queue/fifo_one_queue.c: one FIFO runqueue shared by all cores, used
  under the spinlock of the runqueue itself, and a FIFO runqueue per core filled when the
  core goes idle. Structures and handlers in the order of the file. The fields of the
  structures have a prefix, \<open>op_\<close> for \<open>fifo_process\<close> and \<open>oc_\<close> for \<open>fifo_core\<close>, and the
  handlers \<open>onefifo_\<close> for \<open>fifo_\<close>.
\<close>

unbundle bit_operations_syntax

section \<open>Structures\<close>

text \<open>
  The macro \<open>QUANTUM_NS\<close> is the text \<open>20 * NSEC_PER_MSEC\<close> without parentheses: its only
  use, \<open>x % QUANTUM_NS\<close>, reads \<open>(x % 20) * NSEC_PER_MSEC\<close>.
\<close>

definition NSEC_PER_MSEC :: ulong where
  "NSEC_PER_MSEC = 1000000"

definition mod_QUANTUM_NS :: "ulong \<Rightarrow> ulong" where
  "mod_QUANTUM_NS x = x mod 20 * NSEC_PER_MSEC"

record onefifo_process =
  op_state :: int
  op_task :: task
  op_rq :: "rqid option"
  op_current_quantum_ns :: ulong
  op_last_sched_ns :: ulong

record onefifo_core =
  oc_state :: core_state
  oc_id :: nat
  oc_current :: "addr option"

text \<open>
  The shared runqueue \<open>fifo_runqueue.rq\<close> is \<open>GlobalRq\<close>; \<open>LOCK_RQ\<close> takes \<open>RqLock GlobalRq\<close>,
  and the lock inside a core's runqueue is \<open>RqLock (LocalRq c)\<close>.
\<close>

record onefifo_sys = "(onefifo_core, onefifo_process) sys" +
  o_online_cores :: cpumask
  o_idle_cores :: "cpumask option"

abbreviation LOCK_RQ :: "onefifo_sys \<Rightarrow> onefifo_sys" where
  "LOCK_RQ \<equiv> acquire (RqLock GlobalRq)"

abbreviation UNLOCK_RQ :: "onefifo_sys \<Rightarrow> onefifo_sys" where
  "UNLOCK_RQ \<equiv> release (RqLock GlobalRq)"

definition onefifo_upd_idle :: "(cpumask \<Rightarrow> cpumask) \<Rightarrow> onefifo_sys \<Rightarrow> onefifo_sys res" where
  "onefifo_upd_idle f s =
     (case o_idle_cores s of
        None \<Rightarrow> Inl NullDeref
      | Some m \<Rightarrow> Inr (s\<lparr>o_idle_cores := Some (f m)\<rparr>))"

section \<open>Handlers of core events\<close>

definition onefifo_get_core_state :: "cpu \<Rightarrow> onefifo_sys \<Rightarrow> core_state" where
  "onefifo_get_core_state target s = oc_state (cores s target)"

definition onefifo_core_entry :: "cpu \<Rightarrow> onefifo_sys \<Rightarrow> onefifo_sys res" where
  "onefifo_core_entry target s =
     (let s1 = upd_core target (\<lambda>c. c\<lparr>oc_state := IPANEMA_ACTIVE_CORE\<rparr>) s;
          id = oc_id (cores s1 target);
          s2 = s1\<lparr>o_online_cores := cpumask_set_cpu id (o_online_cores s1)\<rparr>
      in onefifo_upd_idle (cpumask_set_cpu id) s2)"

definition onefifo_core_exit :: "cpu \<Rightarrow> onefifo_sys \<Rightarrow> onefifo_sys res" where
  "onefifo_core_exit target s =
     (let s1 = upd_core target (\<lambda>c. c\<lparr>oc_state := IPANEMA_IDLE_CORE\<rparr>) s;
          id = oc_id (cores s1 target);
          s2 = s1\<lparr>o_online_cores := cpumask_clear_cpu id (o_online_cores s1)\<rparr>
      in onefifo_upd_idle (cpumask_clear_cpu id) s2)"

definition onefifo_newly_idle :: "kapi \<Rightarrow> cpu \<Rightarrow> onefifo_sys \<Rightarrow> onefifo_sys" where
  "onefifo_newly_idle api cpu s =
     (let s1 = LOCK_RQ s in
      case first_task api (kern s1) GlobalRq of
        None \<Rightarrow> UNLOCK_RQ s1
      | Some nxt \<Rightarrow>
          if k_cpu (kern s1) nxt = cpu then
            let s2 = acquire (RqLock (LocalRq cpu)) s1;
                s3 = call_change_state api nxt IPANEMA_READY cpu (Some (LocalRq cpu)) s2;
                s4 = release (RqLock (LocalRq cpu)) s3
            in UNLOCK_RQ s4
          else
            let prev_cpu = k_cpu (kern s1) nxt;
                s2 = acquire (RqLock (LocalRq prev_cpu)) s1;
                s3 = call_change_state api nxt IPANEMA_MIGRATING cpu None s2;
                s4 = release (RqLock (LocalRq prev_cpu)) s3;
                s5 = acquire (RqLock (LocalRq cpu)) s4;
                s6 = call_change_state api nxt IPANEMA_READY cpu (Some (LocalRq cpu)) s5;
                s7 = release (RqLock (LocalRq cpu)) s6
            in UNLOCK_RQ s7)"

definition onefifo_enter_idle :: "cpu \<Rightarrow> onefifo_sys \<Rightarrow> onefifo_sys res" where
  "onefifo_enter_idle target s =
     onefifo_upd_idle (cpumask_set_cpu target)
       (upd_core target (\<lambda>c. c\<lparr>oc_state := IPANEMA_IDLE_CORE\<rparr>) s)"

definition onefifo_exit_idle :: "cpu \<Rightarrow> onefifo_sys \<Rightarrow> onefifo_sys res" where
  "onefifo_exit_idle target s =
     (let s1 = upd_core target (\<lambda>c. c\<lparr>oc_state := IPANEMA_ACTIVE_CORE\<rparr>) s;
          s2 = s1\<lparr>o_online_cores := cpumask_clear_cpu target (o_online_cores s1)\<rparr>
      in onefifo_upd_idle (cpumask_clear_cpu target) s2)"

definition onefifo_balancing_select :: "cpu \<Rightarrow> onefifo_sys \<Rightarrow> onefifo_sys" where
  "onefifo_balancing_select target s = s"

section \<open>Handlers of thread events\<close>

text \<open>
  The result of \<open>cpumask_any_but\<close> is thrown away: when \<open>prev_cpu\<close> is not marked idle the
  local \<open>cpu\<close> is read without ever having been written.
\<close>

definition onefifo_select_cpu :: "kapi \<Rightarrow> cpu \<Rightarrow> onefifo_sys \<Rightarrow> (int \<times> onefifo_sys) res" where
  "onefifo_select_cpu api prev_cpu s =
     (let s1 = LOCK_RQ s in
      case o_idle_cores s1 of
        None \<Rightarrow> Inl NullDeref
      | Some idle \<Rightarrow>
          if cpumask_test_cpu prev_cpu idle then
            let cpu = prev_cpu;
                cpu = (if nr_cpu_ids api \<le> cpu then prev_cpu else cpu);
                s2 = (if cpumask_test_cpu cpu idle
                      then s1\<lparr>o_idle_cores := Some (cpumask_clear_cpu cpu idle)\<rparr> else s1)
            in Inr (int cpu, UNLOCK_RQ s2)
          else Inl UninitRead)"

definition onefifo_enqueue_lock ::
    "kapi \<Rightarrow> onefifo_process \<Rightarrow> ipanema_state \<Rightarrow> onefifo_sys \<Rightarrow> onefifo_sys" where
  "onefifo_enqueue_lock api fp st s =
     (let p = op_task fp;
          c = k_cpu (kern s) p;
          s1 = LOCK_RQ s;
          s2 = (if st = IPANEMA_RUNNING then upd_core c (\<lambda>fc. fc\<lparr>oc_current := None\<rparr>) s1 else s1);
          s3 = call_change_state api p st (k_cpu (kern s2) p) (Some GlobalRq) s2
      in UNLOCK_RQ s3)"

definition onefifo_new_prepare ::
    "kapi \<Rightarrow> task \<Rightarrow> u32 \<Rightarrow> addr option \<Rightarrow> onefifo_sys \<Rightarrow> (int \<times> onefifo_sys) res" where
  "onefifo_new_prepare api p flags alloc s =
     (case alloc of
        None \<Rightarrow> Inr (-1, s)
      | Some a \<Rightarrow>
          let fp = \<lparr>op_state = 0, op_task = p, op_rq = None,
                    op_current_quantum_ns = 0, op_last_sched_ns = 0\<rparr>;
              s1 = set_metadata p a (put_proc a fp s)
          in if flags AND WF_EXEC api \<noteq> 0 then Inr (int (k_cpu (kern s1) p), s1)
             else onefifo_select_cpu api (k_cpu (kern s1) p) s1)"

definition onefifo_new_place :: "kapi \<Rightarrow> task \<Rightarrow> onefifo_sys \<Rightarrow> onefifo_sys res" where
  "onefifo_new_place api p s =
     res_map (\<lambda>(a, fp). onefifo_enqueue_lock api fp IPANEMA_READY s) (policy_metadata p s)"

definition onefifo_new_end :: "task \<Rightarrow> onefifo_sys \<Rightarrow> onefifo_sys" where
  "onefifo_new_end p s = s"

definition onefifo_tick :: "kapi \<Rightarrow> task \<Rightarrow> onefifo_sys \<Rightarrow> onefifo_sys res" where
  "onefifo_tick api p s =
     res_bind (policy_metadata p s) (\<lambda>(a, fp).
       let fp1 = fp\<lparr>op_current_quantum_ns := op_current_quantum_ns fp + 1\<rparr>;
           s1 = put_proc a fp1 s
       in if mod_QUANTUM_NS (op_current_quantum_ns fp1) = 0
          then Inr (onefifo_enqueue_lock api fp1 IPANEMA_READY_TICK s1)
          else Inr s1)"

definition onefifo_yield :: "kapi \<Rightarrow> task \<Rightarrow> onefifo_sys \<Rightarrow> onefifo_sys res" where
  "onefifo_yield api p s =
     res_map (\<lambda>(a, fp). onefifo_enqueue_lock api fp IPANEMA_READY s) (policy_metadata p s)"

text \<open>\<open>this_cpu\<close> is \<open>smp_processor_id()\<close>.\<close>

definition onefifo_block :: "kapi \<Rightarrow> task \<Rightarrow> cpu \<Rightarrow> onefifo_sys \<Rightarrow> onefifo_sys res" where
  "onefifo_block api p this_cpu s =
     res_bind (policy_metadata p s) (\<lambda>(a, fp).
       let s1 = (if op_state fp \<noteq> state_code IPANEMA_RUNNING then s
                 else upd_core this_cpu (\<lambda>fc. fc\<lparr>oc_current := None\<rparr>) s);
           s2 = put_proc a (fp\<lparr>op_state := state_code IPANEMA_BLOCKED, op_rq := None\<rparr>) s1;
           s3 = LOCK_RQ s2;
           s4 = call_change_state api (op_task fp) IPANEMA_BLOCKED
                  (k_cpu (kern s3) (op_task fp)) None s3
       in Inr (UNLOCK_RQ s4))"

definition onefifo_unblock_prepare :: "kapi \<Rightarrow> task \<Rightarrow> onefifo_sys \<Rightarrow> (int \<times> onefifo_sys) res" where
  "onefifo_unblock_prepare api p s = onefifo_select_cpu api (k_cpu (kern s) p) s"

definition onefifo_unblock_place :: "kapi \<Rightarrow> task \<Rightarrow> onefifo_sys \<Rightarrow> onefifo_sys res" where
  "onefifo_unblock_place api p s =
     res_map (\<lambda>(a, fp). onefifo_enqueue_lock api fp IPANEMA_READY s) (policy_metadata p s)"

definition onefifo_unblock_end :: "task \<Rightarrow> onefifo_sys \<Rightarrow> onefifo_sys" where
  "onefifo_unblock_end p s = s"

definition onefifo_terminate :: "kapi \<Rightarrow> task \<Rightarrow> onefifo_sys \<Rightarrow> onefifo_sys res" where
  "onefifo_terminate api p s =
     res_bind (policy_metadata p s) (\<lambda>(a, fp).
       let fp1 = fp\<lparr>op_state := state_code IPANEMA_TERMINATED\<rparr>;
           s1 = LOCK_RQ (put_proc a fp1 s);
           s2 = call_change_state api (op_task fp1) IPANEMA_TERMINATED
                  (k_cpu (kern s1) (op_task fp1)) None s1;
           s3 = put_proc a (fp1\<lparr>op_rq := None\<rparr>) (UNLOCK_RQ s2)
       in Inr (kfree a s3))"

definition enqueue_running_task_fifo :: "kapi \<Rightarrow> task \<Rightarrow> cpu \<Rightarrow> onefifo_sys \<Rightarrow> onefifo_sys res" where
  "enqueue_running_task_fifo api nxt cpu s =
     res_bind (policy_metadata nxt s) (\<lambda>(a, fp).
       let s1 = put_proc a (fp\<lparr>op_state := state_code IPANEMA_RUNNING\<rparr>) s;
           s2 = upd_core cpu (\<lambda>fc. fc\<lparr>oc_current := Some a\<rparr>) s1
       in Inr (call_change_state api (op_task fp) IPANEMA_RUNNING cpu None s2))"

definition onefifo_schedule :: "kapi \<Rightarrow> cpu \<Rightarrow> onefifo_sys \<Rightarrow> onefifo_sys res" where
  "onefifo_schedule api cpu s =
     (let s1 = acquire (RqLock (LocalRq cpu)) s in
      case first_task api (kern s1) (LocalRq cpu) of
        Some nxt \<Rightarrow>
          Inr (release (RqLock (LocalRq cpu))
                 (call_change_state api nxt IPANEMA_RUNNING cpu None s1))
      | None \<Rightarrow>
          let s2 = LOCK_RQ (release (RqLock (LocalRq cpu)) s1) in
          case first_task api (kern s2) GlobalRq of
            None \<Rightarrow> Inr (UNLOCK_RQ s2)
          | Some nxt \<Rightarrow>
              if k_cpu (kern s2) nxt = cpu
              then res_map UNLOCK_RQ (enqueue_running_task_fifo api nxt cpu s2)
              else Inr (UNLOCK_RQ s2))"

definition onefifo_load_balance :: "cpu \<Rightarrow> onefifo_sys \<Rightarrow> onefifo_sys" where
  "onefifo_load_balance target s = s"

section \<open>The routine table\<close>

text \<open>The table names \<open>balancing_select\<close> twice; the second entry, \<open>fifo_load_balance\<close>, counts.\<close>

fun onefifo_routines :: "kapi \<Rightarrow> kevent \<Rightarrow> onefifo_sys \<Rightarrow> onefifo_sys res" where
  "onefifo_routines api (NewPrepare p flags al n) s =
     res_map snd (onefifo_new_prepare api p flags al s)"
| "onefifo_routines api (NewPlace p) s = onefifo_new_place api p s"
| "onefifo_routines api (NewEnd p) s = Inr (onefifo_new_end p s)"
| "onefifo_routines api (Tick p c now) s = onefifo_tick api p s"
| "onefifo_routines api (Yield p) s = onefifo_yield api p s"
| "onefifo_routines api (Block p c) s = onefifo_block api p c s"
| "onefifo_routines api (UnblockPrepare p flags n) s =
     res_map snd (onefifo_unblock_prepare api p s)"
| "onefifo_routines api (UnblockPlace p) s = onefifo_unblock_place api p s"
| "onefifo_routines api (UnblockEnd p) s = Inr (onefifo_unblock_end p s)"
| "onefifo_routines api (Terminate p) s = onefifo_terminate api p s"
| "onefifo_routines api (Schedule c now) s = onefifo_schedule api c s"
| "onefifo_routines api (CoreEntry c) s = onefifo_core_entry c s"
| "onefifo_routines api (CoreExit c) s = onefifo_core_exit c s"
| "onefifo_routines api (NewlyIdle c) s = Inr (onefifo_newly_idle api c s)"
| "onefifo_routines api (EnterIdle c) s = onefifo_enter_idle c s"
| "onefifo_routines api (ExitIdle c) s = onefifo_exit_idle c s"
| "onefifo_routines api (BalancingSelect c) s = Inr (onefifo_load_balance c s)"
| "onefifo_routines api (SetTaskCpu p c) s = Inr (set_task_cpu p c s)"

section \<open>Loading and unloading the module\<close>

definition onefifo_init :: int where
  "onefifo_init = 0"

definition onefifo_free_metadata :: "addr option \<Rightarrow> onefifo_sys \<Rightarrow> int \<times> onefifo_sys" where
  "onefifo_free_metadata policy_data s =
     (case policy_data of None \<Rightarrow> (0, s) | Some a \<Rightarrow> (0, kfree a s))"

definition onefifo_can_be_default :: int where
  "onefifo_can_be_default = 1"

definition onefifo_attach :: "task \<Rightarrow> string \<Rightarrow> bool" where
  "onefifo_attach p command = True"

definition onefifo_init_core :: "kapi \<Rightarrow> cpu \<Rightarrow> onefifo_sys \<Rightarrow> onefifo_sys" where
  "onefifo_init_core api cpu s =
     (let s1 = upd_core cpu (\<lambda>c. c\<lparr>oc_id := cpu, oc_state := IPANEMA_ACTIVE_CORE\<rparr>) s;
          s2 = s1\<lparr>o_online_cores := cpumask_set_cpu cpu (o_online_cores s1)\<rparr>;
          s3 = s2\<lparr>o_idle_cores := map_option (cpumask_set_cpu cpu) (o_idle_cores s2)\<rparr>
      in s3\<lparr>kern := init_rq api (LocalRq cpu) (kern s3)\<rparr>)"

definition onefifo_mod_init ::
    "kapi \<Rightarrow> cpu list \<Rightarrow> bool \<Rightarrow> bool \<Rightarrow> int \<Rightarrow> onefifo_sys \<Rightarrow> module \<Rightarrow>
     int \<times> onefifo_sys \<times> module" where
  "onefifo_mod_init api possible_cpus idle_ok policy_ok add_res s m =
     (let s1 = s\<lparr>kern := init_rq api GlobalRq (kern s)\<rparr>
      in if \<not> idle_ok then (- ENOMEM, s1\<lparr>o_idle_cores := None\<rparr>, m)
         else
           let s2 = s1\<lparr>o_idle_cores := Some {||}, o_online_cores := {||}\<rparr>;
               s3 = fold (onefifo_init_core api) possible_cpus s2
           in if \<not> policy_ok then (- ENOMEM, s3, m)
              else
                let m1 = m\<lparr>policy_allocated := True, policy_registered := (add_res = 0)\<rparr>;
                    m2 = (if add_res \<noteq> 0 then m1\<lparr>policy_allocated := False\<rparr> else m1);
                    m3 = m2\<lparr>proc_entry := True\<rparr>
                in (add_res, s3, m3))"

definition onefifo_exit :: "module \<Rightarrow> module" where
  "onefifo_exit m = m\<lparr>policy_registered := False, policy_allocated := False, proc_entry := False\<rparr>"

lemmas onefifo_defs =
  onefifo_upd_idle_def onefifo_core_entry_def onefifo_core_exit_def onefifo_newly_idle_def
  onefifo_enter_idle_def onefifo_exit_idle_def onefifo_select_cpu_def onefifo_enqueue_lock_def
  onefifo_new_prepare_def onefifo_new_place_def onefifo_new_end_def onefifo_tick_def
  onefifo_yield_def onefifo_block_def onefifo_unblock_prepare_def onefifo_unblock_place_def
  onefifo_unblock_end_def onefifo_terminate_def enqueue_running_task_fifo_def
  onefifo_schedule_def onefifo_load_balance_def mod_QUANTUM_NS_def NSEC_PER_MSEC_def

end
