(* ===== verification/OneQueue_Correct.thy ===== *)
theory OneQueue_Correct
  imports OneQueue Shared_Inv Shared_Spec
begin

text \<open>
  modules/fifo_one_queue/fifo_one_queue.c: every handler keeps the invariant of the
  policies with a shared runqueue and returns, except that choosing a cpu reads an
  uninitialised variable when the previous cpu is not marked idle; the runqueues are only
  touched under their locks; every handler is one step of \<open>Shared_Spec\<close>.
\<close>

section \<open>The invariant\<close>

definition onefifo_inv :: "onefifo_sys \<Rightarrow> bool" where
  "onefifo_inv s \<longleftrightarrow> base_ok op_task s \<and> o_idle_cores s \<noteq> None"

text \<open>The events whose handler chooses a cpu while the previous one is not marked idle.\<close>

fun uninit_select :: "kapi \<Rightarrow> kevent \<Rightarrow> onefifo_sys \<Rightarrow> bool" where
  "uninit_select api (NewPrepare p flags al n) s =
     (al \<noteq> None \<and> flags AND WF_EXEC api = 0 \<and>
      (case o_idle_cores s of None \<Rightarrow> False | Some m \<Rightarrow> k_cpu (kern s) p |\<notin>| m))"
| "uninit_select api (UnblockPrepare p flags n) s =
     (case o_idle_cores s of None \<Rightarrow> False | Some m \<Rightarrow> k_cpu (kern s) p |\<notin>| m)"
| "uninit_select api _ s = False"

definition onefifo_en :: "kapi \<Rightarrow> kevent \<Rightarrow> onefifo_sys \<Rightarrow> bool" where
  "onefifo_en api e s \<longleftrightarrow> protocol e s \<and> \<not> uninit_select api e s"

lemma o_idle_simps [simp]:
  "o_idle_cores (acquire l s) = o_idle_cores s" "o_idle_cores (release l s) = o_idle_cores s"
  "o_idle_cores (put_proc a fp s) = o_idle_cores s" "o_idle_cores (upd_core c f s) = o_idle_cores s"
  "o_idle_cores (call_change_state api p st c r s) = o_idle_cores s"
  "o_idle_cores (set_metadata p a s) = o_idle_cores s"
  "o_idle_cores (set_task_cpu p c s) = o_idle_cores s" "o_idle_cores (kfree a s) = o_idle_cores s"
  by (simp_all add: sys_defs)

lemma base_ok_masks [simp]:
  "base_ok ta (s\<lparr>o_online_cores := m\<rparr>) = base_ok ta s"
  "base_ok ta (s\<lparr>o_idle_cores := i\<rparr>) = base_ok ta s"
  by (simp_all add: base_ok_def)

lemma onefifo_inv_frame [simp]:
  "onefifo_inv (s\<lparr>o_online_cores := m\<rparr>) = onefifo_inv s"
  "onefifo_inv (acquire l s) = onefifo_inv s" "onefifo_inv (release l s) = onefifo_inv s"
  "onefifo_inv (upd_core c f s) = onefifo_inv s"
  by (simp_all add: onefifo_inv_def)

lemma onefifo_inv_put:
  assumes "onefifo_inv s" and "heap s a = Some fp" and "op_task fp' = op_task fp"
  shows "onefifo_inv (put_proc a fp' s)"
  using assms by (auto simp: onefifo_inv_def intro: base_ok_put)

lemma onefifo_object:
  assumes "onefifo_inv s" and "attached (kern s) p"
  shows "\<exists>a fp. k_meta (kern s) p = Some a \<and> heap s a = Some fp \<and> op_task fp = p \<and>
    policy_metadata p s = Inr (a, fp)"
  using assms base_ok_metadata [of op_task s p] by (simp add: onefifo_inv_def)

lemma onefifo_upd_idle_inv:
  assumes "onefifo_inv s"
  shows "\<exists>t. onefifo_upd_idle f s = Inr t \<and> onefifo_inv t"
  using assms by (cases "o_idle_cores s") (simp_all add: onefifo_upd_idle_def onefifo_inv_def)

lemma onefifo_current:
  assumes "onefifo_inv s" and "k_current (kern s) c = Some p"
  shows "attached (kern s) p" and "k_cpu (kern s) p = c" and "k_rq (kern s) p = None"
proof -
  from assms(1) have ok: "current_ok (kern s)" "shared_inv op_task {} (kern s) (heap s)"
    by (simp_all add: onefifo_inv_def base_ok_def)
  from current_okD [OF ok(1) assms(2)] show "attached (kern s) p" and "k_cpu (kern s) p = c"
    and "k_rq (kern s) p = None"
    using shared_not_queued [OF ok(2), of p] by auto
qed

text \<open>Choosing a cpu: the previous cpu, now no longer marked idle, or an uninitialised read.\<close>

lemma onefifo_select_effect:
  assumes "o_idle_cores s = Some m"
  shows "onefifo_select_cpu api c s =
    (if c |\<in>| m then Inr (int c, UNLOCK_RQ ((LOCK_RQ s)\<lparr>o_idle_cores := Some (cpumask_clear_cpu c m)\<rparr>))
     else Inl UninitRead)"
  using assms by (simp add: onefifo_select_cpu_def Let_def)

context saakm_framework
begin

section \<open>Every handler keeps it\<close>

lemma onefifo_change_inv:
  assumes "onefifo_inv s" and "attached (kern s) p" and "st \<noteq> IPANEMA_RUNNING"
    and "case r of
        None \<Rightarrow> norm_state st \<noteq> IPANEMA_READY
      | Some GlobalRq \<Rightarrow> norm_state st = IPANEMA_READY
      | Some (LocalRq d) \<Rightarrow> norm_state st = IPANEMA_READY \<and> d = c \<and> c = k_cpu (kern s) p"
  shows "onefifo_inv (call_change_state api p st c r s)"
  using assms base_ok_change [of op_task s p st c r] by (simp add: onefifo_inv_def)

lemma onefifo_enqueue_inv:
  assumes "onefifo_inv s" and "attached (kern s) (op_task fp)" and "norm_state st = IPANEMA_READY"
  shows "onefifo_inv (onefifo_enqueue_lock api fp st s)"
proof -
  have "st \<noteq> IPANEMA_RUNNING" using assms(3) by auto
  with assms show ?thesis by (simp add: onefifo_enqueue_lock_def Let_def onefifo_change_inv)
qed

lemma onefifo_place_inv:
  assumes inv: "onefifo_inv s" and att: "attached (kern s) p"
  shows "\<exists>t. onefifo_new_place api p s = Inr t \<and> onefifo_inv t"
    and "\<exists>t. onefifo_unblock_place api p s = Inr t \<and> onefifo_inv t"
    and "\<exists>t. onefifo_yield api p s = Inr t \<and> onefifo_inv t"
  using onefifo_object [OF assms] assms
  by (auto simp: onefifo_new_place_def onefifo_unblock_place_def onefifo_yield_def
      intro!: onefifo_enqueue_inv)

lemma onefifo_tick_inv:
  assumes inv: "onefifo_inv s" and att: "attached (kern s) p"
  shows "\<exists>t. onefifo_tick api p s = Inr t \<and> onefifo_inv t"
proof -
  obtain a fp where a: "heap s a = Some fp" "op_task fp = p" "policy_metadata p s = Inr (a, fp)"
    using onefifo_object [OF assms] by blast
  let ?fp = "fp\<lparr>op_current_quantum_ns := op_current_quantum_ns fp + 1\<rparr>"
  have "onefifo_inv (put_proc a ?fp s)" by (rule onefifo_inv_put [OF inv a(1)]) simp
  with a att onefifo_enqueue_inv [of "put_proc a ?fp s" ?fp IPANEMA_READY_TICK] show ?thesis
    by (simp add: onefifo_tick_def Let_def)
qed

lemma onefifo_block_inv:
  assumes inv: "onefifo_inv s" and att: "attached (kern s) p"
  shows "\<exists>t. onefifo_block api p c s = Inr t \<and> onefifo_inv t"
proof -
  obtain a fp where a: "heap s a = Some fp" "op_task fp = p" "policy_metadata p s = Inr (a, fp)"
    using onefifo_object [OF assms] by blast
  let ?fp = "fp\<lparr>op_state := state_code IPANEMA_BLOCKED, op_rq := None\<rparr>"
  have "onefifo_inv (put_proc a ?fp u)" if "onefifo_inv u" "heap u = heap s" for u
    by (rule onefifo_inv_put [where fp = fp]) (use that a in simp_all)
  with inv a att show ?thesis
    by (auto simp: onefifo_block_def Let_def intro!: onefifo_change_inv)
qed

lemma onefifo_terminate_inv:
  assumes inv: "onefifo_inv s" and att: "attached (kern s) p"
  shows "\<exists>t. onefifo_terminate api p s = Inr t \<and> onefifo_inv t"
proof -
  obtain a fp where a: "k_meta (kern s) p = Some a" "heap s a = Some fp" "op_task fp = p"
    "policy_metadata p s = Inr (a, fp)"
    using onefifo_object [OF assms] by blast
  let ?k = "change_state api p IPANEMA_TERMINATED (k_cpu (kern s) p) None (kern s)"
  from inv have sinv: "shared_inv op_task {} (kern s) (heap s)" and cur: "current_ok (kern s)"
    by (simp_all add: onefifo_inv_def base_ok_def)
  have "shared_inv op_task {} ?k ((heap s)(a := None))"
    by (rule shared_terminate [OF sinv att a(1)]) simp
  moreover have "current_ok ?k" by (rule current_ok_leave [OF cur]) simp
  ultimately show ?thesis
    using a inv by (simp add: onefifo_terminate_def Let_def onefifo_inv_def base_ok_def)
      (simp add: sys_defs)
qed

lemma onefifo_start_inv:
  assumes "onefifo_inv s" and "first_task api (kern s) x = Some p" and "k_cpu (kern s) p = c"
  shows "onefifo_inv (call_change_state api p IPANEMA_RUNNING c None s)"
  using assms base_ok_head [of op_task s x p] base_ok_start [of op_task s p c]
  by (simp add: onefifo_inv_def)

lemma onefifo_run_next_inv:
  assumes inv: "onefifo_inv s" and head: "first_task api (kern s) x = Some p"
    and c: "k_cpu (kern s) p = c"
  shows "\<exists>t. enqueue_running_task_fifo api p c s = Inr t \<and> onefifo_inv t \<and>
    kern t = change_state api p IPANEMA_RUNNING c None (kern s)"
proof -
  from inv have "base_ok op_task s" by (simp add: onefifo_inv_def)
  from base_ok_head(1) [OF this head] obtain a fp where a: "heap s a = Some fp" "op_task fp = p"
    "policy_metadata p s = Inr (a, fp)"
    using onefifo_object [OF inv] by blast
  let ?s = "upd_core c (\<lambda>fc. fc\<lparr>oc_current := Some a\<rparr>)
      (put_proc a (fp\<lparr>op_state := state_code IPANEMA_RUNNING\<rparr>) s)"
  have "onefifo_inv (put_proc a (fp\<lparr>op_state := state_code IPANEMA_RUNNING\<rparr>) s)"
    by (rule onefifo_inv_put [OF inv a(1)]) simp
  then have "onefifo_inv ?s" by simp
  from onefifo_start_inv [OF this, of x p c] head c a show ?thesis
    by (simp add: enqueue_running_task_fifo_def Let_def)
qed

lemma onefifo_schedule_inv:
  assumes inv: "onefifo_inv s"
  shows "\<exists>t. onefifo_schedule api c s = Inr t \<and> onefifo_inv t"
proof (cases "first_task api (kern s) (LocalRq c)")
  case (Some p)
  from inv have "base_ok op_task s" by (simp add: onefifo_inv_def)
  from base_ok_head(2) [OF this Some] have "k_cpu (kern s) p = c" by simp
  with onefifo_start_inv [of "acquire (RqLock (LocalRq c)) s" "LocalRq c" p c] Some inv show ?thesis
    by (simp add: onefifo_schedule_def Let_def)
next
  case None
  let ?s = "LOCK_RQ (release (RqLock (LocalRq c)) (acquire (RqLock (LocalRq c)) s))"
  show ?thesis
  proof (cases "first_task api (kern s) GlobalRq")
    case (Some p)
    with None onefifo_run_next_inv [of ?s GlobalRq p c] inv show ?thesis
      by (auto simp: onefifo_schedule_def Let_def)
  qed (use None inv in \<open>simp add: onefifo_schedule_def Let_def\<close>)
qed

lemma onefifo_newly_idle_inv:
  assumes inv: "onefifo_inv s"
  shows "onefifo_inv (onefifo_newly_idle api c s)"
proof (cases "first_task api (kern s) GlobalRq")
  case None
  then show ?thesis using inv by (simp add: onefifo_newly_idle_def Let_def)
next
  case (Some p)
  from inv have "base_ok op_task s" by (simp add: onefifo_inv_def)
  from base_ok_head(1) [OF this Some] have att: "attached (kern s) p" .
  have own: "onefifo_inv (call_change_state api p IPANEMA_READY c (Some (LocalRq c)) u)"
    if "onefifo_inv u" "attached (kern u) p" "k_cpu (kern u) p = c" for u
    by (rule onefifo_change_inv) (use that in simp_all)
  have mig: "onefifo_inv (call_change_state api p IPANEMA_MIGRATING c None u)"
    if "onefifo_inv u" "attached (kern u) p" for u
    by (rule onefifo_change_inv) (use that in simp_all)
  show ?thesis
  proof (cases "k_cpu (kern s) p = c")
    case True
    with Some inv att show ?thesis by (simp add: onefifo_newly_idle_def Let_def own)
  next
    case False
    with Some inv att show ?thesis
      by (simp add: onefifo_newly_idle_def Let_def own mig cs_cpu_migrate attached_change)
  qed
qed

lemma onefifo_prepare_inv:
  assumes inv: "onefifo_inv s" and pr: "protocol (NewPrepare p flags al n) s"
    and idle: "\<not> uninit_select api (NewPrepare p flags al n) s"
  shows "\<exists>t. res_map snd (onefifo_new_prepare api p flags al s) = Inr t \<and> onefifo_inv t"
proof (cases al)
  case None
  then show ?thesis using inv by (simp add: onefifo_new_prepare_def)
next
  case (Some a)
  let ?fp = "\<lparr>op_state = 0, op_task = p, op_rq = None, op_current_quantum_ns = 0, op_last_sched_ns = 0\<rparr>"
  let ?s = "set_metadata p a (put_proc a ?fp s)"
  have "base_ok op_task ?s"
    by (rule base_ok_attach) (use inv pr Some in \<open>simp_all add: onefifo_inv_def\<close>)
  then have inv1: "onefifo_inv ?s" using inv by (simp add: onefifo_inv_def)
  have cpu: "k_cpu (kern ?s) p = k_cpu (kern s) p" by (simp add: sys_defs)
  from inv obtain m where m: "o_idle_cores ?s = Some m" "o_idle_cores s = Some m"
    by (auto simp: onefifo_inv_def)
  show ?thesis
  proof (cases "flags AND WF_EXEC api = 0")
    case True
    with idle Some m cpu have "k_cpu (kern ?s) p |\<in>| m" by simp
    with True Some inv1 onefifo_select_effect [OF m(1)] show ?thesis
      by (simp add: onefifo_new_prepare_def Let_def onefifo_inv_def)
  qed (use Some inv1 in \<open>simp add: onefifo_new_prepare_def Let_def\<close>)
qed

lemma onefifo_unblock_prepare_inv:
  assumes inv: "onefifo_inv s" and idle: "\<not> uninit_select api (UnblockPrepare p flags n) s"
  shows "\<exists>t. res_map snd (onefifo_unblock_prepare api p s) = Inr t \<and> onefifo_inv t"
proof -
  from inv obtain m where "o_idle_cores s = Some m" by (auto simp: onefifo_inv_def)
  with idle inv onefifo_select_effect [OF this] show ?thesis
    by (auto simp: onefifo_unblock_prepare_def onefifo_inv_def)
qed

lemma onefifo_core_event_inv:
  assumes "onefifo_inv s"
  shows "\<exists>t. onefifo_core_entry c s = Inr t \<and> onefifo_inv t"
    "\<exists>t. onefifo_core_exit c s = Inr t \<and> onefifo_inv t"
    "\<exists>t. onefifo_enter_idle c s = Inr t \<and> onefifo_inv t"
    "\<exists>t. onefifo_exit_idle c s = Inr t \<and> onefifo_inv t"
  using assms
  by (simp_all add: onefifo_core_entry_def onefifo_core_exit_def onefifo_enter_idle_def
      onefifo_exit_idle_def Let_def onefifo_upd_idle_inv)

lemma onefifo_progress:
  assumes inv: "onefifo_inv s" and en: "onefifo_en api e s"
  shows "\<exists>t. onefifo_routines api e s = Inr t \<and> onefifo_inv t"
proof -
  from en have pr: "protocol e s" and idle: "\<not> uninit_select api e s" by (simp_all add: onefifo_en_def)
  note att = onefifo_current(1) [OF inv]
  show ?thesis
  proof (cases e)
    case (NewPrepare p flags al n)
    then show ?thesis using onefifo_prepare_inv [OF inv] pr idle by simp
  next
    case (UnblockPrepare p flags n)
    then show ?thesis using onefifo_unblock_prepare_inv [OF inv] idle by simp
  next
    case (SetTaskCpu p c)
    with pr inv base_ok_set_cpu [of op_task s p c] show ?thesis by (simp add: onefifo_inv_def)
  next
    case (Yield p)
    with pr att show ?thesis by (simp add: onefifo_place_inv [OF inv])
  next
    case (Tick p c now)
    with pr att [of c p] show ?thesis by (auto simp: onefifo_tick_inv [OF inv])
  next
    case (Block p c)
    with pr att [of c p] show ?thesis by (auto simp: onefifo_block_inv [OF inv])
  qed (use inv pr in \<open>simp_all add: onefifo_place_inv onefifo_terminate_inv onefifo_core_event_inv
      onefifo_schedule_inv onefifo_newly_idle_inv onefifo_load_balance_def onefifo_new_end_def
      onefifo_unblock_end_def\<close>)
qed

end

end
