(* ===== verification/OneQueue_Refine.thy ===== *)
theory OneQueue_Refine
  imports OneQueue_Correct
begin

text \<open>
  modules/fifo_one_queue/fifo_one_queue.c implements the shared queue of \<open>Shared_Spec\<close>, and
  changes every runqueue under its own lock: the interfaces \<open>saakm_policy\<close>,
  \<open>guarded_policy\<close> and \<open>refining_policy\<close> on the model.
\<close>

section \<open>Locks\<close>

sublocale saakm_framework \<subseteq> onefifo: saakm_policy "onefifo_routines api" "onefifo_en api" onefifo_inv
  by unfold_locales (rule onefifo_progress)

context saakm_framework
begin

lemma onefifo_segment:
  assumes inv: "onefifo_inv s" and en: "onefifo_en api e s"
    and t: "onefifo_routines api e s = Inr t"
  shows "\<exists>seg. trace t = trace s @ seg \<and> lock_run [] seg = Some [] \<and>
    touches_guarded GlobalRq (RqLock GlobalRq) [] seg \<and>
    (not_terminate e \<longrightarrow> touches_guarded (LocalRq c) (RqLock (LocalRq c)) [] seg)"
proof -
  from en have pr: "protocol e s" by (simp add: onefifo_en_def)
  from inv have base: "base_ok op_task s" by (simp add: onefifo_inv_def)
  then have sinv: "shared_inv op_task {} (kern s) (heap s)" by (simp add: base_ok_def)
  note out = onefifo_current(3) [OF inv] and head = base_ok_head(4) [OF base]
  have none: "k_rq (kern s) p = None" if "norm_state (k_state (kern s) p) \<noteq> IPANEMA_READY" for p
    by (rule shared_not_queued [OF sinv that])
  have task: "op_task fp = p" if "policy_metadata p s = Inr (a, fp)" "attached (kern s) p" for p a fp
    using onefifo_object [OF inv that(2)] that(1) by auto
  have htask: "op_task fp = p"
    if "first_task api (kern s) x = Some p" "k_meta (kern s) p = Some a" "heap s a = Some fp" for x p a fp
    using onefifo_object [OF inv base_ok_head(1) [OF base that(1)]] that by auto
  show ?thesis
  proof (cases e)
    case (NewPlace p)
    with t pr none [of p] task [of p] show ?thesis
      by (auto simp: onefifo_new_place_def onefifo_enqueue_lock_def res_map_eq_Inr Let_def)
  next
    case (UnblockPlace p)
    with t pr none [of p] task [of p] show ?thesis
      by (auto simp: onefifo_unblock_place_def onefifo_enqueue_lock_def res_map_eq_Inr Let_def)
  next
    case (Yield p)
    with t pr out [of _ p] onefifo_current(1) [OF inv, of _ p] task [of p] show ?thesis
      by (auto simp: onefifo_yield_def onefifo_enqueue_lock_def res_map_eq_Inr Let_def)
  next
    case (Tick p d now)
    with t pr out [of d p] onefifo_current(1) [OF inv, of d p] task [of p] show ?thesis
      by (auto simp: onefifo_tick_def onefifo_enqueue_lock_def res_bind_eq_Inr Let_def
          split: if_splits)
  next
    case (Block p d)
    with t pr out [of d p] onefifo_current(1) [OF inv, of d p] task [of p] show ?thesis
      by (auto simp: onefifo_block_def res_bind_eq_Inr Let_def split: if_splits)
  next
    case (Schedule d now)
    with t head htask show ?thesis
      by (fastforce simp: onefifo_schedule_def enqueue_running_task_fifo_def res_bind_eq_Inr
          res_map_eq_Inr policy_metadata_Inr Let_def split: option.splits if_splits)
  next
    case (NewlyIdle d)
    with t head show ?thesis
      by (auto simp: onefifo_newly_idle_def Let_def cs_rq split: option.splits if_splits)
  next
    case (Terminate p)
    with t pr task [of p] show ?thesis
      by (auto simp: onefifo_terminate_def res_bind_eq_Inr Let_def kfree_def)
  qed (use t in \<open>auto simp: onefifo_new_prepare_def onefifo_unblock_prepare_def
      onefifo_select_cpu_def onefifo_new_end_def onefifo_unblock_end_def onefifo_core_entry_def
      onefifo_core_exit_def onefifo_enter_idle_def onefifo_exit_idle_def onefifo_upd_idle_def
      onefifo_load_balance_def Let_def res_map_eq_Inr split: option.splits if_splits\<close>)
qed

end

text \<open>The shared runqueue is guarded in every event, a core's own in all but terminations.\<close>

sublocale saakm_framework \<subseteq> onefifo_lock: guarded_policy "onefifo_routines api" "onefifo_en api"
    onefifo_inv trace "\<lambda>e. True" GlobalRq "RqLock GlobalRq"
  by unfold_locales (use onefifo_segment in blast)

sublocale saakm_framework \<subseteq> onefifo_own: guarded_policy "onefifo_routines api" "onefifo_en api"
    onefifo_inv trace not_terminate "LocalRq c" "RqLock (LocalRq c)" for c
  by unfold_locales (use onefifo_segment in blast)

interpretation ref_onefifo: guarded_policy "onefifo_routines ref_api" "onefifo_en ref_api"
    onefifo_inv trace "\<lambda>e. True" GlobalRq "RqLock GlobalRq"
  by (rule ref.onefifo_lock.guarded_policy_axioms)

section \<open>The abstract step of an event\<close>

definition onefifo_expired :: "task \<Rightarrow> onefifo_sys \<Rightarrow> bool" where
  "onefifo_expired p s =
     (case policy_metadata p s of
        Inl _ \<Rightarrow> False
      | Inr (a, fp) \<Rightarrow> mod_QUANTUM_NS (op_current_quantum_ns fp + 1) = 0)"

definition onefifo_elect :: "cpu \<Rightarrow> kernel \<Rightarrow> sop" where
  "onefifo_elect c k =
     (if k_queue k (LocalRq c) \<noteq> [] then ElectOwn c
      else case k_queue k GlobalRq of
        [] \<Rightarrow> Idle
      | p # _ \<Rightarrow> if k_cpu k p = c then ElectShared c else Idle)"

fun onefifo_op :: "kevent \<Rightarrow> onefifo_sys \<Rightarrow> sop" where
  "onefifo_op (NewPlace p) s = Enter p"
| "onefifo_op (UnblockPlace p) s = Enter p"
| "onefifo_op (Tick p c now) s = (if onefifo_expired p s then Enter p else Idle)"
| "onefifo_op (Yield p) s = Enter p"
| "onefifo_op (Block p c) s = Stop p"
| "onefifo_op (Terminate p) s = Drop p"
| "onefifo_op (Schedule c now) s = onefifo_elect c (kern s)"
| "onefifo_op (NewlyIdle c) s = Pull c"
| "onefifo_op _ s = Idle"

lemma onefifo_place_kern:
  assumes "policy_metadata p s = Inr (a, fp)" and "op_task fp = p"
  shows "onefifo_new_place api p s = Inr t \<Longrightarrow>
      kern t = change_state api p IPANEMA_READY (k_cpu (kern s) p) (Some GlobalRq) (kern s)"
    and "onefifo_unblock_place api p s = Inr t \<Longrightarrow>
      kern t = change_state api p IPANEMA_READY (k_cpu (kern s) p) (Some GlobalRq) (kern s)"
    and "onefifo_yield api p s = Inr t \<Longrightarrow>
      kern t = change_state api p IPANEMA_READY (k_cpu (kern s) p) (Some GlobalRq) (kern s)"
    and "onefifo_block api p c s = Inr t \<Longrightarrow>
      kern t = change_state api p IPANEMA_BLOCKED (k_cpu (kern s) p) None (kern s)"
    and "onefifo_terminate api p s = Inr t \<Longrightarrow>
      kern t = change_state api p IPANEMA_TERMINATED (k_cpu (kern s) p) None (kern s)"
  using assms
  by (auto simp: onefifo_new_place_def onefifo_unblock_place_def onefifo_yield_def
      onefifo_block_def onefifo_terminate_def onefifo_enqueue_lock_def Let_def)

lemma onefifo_tick_kern:
  assumes "policy_metadata p s = Inr (a, fp)" and "op_task fp = p"
    and "onefifo_tick api p s = Inr t"
  shows "kern t = (if onefifo_expired p s
    then change_state api p IPANEMA_READY_TICK (k_cpu (kern s) p) (Some GlobalRq) (kern s)
    else kern s)"
  using assms
  by (auto simp: onefifo_tick_def onefifo_expired_def onefifo_enqueue_lock_def Let_def
      split: if_splits)

context saakm_framework
begin

lemma onefifo_schedule_kern:
  assumes inv: "onefifo_inv s" and t: "onefifo_schedule api c s = Inr t"
  shows "kern t = (case k_queue (kern s) (LocalRq c) of
      p # _ \<Rightarrow> change_state api p IPANEMA_RUNNING c None (kern s)
    | [] \<Rightarrow> (case k_queue (kern s) GlobalRq of
        [] \<Rightarrow> kern s
      | p # _ \<Rightarrow> if k_cpu (kern s) p = c
               then change_state api p IPANEMA_RUNNING c None (kern s) else kern s))"
proof -
  from inv have base: "base_ok op_task s" by (simp add: onefifo_inv_def)
  have htask: "op_task fp = p"
    if "k_queue (kern s) x = p # ps" "k_meta (kern s) p = Some a" "heap s a = Some fp" for x p ps a fp
  proof -
    have "first_task api (kern s) x = Some p" using that by (simp add: first_task)
    from onefifo_object [OF inv base_ok_head(1) [OF base this]] that show ?thesis by auto
  qed
  show ?thesis
    using t htask
    by (auto simp: onefifo_schedule_def enqueue_running_task_fifo_def first_task res_bind_eq_Inr
        res_map_eq_Inr policy_metadata_Inr Let_def split: list.splits if_splits)
qed

lemma abs_onefifo_pull:
  assumes inv: "onefifo_inv s"
  shows "abs_shared (kern (onefifo_newly_idle api c s)) = s_step (Pull c) (abs_shared (kern s))"
proof (cases "k_queue (kern s) GlobalRq")
  case Nil
  then show ?thesis by (simp add: onefifo_newly_idle_def first_task Let_def)
next
  case (Cons p ps)
  from inv have base: "base_ok op_task s" by (simp add: onefifo_inv_def)
  then have wf: "kernel_wf (kern s)" and cur: "current_ok (kern s)"
    by (auto simp: base_ok_def dest: shared_inv_wf)
  have head: "first_task api (kern s) GlobalRq = Some p" using Cons by (simp add: first_task)
  have notcur: "k_current (kern s) d \<noteq> Some p" for d
    using current_okD(1) [OF cur, of d p] base_ok_head(3) [OF base head] by auto
  have rq: "k_rq (kern s) p = Some GlobalRq" by (rule base_ok_head(4) [OF base head])
  let ?m = "change_state api p IPANEMA_MIGRATING c None (kern s)"
  have wfm: "kernel_wf ?m" by (rule cs_wf [OF wf])
  have qm: "k_queue ?m = (k_queue (kern s))(GlobalRq := ps)"
  proof
    fix x
    show "k_queue ?m x = ((k_queue (kern s))(GlobalRq := ps)) x"
      using cs_dequeue_head [OF wf Cons] cs_queue_other [OF wf, of p x None] rq by simp
  qed
  have km: "k_current ?m = k_current (kern s)" "k_rq ?m p = None"
    using notcur by (auto simp: cs_current_other cs_rq fun_eq_iff)
  have off: "off_core p (k_current (kern s)) = k_current (kern s)"
    using notcur by (auto simp: off_core_def fun_eq_iff)
  have "abs_shared (change_state api p IPANEMA_READY c (Some (LocalRq c)) ?m) =
      s_step (Keep p c) (abs_shared ?m)"
    by (rule abs_keep [OF wfm km(2)]) simp
  also have "\<dots> = s_step (Pull c) (abs_shared (kern s))"
    using Cons off by (simp add: abs_shared_def qm km)
  finally have mig: "abs_shared (change_state api p IPANEMA_READY c (Some (LocalRq c)) ?m) =
      s_step (Pull c) (abs_shared (kern s))" .
  have "abs_shared (change_state api p IPANEMA_READY c (Some (LocalRq c)) (kern s)) =
      s_step (Pull c) (abs_shared (kern s))"
    by (rule abs_pull [OF wf Cons notcur]) simp
  with mig head show ?thesis
    by (simp add: onefifo_newly_idle_def Let_def del: s_step.simps)
qed

lemma onefifo_step_refines:
  assumes inv: "onefifo_inv s" and en: "onefifo_en api e s"
    and t: "onefifo_routines api e s = Inr t"
  shows "abs_shared (kern t) = s_step (onefifo_op e s) (abs_shared (kern s))"
proof -
  from en have pr: "protocol e s" by (simp add: onefifo_en_def)
  from inv have sinv: "shared_inv op_task {} (kern s) (heap s)"
    by (simp add: onefifo_inv_def base_ok_def)
  then have wf: "kernel_wf (kern s)" by (rule shared_inv_wf)
  have out: "k_rq (kern s) p = None" if "norm_state (k_state (kern s) p) \<noteq> IPANEMA_READY" for p
    by (rule shared_not_queued [OF sinv that])
  note cur = onefifo_current [OF inv]
  have obj: "\<exists>a fp. policy_metadata p s = Inr (a, fp) \<and> op_task fp = p" if "attached (kern s) p" for p
    using onefifo_object [OF inv that] by blast
  have enter: "abs_shared (change_state api p st c (Some GlobalRq) (kern s)) =
      s_step (Enter p) (abs_shared (kern s))" if "k_rq (kern s) p = None" "st \<noteq> IPANEMA_RUNNING" for p st c
    by (rule abs_enter [OF wf that])
  have stop: "abs_shared (change_state api p IPANEMA_BLOCKED c None (kern s)) =
      s_step (Stop p) (abs_shared (kern s))" if "k_rq (kern s) p = None" for p c
    by (rule abs_stop [OF wf that]) simp
  show ?thesis
  proof (cases e)
    case (NewPrepare p flags al n)
    with t show ?thesis
      by (auto simp: onefifo_new_prepare_def onefifo_select_cpu_def Let_def abs_shared_def
          res_map_eq_Inr set_metadata_def split: option.splits if_splits)
  next
    case (Tick p c now)
    with pr have run: "k_current (kern s) c = Some p" by auto
    obtain a fp where m: "policy_metadata p s = Inr (a, fp)" "op_task fp = p"
      using obj [OF cur(1) [OF run]] by blast
    from Tick t have "onefifo_tick api p s = Inr t" by simp
    from onefifo_tick_kern [OF m this] Tick cur(3) [OF run] show ?thesis by (simp add: enter)
  next
    case (Schedule c now)
    with t have "onefifo_schedule api c s = Inr t" by simp
    from onefifo_schedule_kern [OF inv this] Schedule show ?thesis
      by (auto simp: onefifo_elect_def abs_elect_own [OF wf] abs_elect_shared [OF wf]
          split: list.splits)
  next
    case (NewlyIdle c)
    with t abs_onefifo_pull [OF inv, of c] show ?thesis by (auto simp del: s_step.simps)
  next
    case (NewPlace p)
    with pr obj [of p] out [of p] t show ?thesis by (auto dest: onefifo_place_kern(1) simp: enter)
  next
    case (UnblockPlace p)
    with pr obj [of p] out [of p] t show ?thesis by (auto dest: onefifo_place_kern(2) simp: enter)
  next
    case (Yield p)
    with pr have run: "k_current (kern s) (k_cpu (kern s) p) = Some p" by simp
    from obj [OF cur(1) [OF run]] Yield t cur(3) [OF run] show ?thesis
      by (auto dest: onefifo_place_kern(3) simp: enter)
  next
    case (Block p c)
    with pr have run: "k_current (kern s) c = Some p" by auto
    from obj [OF cur(1) [OF run]] Block t cur(3) [OF run] show ?thesis
      by (auto dest: onefifo_place_kern(4) simp: stop)
  next
    case (Terminate p)
    with pr obj [of p] t abs_drop [OF wf, of IPANEMA_TERMINATED p] show ?thesis
      by (auto dest: onefifo_place_kern(5))
  qed (use t in \<open>auto simp: onefifo_core_entry_def onefifo_core_exit_def onefifo_enter_idle_def
      onefifo_exit_idle_def onefifo_upd_idle_def onefifo_new_end_def onefifo_unblock_end_def
      onefifo_unblock_prepare_def onefifo_select_cpu_def onefifo_load_balance_def set_task_cpu_def
      res_map_eq_Inr abs_shared_def Let_def split: option.splits if_splits\<close>)
qed

end

abbreviation onefifo_ops :: "kapi \<Rightarrow> kevent list \<Rightarrow> onefifo_sys \<Rightarrow> sop list" where
  "onefifo_ops api \<equiv> ops_of (onefifo_routines api) onefifo_op"

sublocale saakm_framework \<subseteq> onefifo_ref: refining_policy "onefifo_routines api" "onefifo_en api"
    onefifo_inv "\<lambda>s. abs_shared (kern s)" onefifo_op s_step
  by unfold_locales (rule onefifo_step_refines)

interpretation ref_onefifo_ref: refining_policy "onefifo_routines ref_api" "onefifo_en ref_api"
    onefifo_inv "\<lambda>s. abs_shared (kern s)" onefifo_op s_step
  by (rule ref.onefifo_ref.refining_policy_axioms)

lemma onefifo_op_drop: "not_terminate e \<Longrightarrow> \<not> is_drop (onefifo_op e s)"
  by (cases "(e, s)" rule: onefifo_op.cases) (auto simp: onefifo_elect_def split: list.splits)

lemma onefifo_ops_drop:
  "list_all not_terminate es \<Longrightarrow> list_all (\<lambda>op. \<not> is_drop op) (onefifo_ops api es s)"
  by (induction es arbitrary: s) (auto simp: onefifo_op_drop split: sum.splits)

context saakm_framework
begin

lemma onefifo_run_refines:
  "onefifo_inv s \<Longrightarrow> admissible (onefifo_routines api) (onefifo_en api) es s \<Longrightarrow>
    \<exists>t. run (onefifo_routines api) es s = Inr t \<and> onefifo_inv t \<and>
      abs_shared (kern t) = fold s_step (onefifo_ops api es s) (abs_shared (kern s))"
  by (rule onefifo_ref.run_refines)

lemma onefifo_reachable_inv:
  "reachable (onefifo_routines api) (onefifo_en api) s t \<Longrightarrow> onefifo_inv s \<Longrightarrow> onefifo_inv t"
  by (rule onefifo.reachable_inv)

lemma onefifo_run_guarded:
  "onefifo_inv s \<Longrightarrow> admissible (onefifo_routines api) (onefifo_en api) es s \<Longrightarrow>
    run (onefifo_routines api) es s = Inr t \<Longrightarrow>
    \<exists>seg. trace t = trace s @ seg \<and> lock_run [] seg = Some [] \<and>
      touches_guarded GlobalRq (RqLock GlobalRq) [] seg"
  by (rule onefifo_lock.run_guarded) (simp_all add: list_all_iff)

lemma onefifo_run_own_guarded:
  "onefifo_inv s \<Longrightarrow> admissible (onefifo_routines api) (onefifo_en api) es s \<Longrightarrow>
    list_all not_terminate es \<Longrightarrow> run (onefifo_routines api) es s = Inr t \<Longrightarrow>
    \<exists>seg. trace t = trace s @ seg \<and> lock_run [] seg = Some [] \<and>
      touches_guarded (LocalRq c) (RqLock (LocalRq c)) [] seg"
  by (rule onefifo_own.run_guarded)

end

end
