(* ===== verification/OneQueue_Props.thy ===== *)
theory OneQueue_Props
  imports OneQueue_Refine
begin

text \<open>
  The properties of modules/fifo_one_queue/fifo_one_queue.c: the one fault its handlers
  have, conservation of threads, the order and the locks of the runqueues, the tick that
  counts ticks, and the pointer to the running object.
\<close>

section \<open>Loading\<close>

lemma onefifo_init_core_simps:
  "kern (onefifo_init_core api cpu s) = init_rq api (LocalRq cpu) (kern s)"
  "o_idle_cores (onefifo_init_core api cpu s) = map_option (cpumask_set_cpu cpu) (o_idle_cores s)"
  by (simp_all add: onefifo_init_core_def Let_def)

lemma onefifo_init_idle:
  "o_idle_cores s = Some m \<Longrightarrow>
    o_idle_cores (fold (onefifo_init_core api) cpus s) = Some (fset_of_list cpus |\<union>| m)"
  by (induction cpus arbitrary: s m) (auto simp: onefifo_init_core_simps)

context saakm_framework
begin

lemma onefifo_init_inv:
  assumes "fresh_kernel (kern s)"
  shows "onefifo_inv (fst (snd (onefifo_mod_init api cpus True ok res s m)))"
proof -
  let ?s = "s\<lparr>kern := init_rq api GlobalRq (kern s), o_idle_cores := Some {||}, o_online_cores := {||}\<rparr>"
  have "fresh_kernel (kern (fold (onefifo_init_core api) cpus u))" if "fresh_kernel (kern u)" for u
    using that by (induction cpus arbitrary: u) (simp_all add: onefifo_init_core_simps init_rq_fresh)
  then have "base_ok op_task (fold (onefifo_init_core api) cpus ?s)"
    by (rule fresh_base_ok) (simp add: assms init_rq_fresh)
  then have "onefifo_inv (fold (onefifo_init_core api) cpus ?s)"
    using onefifo_init_idle [of ?s "{||}"] by (simp add: onefifo_inv_def)
  then show ?thesis by (simp add: onefifo_mod_init_def Let_def)
qed

lemma onefifo_pull_and_elect:
  assumes inv: "onefifo_inv s"
    and work: "k_queue (kern s) (LocalRq c) @ k_queue (kern s) GlobalRq = p # ps"
  shows "\<exists>t. run (onefifo_routines api) [NewlyIdle c, Schedule c now] s = Inr t \<and> onefifo_inv t \<and>
    k_current (kern t) c = Some p"
proof -
  let ?e = "NewlyIdle c" let ?f = "Schedule c now"
  have en: "onefifo_en api ?e s" "onefifo_en api ?f u" for u by (simp_all add: onefifo_en_def)
  obtain u where u: "onefifo_routines api ?e s = Inr u" "onefifo_inv u"
    using onefifo_progress [OF inv en(1)] by blast
  obtain t where t: "onefifo_routines api ?f u = Inr t" "onefifo_inv t"
    using onefifo_progress [OF u(2) en(2)] by blast
  have au: "abs_shared (kern u) = s_step (Pull c) (abs_shared (kern s))"
    using onefifo_step_refines [OF inv en(1) u(1)] by simp
  obtain ps' where q: "k_queue (kern u) (LocalRq c) = p # ps'"
  proof (cases "k_queue (kern s) GlobalRq")
    case Nil
    with au work that show ?thesis by (auto simp: abs_shared_eq_iff)
  next
    case (Cons q qs)
    with au have "k_queue (kern u) (LocalRq c) = k_queue (kern s) (LocalRq c) @ [q]"
      by (simp add: abs_shared_eq_iff)
    with work Cons that show ?thesis by (cases "k_queue (kern s) (LocalRq c)") auto
  qed
  have "kern t = change_state api p IPANEMA_RUNNING c None (kern u)"
    using onefifo_schedule_kern [OF u(2), of c t] t(1) q by simp
  then show ?thesis using u t by (simp add: cs_current_run)
qed

end

section \<open>The tick\<close>

lemma mod_QUANTUM_NS_zero: "mod_QUANTUM_NS x = 0 \<longleftrightarrow> unat x mod 20 = 0"
proof -
  have r: "unat (x mod 20) = unat x mod 20" by (simp add: unat_mod)
  have "unat (x mod 20 * NSEC_PER_MSEC) = (unat x mod 20) * 1000000"
  proof -
    have "unat (x mod 20) * unat (1000000 :: ulong) < 2 ^ LENGTH(64)"
    proof -
      have "unat x mod 20 < 20" by simp
      then have "unat (x mod 20) * 1000000 < 20 * 1000000" using r by simp
      then show ?thesis by simp
    qed
    then show ?thesis by (simp add: NSEC_PER_MSEC_def unat_mult_lem [THEN iffD1] r)
  qed
  moreover have "mod_QUANTUM_NS x = 0 \<longleftrightarrow> unat (mod_QUANTUM_NS x) = 0" by (simp add: unat_eq_0)
  ultimately show ?thesis by (simp add: mod_QUANTUM_NS_def)
qed

lemma onefifo_tick_counts:
  assumes "policy_metadata p s = Inr (a, fp)" and "op_task fp = p" and "\<not> onefifo_expired p s"
  shows "\<exists>t. onefifo_tick api p s = Inr t \<and> kern t = kern s \<and>
    policy_metadata p t = Inr (a, fp\<lparr>op_current_quantum_ns := op_current_quantum_ns fp + 1\<rparr>)"
proof -
  from assms(1) have "k_meta (kern s) p = Some a" "heap s a = Some fp"
    by (simp_all add: policy_metadata_Inr)
  moreover have "mod_QUANTUM_NS (op_current_quantum_ns fp + 1) \<noteq> 0"
    using assms(1,3) by (simp add: onefifo_expired_def)
  ultimately show ?thesis by (simp add: onefifo_tick_def policy_metadata_def Let_def)
qed

lemma onefifo_ticks_count:
  assumes "policy_metadata p s = Inr (a, fp)" and "op_task fp = p"
    and "unat (op_current_quantum_ns fp) mod 20 + length ts < 20"
    and "unat (op_current_quantum_ns fp) + length ts < 2 ^ 64"
  shows "\<exists>t. run (onefifo_routines api) (map (Tick p c) ts) s = Inr t \<and> kern t = kern s \<and>
    policy_metadata p t = Inr (a, fp\<lparr>op_current_quantum_ns :=
      op_current_quantum_ns fp + of_nat (length ts)\<rparr>)"
  using assms
proof (induction ts arbitrary: s fp)
  case Nil
  then show ?case by simp
next
  case (Cons n ts)
  let ?q = "op_current_quantum_ns fp"
  let ?fp = "fp\<lparr>op_current_quantum_ns := ?q + 1\<rparr>"
  have lt: "unat ?q + 1 < 2 ^ 64" using Cons.prems(4) by simp
  then have q1: "unat (?q + 1) = unat ?q + 1"
    by (simp add: unat_word_ariths)
  have "unat ?q mod 20 + 1 < 20" using Cons.prems(3) by simp
  then have m1: "unat (?q + 1) mod 20 = unat ?q mod 20 + 1"
    unfolding q1 by (simp add: mod_Suc)
  have "\<not> onefifo_expired p s"
    using Cons.prems(1) m1 by (simp add: onefifo_expired_def mod_QUANTUM_NS_zero)
  from onefifo_tick_counts [OF Cons.prems(1,2) this] obtain u where
    u: "onefifo_tick api p s = Inr u" "kern u = kern s" "policy_metadata p u = Inr (a, ?fp)" by blast
  have "\<exists>t. run (onefifo_routines api) (map (Tick p c) ts) u = Inr t \<and> kern t = kern u \<and>
      policy_metadata p t = Inr (a, ?fp\<lparr>op_current_quantum_ns :=
        op_current_quantum_ns ?fp + of_nat (length ts)\<rparr>)"
    by (rule Cons.IH [OF u(3)]) (use Cons.prems m1 q1 in simp_all)
  with u show ?case by (auto simp: ac_simps)
qed

section \<open>A concrete machine\<close>

text \<open>Four cpus: thread 7 runs on cpu 3, thread 8, last on cpu 2, waits in the shared queue.\<close>

definition onefifo_demo :: onefifo_sys where
  "onefifo_demo = \<lparr>kern = idle_kernel,
     cores = (\<lambda>c. \<lparr>oc_state = IPANEMA_IDLE_CORE, oc_id = 0, oc_current = None\<rparr>),
     heap = (\<lambda>_. None), trace = [], o_online_cores = {||}, o_idle_cores = None\<rparr>"

definition onefifo_loaded :: onefifo_sys where
  "onefifo_loaded = fst (snd (onefifo_mod_init ref_api [0, 1, 2, 3] True True 0 onefifo_demo no_module))"

definition onefifo_script :: "kevent list" where
  "onefifo_script = [NewPrepare 7 0 (Some 100) 4, SetTaskCpu 7 3, NewPlace 7, Schedule 3 5,
     SetTaskCpu 8 2, NewPrepare 8 0 (Some 101) 4, NewPlace 8]"

definition onefifo_busy :: onefifo_sys where
  "onefifo_busy = projr (run (onefifo_routines ref_api) onefifo_script onefifo_loaded)"

lemmas onefifo_eval = onefifo_demo_def idle_kernel_def onefifo_loaded_def onefifo_mod_init_def
  onefifo_init_core_def sys_defs ref_change_state_def ref_first_task_def ref_remove_task_def
  ref_init_rq_def Let_def attached_def policy_metadata_def onefifo_script_def onefifo_defs
  onefifo_en_def

lemma onefifo_loaded_inv: "onefifo_inv onefifo_loaded"
  unfolding onefifo_loaded_def by (rule ref.onefifo_init_inv) (simp add: onefifo_demo_def)

lemma onefifo_loaded_init: "onefifo_mod_init ref_api [0, 1, 2, 3] True True 0 onefifo_demo no_module =
    (0, onefifo_loaded, \<lparr>policy_allocated = True, policy_registered = True, proc_entry = True\<rparr>)"
  by (simp add: onefifo_loaded_def onefifo_mod_init_def no_module_def Let_def)

lemma onefifo_script_admissible:
  "admissible (onefifo_routines ref_api) (onefifo_en ref_api) onefifo_script onefifo_loaded"
  by (simp add: onefifo_eval)

lemma onefifo_busy_run: "run (onefifo_routines ref_api) onefifo_script onefifo_loaded = Inr onefifo_busy"
  using ref.onefifo_run_refines [OF onefifo_loaded_inv onefifo_script_admissible]
  by (auto simp: onefifo_busy_def)

lemma onefifo_busy_reachable:
  "reachable (onefifo_routines ref_api) (onefifo_en ref_api) onefifo_loaded onefifo_busy"
  by (rule reachable_run [OF reachable.start onefifo_script_admissible onefifo_busy_run])

lemma onefifo_busy_inv: "onefifo_inv onefifo_busy"
  by (rule ref.onefifo_reachable_inv [OF onefifo_busy_reachable onefifo_loaded_inv])

lemma onefifo_busy_state:
  "k_current (kern onefifo_busy) 3 = Some 7" "k_queue (kern onefifo_busy) GlobalRq = [8]"
  "k_queue (kern onefifo_busy) (LocalRq 0) = []" "k_queue (kern onefifo_busy) (LocalRq 2) = []"
  "k_cpu (kern onefifo_busy) 7 = 3" "k_cpu (kern onefifo_busy) 8 = 2"
  "k_meta (kern onefifo_busy) 7 = Some 100" "k_state (kern onefifo_busy) 8 = IPANEMA_READY"
  "heap onefifo_busy 100 = Some \<lparr>op_state = 2, op_task = 7, op_rq = None,
     op_current_quantum_ns = 0, op_last_sched_ns = 0\<rparr>"
  by (simp_all add: onefifo_busy_def onefifo_eval)

section \<open>The properties\<close>

text \<open>A choice of a cpu while the previous one is not marked idle.\<close>

lemma onefifo_uninit:
  assumes inv: "onefifo_inv s" and un: "uninit_select api e s"
  shows "onefifo_routines api e s = Inl UninitRead"
proof -
  from inv obtain m where m: "o_idle_cores s = Some m" by (auto simp: onefifo_inv_def)
  have m': "o_idle_cores (set_metadata p a (put_proc a fp s)) = Some m" for p a fp using m by simp
  have cpu: "k_cpu (kern (set_metadata p a (put_proc a fp s))) q = k_cpu (kern s) q" for p a fp q
    by (simp add: sys_defs)
  show ?thesis
  proof (cases e)
    case (NewPrepare p flags al n)
    with un m obtain a where "al = Some a" "flags AND WF_EXEC api = 0" "k_cpu (kern s) p |\<notin>| m"
      by auto
    with NewPrepare un show ?thesis
      by (auto simp: onefifo_new_prepare_def Let_def onefifo_select_effect [OF m'] cpu)
  next
    case (UnblockPrepare p flags n)
    with un m show ?thesis
      by (auto simp: onefifo_unblock_prepare_def onefifo_select_effect [OF m])
  qed (use un in simp_all)
qed

text \<open>C22 The only fault of fifo_one_queue.c: an event of the calling protocol makes its handler
  fault exactly when the handler chooses a cpu while the previous cpu of the thread is not
  marked idle, and then it reads the uninitialised local \<open>cpu\<close> of \<open>select_cpu\<close>. Every other
  handler, and every other state, returns.\<close>

theorem onefifo_only_fault:
  assumes fw: "saakm_framework api" and inv: "onefifo_inv s" and pr: "protocol e s"
  shows "onefifo_routines api e s = Inl f \<longleftrightarrow> f = UninitRead \<and> uninit_select api e s"
proof (cases "uninit_select api e s")
  case False
  with pr have "onefifo_en api e s" by (simp add: onefifo_en_def)
  from saakm_framework.onefifo_progress [OF fw inv this] False show ?thesis by auto
next
  case True
  with onefifo_uninit [OF inv] show ?thesis by auto
qed

theorem onefifo_only_fault_witness:
  "onefifo_routines ref_api (UnblockPrepare 8 0 4) onefifo_busy = Inl UninitRead"
proof -
  have "onefifo_routines ref_api (UnblockPrepare 8 0 4) onefifo_busy = Inl UninitRead \<longleftrightarrow>
      UninitRead = UninitRead \<and> uninit_select ref_api (UnblockPrepare 8 0 4) onefifo_busy"
    by (rule onefifo_only_fault [OF ref.saakm_framework_axioms onefifo_busy_inv]) simp
  then show ?thesis by (simp add: onefifo_busy_def onefifo_eval)
qed

text \<open>Two threads created from the same cpu, none of them by exec and with no idle period of
  the cpu in between, always drive fifo_one_queue.c into that fault: the first creation takes
  the cpu out of the idle mask.\<close>

theorem onefifo_two_forks_fault:
  assumes "o_idle_cores s \<noteq> None" and "k_cpu (kern s) p = k_cpu (kern s) q"
    and "f AND WF_EXEC api = 0" and "g AND WF_EXEC api = 0"
  shows "run (onefifo_routines api) [NewPrepare p f (Some a) n, NewPrepare q g (Some b) n] s =
    Inl UninitRead"
proof -
  from assms(1) obtain m where m: "o_idle_cores s = Some m" by auto
  have cpu: "k_cpu (kern (set_metadata p a (put_proc a fp u))) r = k_cpu (kern u) r"
    for p a r fp and u :: onefifo_sys by (simp add: sys_defs)
  show ?thesis
    using m assms(2-4)
    by (auto simp: onefifo_new_prepare_def onefifo_select_cpu_def cpu Let_def)
qed

theorem onefifo_two_forks_fault_witness:
  "run (onefifo_routines ref_api) [NewPrepare 7 0 (Some 100) 4, NewPrepare 8 0 (Some 101) 4]
    onefifo_loaded = Inl UninitRead"
proof (rule onefifo_two_forks_fault)
  show "o_idle_cores onefifo_loaded \<noteq> None" by (simp add: onefifo_eval)
  show "k_cpu (kern onefifo_loaded) 7 = k_cpu (kern onefifo_loaded) 8" by (simp add: onefifo_eval)
qed simp_all

text \<open>C20 No thread is lost by fifo_one_queue.c: in every reachable state each ready thread is in
  exactly one runqueue, the shared one or that of its own cpu, once, and has its object.\<close>

theorem onefifo_none_lost:
  assumes fw: "saakm_framework api" and fresh: "fresh_kernel (kern s0)"
    and init: "onefifo_mod_init api cpus True ok res s0 m = (r, s, m')"
    and run: "reachable (onefifo_routines api) (onefifo_en api) s t"
  shows "(norm_state (k_state (kern t) p) = IPANEMA_READY \<longleftrightarrow> (\<exists>!x. p \<in> set (k_queue (kern t) x))) \<and>
    (\<forall>x. p \<in> set (k_queue (kern t) x) \<longrightarrow> (x = GlobalRq \<or> x = LocalRq (k_cpu (kern t) p)) \<and>
       distinct (k_queue (kern t) x) \<and> policy_metadata p t \<in> range Inr)"
proof -
  have "onefifo_inv s"
    using saakm_framework.onefifo_init_inv [OF fw fresh, of cpus ok res m] init by simp
  from saakm_framework.onefifo_reachable_inv [OF fw run this] have inv: "onefifo_inv t" .
  then have sinv: "shared_inv op_task {} (kern t) (heap t)"
    by (simp add: onefifo_inv_def base_ok_def)
  then have wf: "kernel_wf (kern t)" by (rule shared_inv_wf)
  have "policy_metadata p t \<in> range Inr" if "p \<in> set (k_queue (kern t) x)" for x
    using onefifo_object [OF inv shared_queued(1) [OF sinv that]] by auto
  with shared_ready_iff [OF sinv, of p] kernel_wfD(1) [OF wf] shared_queued(2) [OF sinv]
  show ?thesis by blast
qed

theorem onefifo_none_lost_witness:
  "(norm_state (k_state (kern onefifo_busy) 8) = IPANEMA_READY \<longleftrightarrow>
      (\<exists>!x. 8 \<in> set (k_queue (kern onefifo_busy) x))) \<and> policy_metadata 8 onefifo_busy \<in> range Inr"
proof -
  have "8 \<in> set (k_queue (kern onefifo_busy) GlobalRq)" by (simp add: onefifo_busy_state)
  with onefifo_none_lost [OF ref.saakm_framework_axioms _ onefifo_loaded_init onefifo_busy_reachable, of 8]
  show ?thesis by (auto simp: onefifo_demo_def)
qed

text \<open>C19 The shared runqueue of fifo_one_queue.c is first in, first out: along every admissible
  run without terminations, the threads it held at the start followed by those placed, unblocked, yielded
  or preempted into it, in that order, are the threads that cores took from it, in the order they took
  them, followed by the threads it holds at the end; and the run is one of the abstract
  scheduler with one shared queue and a queue per core.\<close>

theorem onefifo_shared_is_fifo:
  assumes fw: "saakm_framework api" and inv: "onefifo_inv s"
    and adm: "admissible (onefifo_routines api) (onefifo_en api) es s"
    and live: "list_all not_terminate es"
  shows "\<exists>t. run (onefifo_routines api) es s = Inr t \<and>
    abs_shared (kern t) = fold s_step (onefifo_ops api es s) (abs_shared (kern s)) \<and>
    k_queue (kern s) GlobalRq @ entered (onefifo_ops api es s) =
      taken (onefifo_ops api es s) (abs_shared (kern s)) @ k_queue (kern t) GlobalRq"
proof -
  obtain t where t: "run (onefifo_routines api) es s = Inr t"
    "abs_shared (kern t) = fold s_step (onefifo_ops api es s) (abs_shared (kern s))"
    using saakm_framework.onefifo_run_refines [OF fw inv adm] by blast
  with shared_taken_kernel [OF t(2) onefifo_ops_drop [OF live]] show ?thesis by blast
qed

theorem onefifo_shared_is_fifo_witness:
  "\<exists>t. run (onefifo_routines ref_api) onefifo_script onefifo_loaded = Inr t \<and>
    k_queue (kern onefifo_loaded) GlobalRq @ entered (onefifo_ops ref_api onefifo_script onefifo_loaded) =
      taken (onefifo_ops ref_api onefifo_script onefifo_loaded) (abs_shared (kern onefifo_loaded)) @
        k_queue (kern t) GlobalRq"
proof -
  have "list_all not_terminate onefifo_script" by (simp add: onefifo_script_def)
  from onefifo_shared_is_fifo [OF ref.saakm_framework_axioms onefifo_loaded_inv onefifo_script_admissible this]
  show ?thesis by blast
qed

text \<open>C7 Lock discipline of fifo_one_queue.c: along every admissible run the handlers give back
  every lock they take and never take one they hold; the shared runqueue is only changed
  with its lock held; and, as long as no thread terminates, the runqueue of a core is only
  changed with that runqueue's own lock held.\<close>

theorem onefifo_lock_discipline:
  assumes "saakm_framework api" and "onefifo_inv s"
    and "admissible (onefifo_routines api) (onefifo_en api) es s"
  shows "\<exists>t calls. run (onefifo_routines api) es s = Inr t \<and> trace t = trace s @ calls \<and>
    lock_run [] calls = Some [] \<and> touches_guarded GlobalRq (RqLock GlobalRq) [] calls \<and>
    (list_all not_terminate es \<longrightarrow> touches_guarded (LocalRq c) (RqLock (LocalRq c)) [] calls)"
proof -
  obtain t where t: "run (onefifo_routines api) es s = Inr t"
    using saakm_framework.onefifo_run_refines [OF assms] by blast
  from saakm_framework.onefifo_run_guarded [OF assms t]
    saakm_framework.onefifo_run_own_guarded [OF assms _ t] t show ?thesis by fastforce
qed

theorem onefifo_lock_discipline_witness:
  "\<exists>t calls. run (onefifo_routines ref_api) onefifo_script onefifo_loaded = Inr t \<and>
    trace t = trace onefifo_loaded @ calls \<and> lock_run [] calls = Some [] \<and>
    touches_guarded GlobalRq (RqLock GlobalRq) [] calls \<and>
    touches_guarded (LocalRq 3) (RqLock (LocalRq 3)) [] calls"
  using onefifo_lock_discipline [OF ref.saakm_framework_axioms onefifo_loaded_inv
      onefifo_script_admissible, of 3]
  by (auto simp: onefifo_script_def)

text \<open>A core that goes idle while threads wait gets work: after \<open>fifo_newly_idle\<close> and
  \<open>fifo_schedule\<close> of fifo_one_queue.c it runs the first thread of its own and the shared
  runqueue, wherever that thread ran before.\<close>

theorem onefifo_idle_core_gets_work:
  assumes "saakm_framework api" and "onefifo_inv s"
    and "k_queue (kern s) (LocalRq c) @ k_queue (kern s) GlobalRq = p # ps"
  shows "\<exists>t. run (onefifo_routines api) [NewlyIdle c, Schedule c now] s = Inr t \<and>
    k_current (kern t) c = Some p"
  using saakm_framework.onefifo_pull_and_elect [OF assms] by blast

theorem onefifo_idle_core_gets_work_witness:
  "\<exists>t. run (onefifo_routines ref_api) [NewlyIdle 0, Schedule 0 9] onefifo_busy = Inr t \<and>
    k_current (kern t) 0 = Some 8"
  by (rule onefifo_idle_core_gets_work [OF ref.saakm_framework_axioms onefifo_busy_inv, where ps = "[]"])
     (simp add: onefifo_busy_state)

text \<open>The quantum of fifo_one_queue.c is twenty ticks, whatever the clock says: because
  \<open>QUANTUM_NS\<close> has no parentheses, a thread whose counter is \<open>r\<close> modulo 20 runs on through
  \<open>19 - r\<close> ticks, at any times, and the next one sends it to the tail of the shared
  runqueue.\<close>

theorem onefifo_preempts_every_20:
  assumes fw: "saakm_framework api" and m: "policy_metadata p s = Inr (a, fp)" "op_task fp = p"
    and len: "unat (op_current_quantum_ns fp) mod 20 + length ts = 19"
    and nowrap: "unat (op_current_quantum_ns fp) + 20 < 2 ^ 64"
  shows "\<exists>t u. run (onefifo_routines api) (map (Tick p c) ts) s = Inr t \<and> kern t = kern s \<and>
    onefifo_routines api (Tick p c now) t = Inr u \<and>
    kern u = change_state api p IPANEMA_READY_TICK (k_cpu (kern s) p) (Some GlobalRq) (kern s)"
proof -
  let ?q = "op_current_quantum_ns fp"
  obtain t where t: "run (onefifo_routines api) (map (Tick p c) ts) s = Inr t" "kern t = kern s"
    "policy_metadata p t = Inr (a, fp\<lparr>op_current_quantum_ns := ?q + of_nat (length ts)\<rparr>)"
    using onefifo_ticks_count [OF m, of ts api c] len nowrap by auto
  have eq: "?q + of_nat (length ts) + 1 = of_nat (unat ?q + length ts + 1)" by simp
  have un: "unat (of_nat (unat ?q + length ts + 1) :: ulong) = unat ?q + length ts + 1"
    using len nowrap by (simp add: unsigned_of_nat take_bit_nat_eq_self del: of_nat_Suc of_nat_add)
  have "unat (?q + of_nat (length ts) + 1) = unat ?q + length ts + 1" by (simp only: eq un)
  moreover have "(unat ?q + length ts + 1) mod 20 = (unat ?q mod 20 + length ts + 1) mod 20"
    using mod_add_left_eq [of "unat ?q" 20 "length ts + 1"] by (simp only: add.assoc)
  then have "(unat ?q + length ts + 1) mod 20 = 0" using len by simp
  ultimately have exp: "onefifo_expired p t"
    using t(3) by (simp add: onefifo_expired_def mod_QUANTUM_NS_zero)
  have "\<exists>u. onefifo_tick api p t = Inr u" using t(3) by (simp add: onefifo_tick_def Let_def)
  then obtain u where u: "onefifo_tick api p t = Inr u" by blast
  from onefifo_tick_kern [OF t(3) _ u] m(2) exp t(2) have
    "kern u = change_state api p IPANEMA_READY_TICK (k_cpu (kern s) p) (Some GlobalRq) (kern s)"
    by simp
  with t u show ?thesis by auto
qed

theorem onefifo_preempts_every_20_witness:
  "\<exists>t u. run (onefifo_routines ref_api) (map (Tick 7 3) (replicate 19 0)) onefifo_busy = Inr t \<and>
    kern t = kern onefifo_busy \<and> onefifo_routines ref_api (Tick 7 3 0) t = Inr u \<and>
    kern u = change_state ref_api 7 IPANEMA_READY_TICK (k_cpu (kern onefifo_busy) 7) (Some GlobalRq)
      (kern onefifo_busy)"
  by (rule onefifo_preempts_every_20 [OF ref.saakm_framework_axioms, where a = 100 and
      fp = "\<lparr>op_state = 2, op_task = 7, op_rq = None, op_current_quantum_ns = 0, op_last_sched_ns = 0\<rparr>"])
     (simp_all add: onefifo_busy_state policy_metadata_Inr)

text \<open>\<open>fifo_terminate\<close> of fifo_one_queue.c never clears the core's \<open>_current\<close>: a thread that
  a core takes from the shared runqueue and that terminates while it runs leaves the core
  with a pointer to its freed object.\<close>

theorem onefifo_terminate_dangles:
  assumes fw: "saakm_framework api" and inv: "onefifo_inv s"
    and own: "k_queue (kern s) (LocalRq c) = []" and q: "k_queue (kern s) GlobalRq = p # ps"
    and cpu: "k_cpu (kern s) p = c"
  shows "\<exists>t a. admissible (onefifo_routines api) (onefifo_en api) [Schedule c now, Terminate p] s \<and>
    run (onefifo_routines api) [Schedule c now, Terminate p] s = Inr t \<and>
    oc_current (cores t c) = Some a \<and> heap t a = None"
proof -
  have en: "onefifo_en api (Schedule c now) s" by (simp add: onefifo_en_def)
  obtain u where u: "onefifo_schedule api c s = Inr u" "onefifo_inv u"
    using saakm_framework.onefifo_progress [OF fw inv en] by auto
  have ku: "kern u = change_state api p IPANEMA_RUNNING c None (kern s)"
    using saakm_framework.onefifo_schedule_kern [OF fw inv u(1)] own q cpu by simp
  from u(1) obtain a where a: "k_meta (kern u) p = Some a" "oc_current (cores u c) = Some a"
    using own q cpu
    by (auto simp: onefifo_schedule_def enqueue_running_task_fifo_def
        saakm_framework.first_task [OF fw] saakm_framework.cs_meta [OF fw] res_map_eq_Inr
        res_bind_eq_Inr policy_metadata_Inr Let_def)
  have st: "k_state (kern u) p = IPANEMA_RUNNING" "k_current (kern u) c = Some p"
    "k_cpu (kern u) p = c"
    using saakm_framework.cs_cpu_same [OF fw, of c "kern s" p] cpu
    by (simp_all add: ku saakm_framework.cs_state_eq [OF fw] saakm_framework.cs_current_run [OF fw])
  then have enu: "onefifo_en api (Terminate p) u" using a by (simp add: onefifo_en_def attached_def)
  obtain t where t: "onefifo_terminate api p u = Inr t"
    using saakm_framework.onefifo_progress [OF fw u(2) enu] by auto
  with a have "oc_current (cores t c) = Some a" "heap t a = None"
    by (auto simp: onefifo_terminate_def res_bind_eq_Inr policy_metadata_Inr Let_def kfree_def)
  with u(1) t en enu show ?thesis by simp
qed

theorem onefifo_terminate_dangles_witness:
  "\<exists>t a. admissible (onefifo_routines ref_api) (onefifo_en ref_api) [Schedule 2 9, Terminate 8]
      onefifo_busy \<and>
    run (onefifo_routines ref_api) [Schedule 2 9, Terminate 8] onefifo_busy = Inr t \<and>
    oc_current (cores t 2) = Some a \<and> heap t a = None"
  by (rule onefifo_terminate_dangles [OF ref.saakm_framework_axioms onefifo_busy_inv, where ps = "[]"])
     (simp_all add: onefifo_busy_state)

end
