(* ===== verification/Central.thy ===== *)
theory Central
  imports Saakm
begin

text \<open>
  modules/saakm_central/saakm_central.c: every thread is meant to pass through the
  runqueue of cpu 0. Structures and handlers in the order of the file; the \<open>SAAKM_\<close>
  states are the \<open>IPANEMA_\<close> ones under their new name. Field prefixes: \<open>ce_\<close> for
  \<open>central_entity\<close>, \<open>cc_\<close> for \<open>central_cpu\<close>.
\<close>

section \<open>Structures\<close>

definition CENTRAL_CPU :: cpu where
  "CENTRAL_CPU = 0"

definition DEFAULT_SLICE :: ulong where
  "DEFAULT_SLICE = 2000000"

record central_entity =
  ce_state :: int
  ce_task :: task
  ce_rq :: "rqid option"
  ce_slice_ns :: ulong
  ce_current_slice_ns :: ulong

record central_stats =
  ct_total_enqueue :: ulong
  ct_total_exec :: ulong
  ct_schedule_calls :: ulong
  ct_tick_calls :: ulong

record central_cpu =
  cc_cpu :: nat
  cc_state :: core_state
  cc_current_entity :: "addr option"
  cc_started_at_ns :: u64
  cc_stats :: central_stats

text \<open>\<open>central_idle_cpus\<close>: the idle cpus, and the cpus whose whole physical core is idle.\<close>

record central_sys = "(central_cpu, central_entity) sys" +
  idle_cpus :: cpumask
  idle_smt :: cpumask

section \<open>Handlers of core events\<close>

definition central_get_core_state :: "cpu \<Rightarrow> central_sys \<Rightarrow> core_state" where
  "central_get_core_state target s = cc_state (cores s target)"

definition central_core_entry :: "cpu \<Rightarrow> central_sys \<Rightarrow> central_sys" where
  "central_core_entry cpu s = upd_core cpu (\<lambda>c. c\<lparr>cc_state := IPANEMA_ACTIVE_CORE\<rparr>) s"

definition central_core_exit :: "cpu \<Rightarrow> central_sys \<Rightarrow> central_sys" where
  "central_core_exit cpu s =
     (let s1 = upd_core cpu (\<lambda>c. c\<lparr>cc_state := IPANEMA_ACTIVE_CORE\<rparr>) s
      in s1\<lparr>idle_cpus := cpumask_clear_cpu cpu (idle_cpus s1),
            idle_smt := cpumask_clear_cpu cpu (idle_smt s1)\<rparr>)"

definition central_newly_idle :: "cpu \<Rightarrow> central_sys \<Rightarrow> central_sys" where
  "central_newly_idle cpu s = s"

definition central_entry_idle :: "kapi \<Rightarrow> cpu \<Rightarrow> central_sys \<Rightarrow> central_sys" where
  "central_entry_idle api cpu s =
     (let s1 = upd_core cpu (\<lambda>c. c\<lparr>cc_state := IPANEMA_IDLE_CORE\<rparr>) s;
          s2 = s1\<lparr>idle_cpus := cpumask_set_cpu cpu (idle_cpus s1)\<rparr>
      in if cpu_smt_mask api cpu |\<subseteq>| idle_cpus s2
         then s2\<lparr>idle_smt := idle_smt s2 |\<union>| cpu_smt_mask api cpu\<rparr> else s2)"

definition central_exit_idle :: "kapi \<Rightarrow> cpu \<Rightarrow> central_sys \<Rightarrow> central_sys" where
  "central_exit_idle api cpu s =
     (let s1 = upd_core cpu (\<lambda>c. c\<lparr>cc_state := IPANEMA_ACTIVE_CORE\<rparr>) s;
          s2 = s1\<lparr>idle_cpus := cpumask_clear_cpu cpu (idle_cpus s1)\<rparr>
      in s2\<lparr>idle_smt := idle_smt s2 |-| cpu_smt_mask api cpu\<rparr>)"

definition central_balancing_select :: "cpu \<Rightarrow> central_sys \<Rightarrow> int \<times> central_sys" where
  "central_balancing_select target s = (0, s)"

section \<open>Handlers of entity events\<close>

definition central_select_cpu :: "task \<Rightarrow> cpu \<Rightarrow> u32 \<Rightarrow> int" where
  "central_select_cpu p prev_cpu wake_flags = int CENTRAL_CPU"

definition central_bump_enqueue :: "central_cpu \<Rightarrow> central_cpu" where
  "central_bump_enqueue cc =
     cc\<lparr>cc_stats := (cc_stats cc)\<lparr>ct_total_enqueue := ct_total_enqueue (cc_stats cc) + 1\<rparr>\<rparr>"

text \<open>The entity at address \<open>a\<close>.\<close>

definition central_enqueue_task ::
    "kapi \<Rightarrow> addr \<Rightarrow> rqid option \<Rightarrow> ipanema_state \<Rightarrow> central_sys \<Rightarrow> central_sys res" where
  "central_enqueue_task api a next_rq st s =
     (case heap s a of
        None \<Rightarrow> Inl UseAfterFree
      | Some ce \<Rightarrow>
          let cpu = CENTRAL_CPU;
              s1 = (if st = IPANEMA_READY_TICK
                    then upd_core cpu (\<lambda>cc. cc\<lparr>cc_current_entity := None\<rparr>) s else s);
              s2 = upd_core cpu central_bump_enqueue s1;
              s3 = put_proc a (ce\<lparr>ce_state := state_code st, ce_rq := next_rq\<rparr>) s2
          in Inr (call_change_state api (ce_task ce) st cpu next_rq s3))"

definition central_new_prepare ::
    "task \<Rightarrow> u32 \<Rightarrow> addr option \<Rightarrow> central_sys \<Rightarrow> int \<times> central_sys" where
  "central_new_prepare p flags alloc s =
     (case alloc of
        None \<Rightarrow> (-1, s)
      | Some a \<Rightarrow>
          let ce = \<lparr>ce_state = 0, ce_task = p, ce_rq = None, ce_slice_ns = 0,
                    ce_current_slice_ns = 0\<rparr>;
              s1 = set_metadata p a (put_proc a ce s)
          in (central_select_cpu p (k_cpu (kern s1) p) flags, s1))"

definition central_new_place :: "kapi \<Rightarrow> task \<Rightarrow> central_sys \<Rightarrow> central_sys res" where
  "central_new_place api p s =
     res_bind (policy_metadata p s) (\<lambda>(a, ce).
       let cpu_dst = k_cpu (kern s) (ce_task ce)
       in central_enqueue_task api a (Some (LocalRq cpu_dst)) IPANEMA_READY s)"

definition central_new_end :: "task \<Rightarrow> central_sys \<Rightarrow> central_sys" where
  "central_new_end p s = s"

definition central_block :: "kapi \<Rightarrow> task \<Rightarrow> central_sys \<Rightarrow> central_sys res" where
  "central_block api p s =
     res_bind (policy_metadata p s) (\<lambda>(a, ce).
       let cpu = k_cpu (kern s) (ce_task ce);
           s1 = put_proc a (ce\<lparr>ce_state := state_code IPANEMA_BLOCKED, ce_rq := None\<rparr>) s;
           s2 = upd_core cpu (\<lambda>cc. cc\<lparr>cc_current_entity := None\<rparr>) s1
       in Inr (call_change_state api (ce_task ce) IPANEMA_BLOCKED cpu None s2))"

definition central_unblock_prepare :: "task \<Rightarrow> u32 \<Rightarrow> central_sys \<Rightarrow> int" where
  "central_unblock_prepare p flags s = central_select_cpu p (k_cpu (kern s) p) flags"

definition central_unblock_place :: "kapi \<Rightarrow> task \<Rightarrow> central_sys \<Rightarrow> central_sys res" where
  "central_unblock_place api p s =
     res_bind (policy_metadata p s) (\<lambda>(a, ce).
       let cpu_dst = k_cpu (kern s) (ce_task ce)
       in central_enqueue_task api a (Some (LocalRq cpu_dst)) IPANEMA_READY s)"

definition central_unblock_end :: "task \<Rightarrow> central_sys \<Rightarrow> central_sys" where
  "central_unblock_end p s = s"

definition central_terminate :: "kapi \<Rightarrow> task \<Rightarrow> central_sys \<Rightarrow> central_sys res" where
  "central_terminate api p s =
     res_bind (policy_metadata p s) (\<lambda>(a, ce).
       let cpu = k_cpu (kern s) (ce_task ce);
           s1 = (if ce_state ce = state_code IPANEMA_RUNNING
                 then upd_core cpu (\<lambda>cc. cc\<lparr>cc_current_entity := None\<rparr>) s else s);
           s2 = put_proc a (ce\<lparr>ce_state := state_code IPANEMA_TERMINATED, ce_rq := None\<rparr>) s1;
           s3 = call_change_state api (ce_task ce) IPANEMA_TERMINATED cpu None s2
       in Inr (kfree a s3))"

definition central_yield :: "kapi \<Rightarrow> task \<Rightarrow> central_sys \<Rightarrow> central_sys res" where
  "central_yield api p s =
     res_bind (policy_metadata p s) (\<lambda>(a, ce).
       central_enqueue_task api a (Some (LocalRq (k_cpu (kern s) (ce_task ce)))) IPANEMA_READY s)"

definition central_bump_tick :: "central_cpu \<Rightarrow> central_cpu" where
  "central_bump_tick cc =
     cc\<lparr>cc_stats := (cc_stats cc)\<lparr>ct_tick_calls := ct_tick_calls (cc_stats cc) + 1\<rparr>\<rparr>"

definition central_tick :: "kapi \<Rightarrow> task \<Rightarrow> u64 \<Rightarrow> central_sys \<Rightarrow> central_sys res" where
  "central_tick api p now s =
     res_bind (policy_metadata p s) (\<lambda>(a, ce).
       let ce1 = ce\<lparr>ce_current_slice_ns :=
                      ce_current_slice_ns ce + (now - ce_current_slice_ns ce)\<rparr>;
           s1 = put_proc a ce1 s
       in res_bind
            (if ce_current_slice_ns ce1 \<ge> ce_slice_ns ce1 then
               let s2 = put_proc a (ce1\<lparr>ce_current_slice_ns := 0\<rparr>) s1
               in central_enqueue_task api a (Some (LocalRq (k_cpu (kern s2) (ce_task ce1))))
                    IPANEMA_READY_TICK s2
             else Inr s1)
            (\<lambda>s3. Inr (upd_core (k_cpu (kern s3) (ce_task ce1)) central_bump_tick s3)))"

definition central_bump_exec :: "ulong \<Rightarrow> central_cpu \<Rightarrow> central_cpu" where
  "central_bump_exec ns cc =
     cc\<lparr>cc_stats := (cc_stats cc)\<lparr>ct_total_exec := ct_total_exec (cc_stats cc) + ns\<rparr>\<rparr>"

definition central_bump_schedule :: "central_cpu \<Rightarrow> central_cpu" where
  "central_bump_schedule cc =
     cc\<lparr>cc_stats := (cc_stats cc)\<lparr>ct_schedule_calls := ct_schedule_calls (cc_stats cc) + 1\<rparr>\<rparr>"

text \<open>With no thread in its runqueue cpu 0 goes on with a null \<open>next\<close>.\<close>

definition central_schedule :: "kapi \<Rightarrow> cpu \<Rightarrow> central_sys \<Rightarrow> central_sys res" where
  "central_schedule api cpu s =
     res_bind
       (case k_current (kern s) cpu of
          None \<Rightarrow> Inr s
        | Some cur \<Rightarrow>
            res_bind (policy_metadata cur s) (\<lambda>(_, ccurr).
              Inr (upd_core cpu (central_bump_exec (ce_current_slice_ns ccurr)) s)))
       (\<lambda>s1. case first_task api (kern s1) (LocalRq cpu) of
          None \<Rightarrow> if cpu \<noteq> CENTRAL_CPU then Inr s1 else Inl NullDeref
        | Some nxt \<Rightarrow>
            res_bind (policy_metadata nxt s1) (\<lambda>(a, ce).
              let ce1 = ce\<lparr>ce_state := state_code IPANEMA_RUNNING, ce_rq := None,
                           ce_current_slice_ns := 0, ce_slice_ns := DEFAULT_SLICE\<rparr>;
                  s2 = put_proc a ce1 s1;
                  s3 = upd_core cpu (\<lambda>cc. cc\<lparr>cc_current_entity := Some a\<rparr>) s2;
                  s4 = upd_core cpu central_bump_schedule s3
              in Inr (call_change_state api (ce_task ce1) IPANEMA_RUNNING cpu None s4)))"

section \<open>The routine table\<close>

fun central_routines :: "kapi \<Rightarrow> kevent \<Rightarrow> central_sys \<Rightarrow> central_sys res" where
  "central_routines api (NewPrepare p flags al n) s = Inr (snd (central_new_prepare p flags al s))"
| "central_routines api (NewPlace p) s = central_new_place api p s"
| "central_routines api (NewEnd p) s = Inr (central_new_end p s)"
| "central_routines api (Tick p c now) s = central_tick api p now s"
| "central_routines api (Yield p) s = central_yield api p s"
| "central_routines api (Block p c) s = central_block api p s"
| "central_routines api (UnblockPrepare p flags n) s = Inr s"
| "central_routines api (UnblockPlace p) s = central_unblock_place api p s"
| "central_routines api (UnblockEnd p) s = Inr (central_unblock_end p s)"
| "central_routines api (Terminate p) s = central_terminate api p s"
| "central_routines api (Schedule c now) s = central_schedule api c s"
| "central_routines api (CoreEntry c) s = Inr (central_core_entry c s)"
| "central_routines api (CoreExit c) s = Inr (central_core_exit c s)"
| "central_routines api (NewlyIdle c) s = Inr (central_newly_idle c s)"
| "central_routines api (EnterIdle c) s = Inr (central_entry_idle api c s)"
| "central_routines api (ExitIdle c) s = Inr (central_exit_idle api c s)"
| "central_routines api (BalancingSelect c) s = Inr (snd (central_balancing_select c s))"
| "central_routines api (SetTaskCpu p c) s = Inr (set_task_cpu p c s)"

section \<open>The timer, loading and unloading\<close>

definition central_init :: int where
  "central_init = 0"

definition central_free_metadata :: "addr option \<Rightarrow> central_sys \<Rightarrow> int \<times> central_sys" where
  "central_free_metadata policy_data s =
     (case policy_data of None \<Rightarrow> (0, s) | Some a \<Rightarrow> (0, kfree a s))"

definition central_can_be_default :: int where
  "central_can_be_default = 1"

definition central_attach :: "task \<Rightarrow> string \<Rightarrow> bool" where
  "central_attach p command = True"

datatype hrtimer_restart = HRTIMER_NORESTART | HRTIMER_RESTART

text \<open>The module with its timer: whether it is armed, and its period in nanoseconds.\<close>

record central_module = module +
  timer_armed :: bool
  kt_period :: int

definition ms_to_ktime :: "int \<Rightarrow> int" where
  "ms_to_ktime ms = ms * 1000000"

text \<open>
  The callback on cpu \<open>local_cpu\<close> at time \<open>now\<close> for a timer that expires at \<open>expires\<close>: a
  restarted timer is moved past \<open>now\<close> by whole periods (\<open>hrtimer_forward_now\<close>).
\<close>

definition central_timer_callback ::
    "cpu \<Rightarrow> (int \<Rightarrow> int \<Rightarrow> int) \<Rightarrow> int \<Rightarrow> int \<Rightarrow> hrtimer_restart \<times> int" where
  "central_timer_callback local_cpu forward_now period expires =
     (if local_cpu \<noteq> CENTRAL_CPU then (HRTIMER_NORESTART, expires)
      else (HRTIMER_RESTART, forward_now period expires))"

definition central_init_cpu :: "kapi \<Rightarrow> cpu \<Rightarrow> central_sys \<Rightarrow> central_sys" where
  "central_init_cpu api cpu s =
     (let s1 = upd_core cpu (\<lambda>c. c\<lparr>cc_cpu := cpu, cc_state := IPANEMA_ACTIVE_CORE\<rparr>) s;
          s2 = s1\<lparr>kern := init_rq api (LocalRq cpu) (kern s1)\<rparr>
      in upd_core cpu (\<lambda>c. c\<lparr>cc_stats := \<lparr>ct_total_enqueue = 0, ct_total_exec = 0,
                                     ct_schedule_calls = 0, ct_tick_calls = 0\<rparr>\<rparr>) s2)"

definition saakm_central_init ::
    "kapi \<Rightarrow> cpu list \<Rightarrow> bool \<Rightarrow> int \<Rightarrow> central_sys \<Rightarrow> central_module \<Rightarrow>
     int \<times> central_sys \<times> central_module" where
  "saakm_central_init api possible_cpus policy_ok add_res s m =
     (let s1 = fold (central_init_cpu api) possible_cpus s
      in if \<not> policy_ok then (- ENOMEM, s1, m)
         else
           let m1 = m\<lparr>policy_allocated := True, policy_registered := (add_res = 0)\<rparr>;
               m2 = (if add_res \<noteq> 0 then m1\<lparr>policy_allocated := False\<rparr> else m1);
               m3 = m2\<lparr>kt_period := ms_to_ktime 1000, timer_armed := True\<rparr>
           in (add_res, s1, m3))"

definition saakm_central_exit :: "central_module \<Rightarrow> central_module" where
  "saakm_central_exit m =
     m\<lparr>timer_armed := False, policy_registered := False, policy_allocated := False\<rparr>"

lemmas central_defs =
  CENTRAL_CPU_def central_core_entry_def central_core_exit_def central_newly_idle_def
  central_entry_idle_def central_exit_idle_def central_balancing_select_def
  central_select_cpu_def central_bump_enqueue_def central_enqueue_task_def
  central_new_prepare_def central_new_place_def central_new_end_def central_block_def
  central_unblock_prepare_def central_unblock_place_def central_unblock_end_def
  central_terminate_def central_yield_def central_bump_tick_def central_tick_def
  central_bump_exec_def central_bump_schedule_def central_schedule_def DEFAULT_SLICE_def

end
