(* ===== verification/Central_Correct.thy ===== *)
theory Central_Correct
  imports Central Policy_Inv Fifo_Spec
begin

text \<open>
  modules/saakm_central/saakm_central.c: the policy invariant, kept by every handler; the
  fact that all threads stay on cpu 0; the one fault; and the refinement of the abstract
  FIFO queue of cpu 0.
\<close>

section \<open>The invariant\<close>

text \<open>Queued and running threads are on cpu 0.\<close>

definition on_central :: "kernel \<Rightarrow> bool" where
  "on_central k \<longleftrightarrow> (\<forall>p. norm_state (k_state k p) = IPANEMA_READY \<or> k_state k p = IPANEMA_RUNNING \<longrightarrow>
     k_cpu k p = CENTRAL_CPU)"

definition central_inv :: "central_sys \<Rightarrow> bool" where
  "central_inv s \<longleftrightarrow> policy_inv ce_state ce_task ce_rq (kern s) (heap s) \<and>
     running_ok cc_current_entity (kern s) (cores s) \<and> on_central (kern s)"

text \<open>
  The calling protocol with the cpu \<open>select_cpu\<close> returns: the framework moves a thread to
  cpu 0 before it is placed, and nowhere else.
\<close>

fun central_protocol :: "kevent \<Rightarrow> central_sys \<Rightarrow> bool" where
  "central_protocol (NewPlace p) s = (protocol (NewPlace p) s \<and> k_cpu (kern s) p = CENTRAL_CPU)"
| "central_protocol (UnblockPlace p) s =
     (protocol (UnblockPlace p) s \<and> k_cpu (kern s) p = CENTRAL_CPU)"
| "central_protocol (SetTaskCpu p c) s = (protocol (SetTaskCpu p c) s \<and> c = CENTRAL_CPU)"
| "central_protocol e s = protocol e s"

lemma central_protocol_protocol: "central_protocol e s \<Longrightarrow> protocol e s"
  by (cases "(e, s)" rule: central_protocol.cases) auto

text \<open>The events for which cpu 0 schedules with nothing to run.\<close>

definition empty_schedule :: "kevent \<Rightarrow> central_sys \<Rightarrow> bool" where
  "empty_schedule e s \<longleftrightarrow> (\<exists>now. e = Schedule CENTRAL_CPU now) \<and>
     k_queue (kern s) (LocalRq CENTRAL_CPU) = []"

definition central_en :: "kevent \<Rightarrow> central_sys \<Rightarrow> bool" where
  "central_en e s \<longleftrightarrow> central_protocol e s \<and> \<not> empty_schedule e s"

lemma central_object:
  assumes "central_inv s" and "attached (kern s) p"
  shows "\<exists>a ce st. k_meta (kern s) p = Some a \<and> heap s a = Some ce \<and>
    policy_metadata p s = Inr (a, ce) \<and> ce_task ce = p \<and> ce_state ce = state_code st \<and>
    norm_state st = norm_state (k_state (kern s) p)"
  using attached_object [of ce_state ce_task ce_rq "kern s" "heap s" p] assms
  by (fastforce simp: central_inv_def policy_metadata_Inr)

lemma central_bump_current [simp]:
  "cc_current_entity (central_bump_enqueue cc) = cc_current_entity cc"
  "cc_current_entity (central_bump_tick cc) = cc_current_entity cc"
  "cc_current_entity (central_bump_exec n cc) = cc_current_entity cc"
  "cc_current_entity (central_bump_schedule cc) = cc_current_entity cc"
  by (simp_all add: central_bump_enqueue_def central_bump_tick_def central_bump_exec_def
      central_bump_schedule_def)

lemma central_inv_core:
  assumes "central_inv s" and "\<And>cc. cc_current_entity (f cc) = cc_current_entity cc"
  shows "central_inv (upd_core c f s)"
  using assms by (auto simp: central_inv_def upd_core_def intro: running_ok_cores)

lemma central_inv_put:
  assumes "central_inv s" and "heap s a = Some ce" and "ce_task ce' = ce_task ce"
    and "ce_state ce' = ce_state ce" and "ce_rq ce' = ce_rq ce"
  shows "central_inv (put_proc a ce' s)"
  using assms by (auto simp: central_inv_def put_proc_def intro: policy_inv_update)

lemma central_current:
  assumes "central_inv s" and "k_current (kern s) c = Some p"
  shows "attached (kern s) p" and "k_state (kern s) p = IPANEMA_RUNNING"
    and "k_cpu (kern s) p = c" and "c = CENTRAL_CPU"
  using assms by (auto simp: central_inv_def on_central_def dest: running_okD)

text \<open>What the enqueue helper does to a thread of cpu 0.\<close>

lemma central_enqueue_effect:
  assumes "heap s a = Some ce"
  shows "\<exists>t. central_enqueue_task api a r st s = Inr t \<and>
    kern t = change_state api (ce_task ce) st CENTRAL_CPU r (kern s) \<and>
    heap t = (heap s)(a \<mapsto> ce\<lparr>ce_state := state_code st, ce_rq := r\<rparr>) \<and>
    (\<forall>d. cc_current_entity (cores t d) =
       (if st = IPANEMA_READY_TICK \<and> d = CENTRAL_CPU then None else cc_current_entity (cores s d)))"
  using assms by (auto simp: central_enqueue_task_def sys_defs Let_def)

context saakm_framework
begin

lemma on_central_change:
  assumes "on_central k"
    and "norm_state st = IPANEMA_READY \<or> st = IPANEMA_RUNNING \<Longrightarrow> k_cpu k p = CENTRAL_CPU"
    and "c = k_cpu k p"
  shows "on_central (change_state api p st c r k)"
  unfolding on_central_def
proof (intro allI impI)
  fix q
  assume q: "norm_state (k_state (change_state api p st c r k) q) = IPANEMA_READY \<or>
    k_state (change_state api p st c r k) q = IPANEMA_RUNNING"
  show "k_cpu (change_state api p st c r k) q = CENTRAL_CPU"
  proof (cases "q = p")
    case True
    with q assms show ?thesis by (auto simp: cs_state cs_cpu_same)
  next
    case False
    with q assms show ?thesis by (auto simp: cs_state_other cs_cpu_same on_central_def)
  qed
qed

lemma central_enqueue_inv:
  assumes inv: "central_inv s" and att: "attached (kern s) p" and meta: "k_meta (kern s) p = Some a"
    and cpu: "k_cpu (kern s) p = CENTRAL_CPU" and st: "norm_state st = IPANEMA_READY"
    and tick: "st = IPANEMA_READY_TICK \<Longrightarrow> k_current (kern s) CENTRAL_CPU = Some p"
  shows "\<exists>t. central_enqueue_task api a (Some (LocalRq CENTRAL_CPU)) st s = Inr t \<and> central_inv t"
proof -
  from inv have pol: "policy_inv ce_state ce_task ce_rq (kern s) (heap s)"
    and run: "running_ok cc_current_entity (kern s) (cores s)" and onc: "on_central (kern s)"
    by (simp_all add: central_inv_def)
  obtain ce where ce: "heap s a = Some ce" "ce_task ce = p"
    using central_object [OF inv att] meta by auto
  let ?r = "Some (LocalRq CENTRAL_CPU)"
  obtain t where t: "central_enqueue_task api a ?r st s = Inr t"
    and kern: "kern t = change_state api p st CENTRAL_CPU ?r (kern s)"
    and heap: "heap t = (heap s)(a \<mapsto> ce\<lparr>ce_state := state_code st, ce_rq := ?r\<rparr>)"
    and cur: "\<And>d. cc_current_entity (cores t d) =
      (if st = IPANEMA_READY_TICK \<and> d = CENTRAL_CPU then None else cc_current_entity (cores s d))"
    using central_enqueue_effect [OF ce(1), of api ?r st] ce(2) by auto
  have live: "st \<noteq> IPANEMA_TERMINATED" "st \<noteq> IPANEMA_RUNNING" using st by auto
  have "policy_inv ce_state ce_task ce_rq (change_state api p st (k_cpu (kern s) p) ?r (kern s)) (heap t)"
    unfolding heap by (rule policy_inv_change_state [OF pol att meta]) (simp_all add: ce live st cpu)
  moreover have "running_ok cc_current_entity (kern t) (cores t)"
    unfolding kern by (rule running_ok_leave [OF run live(2)]) (use tick in \<open>auto simp: cur\<close>)
  moreover have "on_central (kern t)"
    unfolding kern by (rule on_central_change [OF onc]) (simp_all add: cpu)
  ultimately show ?thesis using t by (simp add: central_inv_def kern cpu)
qed

section \<open>Every handler keeps it\<close>

lemma central_place_inv:
  assumes inv: "central_inv s" and att: "attached (kern s) p" and cpu: "k_cpu (kern s) p = CENTRAL_CPU"
  shows "\<exists>t. central_new_place api p s = Inr t \<and> central_inv t"
    and "\<exists>t. central_unblock_place api p s = Inr t \<and> central_inv t"
    and "\<exists>t. central_yield api p s = Inr t \<and> central_inv t"
proof -
  obtain a ce where a: "k_meta (kern s) p = Some a" "policy_metadata p s = Inr (a, ce)"
    "ce_task ce = p"
    using central_object [OF inv att] by blast
  have "\<exists>t. central_enqueue_task api a (Some (LocalRq CENTRAL_CPU)) IPANEMA_READY s = Inr t \<and>
      central_inv t"
    by (rule central_enqueue_inv [OF inv att a(1) cpu]) simp_all
  with a cpu show "\<exists>t. central_new_place api p s = Inr t \<and> central_inv t"
    and "\<exists>t. central_unblock_place api p s = Inr t \<and> central_inv t"
    and "\<exists>t. central_yield api p s = Inr t \<and> central_inv t"
    by (simp_all add: central_new_place_def central_unblock_place_def central_yield_def)
qed

lemma central_tick_inv:
  assumes inv: "central_inv s" and cur: "k_current (kern s) c = Some p"
  shows "\<exists>t. central_tick api p now s = Inr t \<and> central_inv t"
proof -
  note run = central_current [OF inv cur]
  obtain a ce where a: "k_meta (kern s) p = Some a" "heap s a = Some ce"
    "policy_metadata p s = Inr (a, ce)" "ce_task ce = p"
    using central_object [OF inv run(1)] by blast
  define ce1 where "ce1 = ce\<lparr>ce_current_slice_ns :=
      ce_current_slice_ns ce + (now - ce_current_slice_ns ce)\<rparr>"
  define s1 where "s1 = put_proc a ce1 s"
  define s2 where "s2 = put_proc a (ce1\<lparr>ce_current_slice_ns := 0\<rparr>) s1"
  have inv1: "central_inv s1" unfolding s1_def
    by (rule central_inv_put [OF inv a(2)]) (simp_all add: ce1_def)
  have inv2: "central_inv s2" unfolding s2_def
    by (rule central_inv_put [OF inv1, where ce = ce1]) (simp_all add: s1_def put_proc_def)
  have k: "kern s1 = kern s" "kern s2 = kern s" "ce_task ce1 = p"
    using a by (simp_all add: s1_def s2_def put_proc_def ce1_def)
  obtain t where t: "central_enqueue_task api a (Some (LocalRq CENTRAL_CPU)) IPANEMA_READY_TICK s2 = Inr t"
    "central_inv t"
    using central_enqueue_inv [OF inv2, of p a IPANEMA_READY_TICK] run a cur k by auto
  have step: "central_tick api p now s = res_bind
      (if ce_current_slice_ns ce1 \<ge> ce_slice_ns ce1
       then central_enqueue_task api a (Some (LocalRq (k_cpu (kern s2) (ce_task ce1)))) IPANEMA_READY_TICK s2
       else Inr s1) (\<lambda>s3. Inr (upd_core (k_cpu (kern s3) (ce_task ce1)) central_bump_tick s3))"
    using a by (simp add: central_tick_def Let_def ce1_def s1_def s2_def)
  show ?thesis
    using run t inv1 k unfolding step by (simp add: central_inv_core)
qed

lemma central_block_inv:
  assumes inv: "central_inv s" and cur: "k_current (kern s) c = Some p"
  shows "\<exists>t. central_block api p s = Inr t \<and> central_inv t"
proof -
  from inv have pol: "policy_inv ce_state ce_task ce_rq (kern s) (heap s)"
    and run: "running_ok cc_current_entity (kern s) (cores s)" and onc: "on_central (kern s)"
    by (simp_all add: central_inv_def)
  note pc = central_current [OF inv cur]
  obtain a ce where a: "k_meta (kern s) p = Some a" "policy_metadata p s = Inr (a, ce)"
    "ce_task ce = p"
    using central_object [OF inv pc(1)] by blast
  let ?ce = "ce\<lparr>ce_state := state_code IPANEMA_BLOCKED, ce_rq := None\<rparr>"
  let ?k = "change_state api p IPANEMA_BLOCKED (k_cpu (kern s) p) None (kern s)"
  have "policy_inv ce_state ce_task ce_rq ?k ((heap s)(a \<mapsto> ?ce))"
    by (rule policy_inv_change_state [OF pol pc(1) a(1)]) (simp_all add: a)
  moreover have "running_ok cc_current_entity ?k ((cores s)(k_cpu (kern s) p :=
      (cores s (k_cpu (kern s) p))\<lparr>cc_current_entity := None\<rparr>))"
    by (rule running_ok_leave [OF run]) (use cur pc in auto)
  moreover have "on_central ?k" by (rule on_central_change [OF onc]) simp_all
  ultimately show ?thesis
    by (simp add: central_block_def a central_inv_def sys_defs Let_def)
qed

lemma central_terminate_inv:
  assumes inv: "central_inv s" and att: "attached (kern s) p"
    and runs: "k_state (kern s) p = IPANEMA_RUNNING \<Longrightarrow> k_current (kern s) (k_cpu (kern s) p) = Some p"
  shows "\<exists>t. central_terminate api p s = Inr t \<and> central_inv t"
proof -
  from inv have pol: "policy_inv ce_state ce_task ce_rq (kern s) (heap s)"
    and run: "running_ok cc_current_entity (kern s) (cores s)" and onc: "on_central (kern s)"
    by (simp_all add: central_inv_def)
  obtain a ce st where a: "k_meta (kern s) p = Some a" "policy_metadata p s = Inr (a, ce)"
    "ce_task ce = p" and st: "ce_state ce = state_code st" "norm_state st = norm_state (k_state (kern s) p)"
    using central_object [OF inv att] by blast
  let ?c = "k_cpu (kern s) p"
  let ?k = "change_state api p IPANEMA_TERMINATED ?c None (kern s)"
  have state: "ce_state ce = 2 \<Longrightarrow> k_state (kern s) p = IPANEMA_RUNNING"
    using st by (cases st) auto
  have "policy_inv ce_state ce_task ce_rq ?k ((heap s)(a := None))"
    by (rule policy_inv_terminate [OF pol att a(1)]) simp
  moreover have "running_ok cc_current_entity ?k
      (cores (if ce_state ce = 2 then upd_core ?c (\<lambda>cc. cc\<lparr>cc_current_entity := None\<rparr>) s else s))"
    by (rule running_ok_leave [OF run]) (use runs state in \<open>auto simp: sys_defs\<close>)
  moreover have "on_central ?k" by (rule on_central_change [OF onc]) simp_all
  ultimately show ?thesis
    by (simp add: central_terminate_def a central_inv_def sys_defs Let_def split: if_splits)
qed

lemma central_prepare_inv:
  assumes inv: "central_inv s" and pr: "protocol (NewPrepare p flags al n) s"
  shows "central_inv (snd (central_new_prepare p flags al s))"
proof (cases al)
  case None
  then show ?thesis using inv by (simp add: central_new_prepare_def)
next
  case (Some a)
  from inv have pol: "policy_inv ce_state ce_task ce_rq (kern s) (heap s)"
    and run: "running_ok cc_current_entity (kern s) (cores s)" and onc: "on_central (kern s)"
    by (simp_all add: central_inv_def)
  let ?ce = "\<lparr>ce_state = 0, ce_task = p, ce_rq = None, ce_slice_ns = 0, ce_current_slice_ns = 0\<rparr>"
  let ?k = "(kern s)\<lparr>k_meta := (k_meta (kern s))(p \<mapsto> a)\<rparr>"
  have "policy_inv ce_state ce_task ce_rq ?k ((heap s)(a \<mapsto> ?ce))"
    by (rule policy_inv_attach [OF pol]) (use pr Some in auto)
  moreover have "running_ok cc_current_entity ?k (cores s)"
    by (rule running_ok_meta [OF run]) (use pr in simp)
  moreover have "on_central ?k" using onc by (simp add: on_central_def)
  ultimately show ?thesis using Some by (simp add: central_new_prepare_def central_inv_def sys_defs Let_def)
qed

text \<open>The first part of a schedule only touches statistics.\<close>

lemma central_schedule_cases:
  assumes inv: "central_inv s"
  obtains s1 where "central_inv s1" "kern s1 = kern s" "heap s1 = heap s"
    "\<And>d. cc_current_entity (cores s1 d) = cc_current_entity (cores s d)"
    "central_schedule api c s = (case first_task api (kern s) (LocalRq c) of
        None \<Rightarrow> if c \<noteq> CENTRAL_CPU then Inr s1 else Inl NullDeref
      | Some nxt \<Rightarrow>
          res_bind (policy_metadata nxt s1) (\<lambda>(a, ce).
            Inr (call_change_state api (ce_task ce) IPANEMA_RUNNING c None
              (upd_core c central_bump_schedule (upd_core c (\<lambda>cc. cc\<lparr>cc_current_entity := Some a\<rparr>)
                (put_proc a (ce\<lparr>ce_state := state_code IPANEMA_RUNNING, ce_rq := None,
                   ce_current_slice_ns := 0, ce_slice_ns := DEFAULT_SLICE\<rparr>) s1))))))"
proof (cases "k_current (kern s) c")
  case None
  show ?thesis
    by (rule that [of s])
       (use inv None in \<open>simp_all add: central_schedule_def Let_def split: option.split\<close>)
next
  case (Some p)
  obtain a ce where m: "policy_metadata p s = Inr (a, ce)"
    using central_object [OF inv central_current(1) [OF inv Some]] by blast
  let ?s = "upd_core c (central_bump_exec (ce_current_slice_ns ce)) s"
  show ?thesis
  proof (rule that [of ?s])
    show "central_inv ?s" by (rule central_inv_core [OF inv]) simp
  qed (use Some m in \<open>simp_all add: central_schedule_def Let_def sys_defs split: option.split\<close>)
qed

lemma central_schedule_kern:
  assumes inv: "central_inv s" and head: "k_queue (kern s) (LocalRq c) = p # ps"
  shows "c = CENTRAL_CPU" and "\<exists>t. central_schedule api c s = Inr t \<and> central_inv t \<and>
    kern t = change_state api p IPANEMA_RUNNING c None (kern s)"
proof -
  from inv have pol: "policy_inv ce_state ce_task ce_rq (kern s) (heap s)"
    and onc: "on_central (kern s)" by (simp_all add: central_inv_def)
  have inq: "p \<in> set (k_queue (kern s) (LocalRq c))" using head by simp
  from policy_inv_queued [OF pol inq] have att: "attached (kern s) p"
    and c: "k_cpu (kern s) p = c" and notrun: "k_state (kern s) p \<noteq> IPANEMA_RUNNING" by auto
  from pol inq have "norm_state (k_state (kern s) p) = IPANEMA_READY"
    by (auto simp: policy_inv_def queue_ok_def kernel_wfD(2))
  with onc c show cc: "c = CENTRAL_CPU" by (auto simp: on_central_def)
  obtain s1 where s1: "central_inv s1" "kern s1 = kern s" "heap s1 = heap s"
    "central_schedule api c s = res_bind (policy_metadata p s1) (\<lambda>(a, ce).
            Inr (call_change_state api (ce_task ce) IPANEMA_RUNNING c None
              (upd_core c central_bump_schedule (upd_core c (\<lambda>cc. cc\<lparr>cc_current_entity := Some a\<rparr>)
                (put_proc a (ce\<lparr>ce_state := state_code IPANEMA_RUNNING, ce_rq := None,
                   ce_current_slice_ns := 0, ce_slice_ns := DEFAULT_SLICE\<rparr>) s1)))))"
    using central_schedule_cases [OF inv, of c] head by (auto simp: first_task)
  have att1: "attached (kern s1) p" using att s1(2) by simp
  obtain a ce where a: "k_meta (kern s1) p = Some a" "policy_metadata p s1 = Inr (a, ce)"
    "ce_task ce = p"
    using central_object [OF s1(1) att1] by blast
  let ?ce = "ce\<lparr>ce_state := state_code IPANEMA_RUNNING, ce_rq := None,
      ce_current_slice_ns := 0, ce_slice_ns := DEFAULT_SLICE\<rparr>"
  let ?k = "change_state api p IPANEMA_RUNNING (k_cpu (kern s1) p) None (kern s1)"
  from s1(1) have pol1: "policy_inv ce_state ce_task ce_rq (kern s1) (heap s1)"
    and run1: "running_ok cc_current_entity (kern s1) (cores s1)" and onc1: "on_central (kern s1)"
    by (simp_all add: central_inv_def)
  have notrun1: "k_state (kern s1) p \<noteq> IPANEMA_RUNNING" using notrun s1(2) by simp
  have "policy_inv ce_state ce_task ce_rq ?k ((heap s1)(a \<mapsto> ?ce))"
    by (rule policy_inv_change_state [OF pol1 att1 a(1)]) (simp_all add: a)
  moreover have "running_ok cc_current_entity ?k (cores (upd_core c central_bump_schedule
      (upd_core c (\<lambda>cc. cc\<lparr>cc_current_entity := Some a\<rparr>) s1)))"
    by (rule running_ok_start [OF run1 a(1) notrun1]) (simp_all add: sys_defs s1(2) c)
  moreover have "on_central ?k"
    by (rule on_central_change [OF onc1]) (use c cc s1(2) in simp_all)
  ultimately show "\<exists>t. central_schedule api c s = Inr t \<and> central_inv t \<and>
      kern t = change_state api p IPANEMA_RUNNING c None (kern s)"
    using s1 a c by (simp add: central_inv_def sys_defs)
qed

lemma central_schedule_empty:
  assumes inv: "central_inv s" and "k_queue (kern s) (LocalRq c) = []"
  shows "if c = CENTRAL_CPU then central_schedule api c s = Inl NullDeref
    else \<exists>t. central_schedule api c s = Inr t \<and> central_inv t \<and> kern t = kern s"
proof -
  obtain s1 where "central_inv s1" "kern s1 = kern s" "central_schedule api c s =
      (if c \<noteq> CENTRAL_CPU then Inr s1 else Inl NullDeref)"
    using central_schedule_cases [OF inv, of c] assms(2) by (auto simp: first_task)
  then show ?thesis by (cases "c = CENTRAL_CPU") auto
qed

lemma central_core_event_inv:
  assumes "central_inv s"
  shows "central_inv (central_core_entry c s)" "central_inv (central_core_exit c s)"
    "central_inv (central_entry_idle api c s)" "central_inv (central_exit_idle api c s)"
  using assms
  by (auto simp: central_core_entry_def central_core_exit_def central_entry_idle_def
      central_exit_idle_def central_inv_def sys_defs Let_def intro: running_ok_cores)

lemma central_set_cpu_inv:
  assumes "central_inv s" and "central_protocol (SetTaskCpu p c) s"
  shows "central_inv (set_task_cpu p c s)"
  using assms
  by (auto simp: central_inv_def set_task_cpu_def on_central_def
      intro: policy_inv_set_cpu running_ok_set_cpu)

lemma central_progress:
  assumes inv: "central_inv s" and en: "central_en e s"
  shows "\<exists>t. central_routines api e s = Inr t \<and> central_inv t"
proof -
  from en have cp: "central_protocol e s" and ne: "\<not> empty_schedule e s"
    by (simp_all add: central_en_def)
  show ?thesis
  proof (cases e)
    case (NewPrepare p flags al n)
    then show ?thesis using central_prepare_inv [OF inv] cp by simp
  next
    case (Schedule c now)
    show ?thesis
    proof (cases "k_queue (kern s) (LocalRq c)")
      case Nil
      with central_schedule_empty [OF inv Nil] Schedule ne show ?thesis
        by (auto simp: empty_schedule_def split: if_splits)
    next
      case (Cons p ps)
      with central_schedule_kern(2) [OF inv Cons] Schedule show ?thesis by auto
    qed
  next
    case (Tick p c now)
    then show ?thesis using central_tick_inv [OF inv] cp by auto
  next
    case (Block p c)
    then show ?thesis using central_block_inv [OF inv] cp by auto
  next
    case (Yield p)
    with cp have "k_current (kern s) (k_cpu (kern s) p) = Some p" by simp
    from central_current [OF inv this] Yield show ?thesis by (simp add: central_place_inv [OF inv])
  next
    case (Terminate p)
    then show ?thesis using central_terminate_inv [OF inv] cp by simp
  next
    case (SetTaskCpu p c)
    then show ?thesis using central_set_cpu_inv [OF inv] cp by simp
  qed (use inv cp in \<open>simp_all add: central_place_inv central_core_event_inv central_new_end_def
      central_unblock_end_def central_newly_idle_def central_balancing_select_def\<close>)
qed

end

sublocale saakm_framework \<subseteq> central: saakm_policy "central_routines api" central_en central_inv
  by unfold_locales (rule central_progress)

section \<open>Refinement\<close>

definition slice_used :: "task \<Rightarrow> u64 \<Rightarrow> central_sys \<Rightarrow> bool" where
  "slice_used p now s =
     (case policy_metadata p s of Inl _ \<Rightarrow> False | Inr (a, ce) \<Rightarrow> ce_slice_ns ce \<le> now)"

fun central_op :: "kevent \<Rightarrow> central_sys \<Rightarrow> aop" where
  "central_op (NewPlace p) s = Place p CENTRAL_CPU"
| "central_op (UnblockPlace p) s = Place p CENTRAL_CPU"
| "central_op (Tick p c now) s = (if slice_used p now s then Preempt p CENTRAL_CPU else Skip)"
| "central_op (Yield p) s = Preempt p CENTRAL_CPU"
| "central_op (Block p c) s = Leave p"
| "central_op (Terminate p) s = Leave p"
| "central_op (Schedule c now) s = Elect c"
| "central_op _ s = Skip"

lemma central_place_kern:
  assumes "policy_metadata p s = Inr (a, ce)" and "ce_task ce = p"
  shows "central_new_place api p s = Inr t \<Longrightarrow> kern t = change_state api p IPANEMA_READY CENTRAL_CPU
      (Some (LocalRq (k_cpu (kern s) p))) (kern s)"
    and "central_unblock_place api p s = Inr t \<Longrightarrow> kern t = change_state api p IPANEMA_READY CENTRAL_CPU
      (Some (LocalRq (k_cpu (kern s) p))) (kern s)"
    and "central_yield api p s = Inr t \<Longrightarrow> kern t = change_state api p IPANEMA_READY CENTRAL_CPU
      (Some (LocalRq (k_cpu (kern s) p))) (kern s)"
    and "central_block api p s = Inr t \<Longrightarrow>
      kern t = change_state api p IPANEMA_BLOCKED (k_cpu (kern s) p) None (kern s)"
    and "central_terminate api p s = Inr t \<Longrightarrow>
      kern t = change_state api p IPANEMA_TERMINATED (k_cpu (kern s) p) None (kern s)"
  using assms
  by (auto simp: central_new_place_def central_unblock_place_def central_yield_def central_block_def
      central_terminate_def central_enqueue_task_def policy_metadata_Inr sys_defs Let_def)

lemma central_tick_kern:
  assumes "policy_metadata p s = Inr (a, ce)" and "ce_task ce = p"
    and "central_tick api p now s = Inr t"
  shows "kern t = (if slice_used p now s then change_state api p IPANEMA_READY_TICK CENTRAL_CPU
      (Some (LocalRq (k_cpu (kern s) p))) (kern s) else kern s)"
  using assms
  by (auto simp: central_tick_def slice_used_def central_enqueue_task_def sys_defs Let_def
      split: if_splits)

context saakm_framework
begin

lemma central_step_refines:
  assumes inv: "central_inv s" and en: "central_en e s" and t: "central_routines api e s = Inr t"
  shows "abs_fifo (kern t) = a_step (central_op e s) (abs_fifo (kern s))"
proof -
  from en have cp: "central_protocol e s" and ne: "\<not> empty_schedule e s"
    by (simp_all add: central_en_def)
  from inv have pol: "policy_inv ce_state ce_task ce_rq (kern s) (heap s)"
    by (simp add: central_inv_def)
  then have wf: "kernel_wf (kern s)" by (rule policy_inv_wf)
  have out: "k_rq (kern s) p = None" if "norm_state (k_state (kern s) p) \<noteq> IPANEMA_READY" for p
    using pol that by (cases "k_rq (kern s) p") (auto simp: policy_inv_def queue_ok_def)
  have obj: "\<exists>a ce. policy_metadata p s = Inr (a, ce) \<and> ce_task ce = p" if "attached (kern s) p" for p
    using central_object [OF inv that] by blast
  have place: "abs_fifo (change_state api p IPANEMA_READY CENTRAL_CPU (Some (LocalRq CENTRAL_CPU)) (kern s)) =
      a_step (Place p CENTRAL_CPU) (abs_fifo (kern s))"
    if "k_state (kern s) p = IPANEMA_NOT_QUEUED \<or> k_state (kern s) p = IPANEMA_BLOCKED" for p
  proof (rule abs_place [OF wf])
    show "k_rq (kern s) p = None" by (rule out) (use that in auto)
    show "k_current (kern s) d \<noteq> Some p" for d using that central_current(2) [OF inv, of d p] by auto
  qed simp
  have preempt: "abs_fifo (change_state api p st CENTRAL_CPU (Some (LocalRq CENTRAL_CPU)) (kern s)) =
      a_step (Preempt p CENTRAL_CPU) (abs_fifo (kern s))"
    if cur: "k_current (kern s) c = Some p" and st: "st \<noteq> IPANEMA_RUNNING" for p st c
  proof (rule abs_preempt [OF wf])
    show "k_rq (kern s) p = None" by (rule out) (use central_current(2) [OF inv cur] in simp)
    show "k_current (kern s) d = Some p \<longleftrightarrow> d = CENTRAL_CPU" for d
      using central_current [OF inv, of d p] central_current [OF inv cur] cur by auto
  qed (rule st)
  show ?thesis
  proof (cases e)
    case (NewPlace p)
    with cp t obj [of p] place [of p] show ?thesis by (auto dest: central_place_kern(1))
  next
    case (UnblockPlace p)
    with cp t obj [of p] place [of p] show ?thesis by (auto dest: central_place_kern(2))
  next
    case (Yield p)
    with cp have cur: "k_current (kern s) (k_cpu (kern s) p) = Some p" by simp
    from obj [OF central_current(1) [OF inv cur]] Yield t central_current(4) [OF inv cur]
      preempt [OF cur, of IPANEMA_READY]
    show ?thesis by (auto dest: central_place_kern(3))
  next
    case (Tick p c now)
    with cp have cur: "k_current (kern s) c = Some p" by auto
    obtain a ce where m: "policy_metadata p s = Inr (a, ce)" "ce_task ce = p"
      using obj [OF central_current(1) [OF inv cur]] by blast
    from Tick t have "central_tick api p now s = Inr t" by simp
    from central_tick_kern [OF m this] Tick central_current [OF inv cur]
      preempt [OF cur, of IPANEMA_READY_TICK]
    show ?thesis by simp
  next
    case (Block p c)
    with cp have cur: "k_current (kern s) c = Some p" by auto
    from obj [OF central_current(1) [OF inv cur]] Block t abs_leave [OF wf, of IPANEMA_BLOCKED]
    show ?thesis by (auto dest: central_place_kern(4))
  next
    case (Terminate p)
    with cp t obj [of p] abs_leave [OF wf, of IPANEMA_TERMINATED]
    show ?thesis by (auto dest: central_place_kern(5))
  next
    case (Schedule c now)
    show ?thesis
    proof (cases "k_queue (kern s) (LocalRq c)")
      case Nil
      with central_schedule_empty [OF inv Nil] Schedule ne t show ?thesis
        by (auto simp: empty_schedule_def abs_fifo_def split: if_splits)
    next
      case (Cons p ps)
      with central_schedule_kern(2) [OF inv Cons] Schedule t abs_elect [OF wf Cons]
      show ?thesis by auto
    qed
  qed (use t in \<open>auto simp: central_new_prepare_def central_core_entry_def central_core_exit_def
      central_entry_idle_def central_exit_idle_def central_newly_idle_def
      central_balancing_select_def central_new_end_def central_unblock_end_def sys_defs Let_def
      abs_fifo_def split: option.splits\<close>)
qed

end

abbreviation central_ops :: "kapi \<Rightarrow> kevent list \<Rightarrow> central_sys \<Rightarrow> aop list" where
  "central_ops api \<equiv> ops_of (central_routines api) central_op"

sublocale saakm_framework \<subseteq> central_ref: refining_policy "central_routines api" central_en
    central_inv "\<lambda>s. abs_fifo (kern s)" central_op a_step
  by unfold_locales (rule central_step_refines)

interpretation ref_central: refining_policy "central_routines ref_api" central_en
    central_inv "\<lambda>s. abs_fifo (kern s)" central_op a_step
  by (rule ref.central_ref.refining_policy_axioms)

context saakm_framework
begin

lemma central_run_refines:
  "central_inv s \<Longrightarrow> admissible (central_routines api) central_en es s \<Longrightarrow>
    \<exists>t. run (central_routines api) es s = Inr t \<and> central_inv t \<and>
      abs_fifo (kern t) = fold a_step (central_ops api es s) (abs_fifo (kern s))"
  by (rule central_ref.run_refines)

lemma central_reachable_inv:
  "reachable (central_routines api) central_en s t \<Longrightarrow> central_inv s \<Longrightarrow> central_inv t"
  by (rule central.reachable_inv)

end

end
