(* ===== verification/Central_Props.thy ===== *)
theory Central_Props
  imports Central_Correct
begin

text \<open>
  The properties of modules/saakm_central/saakm_central.c: its one fault, the confinement
  of all threads to cpu 0, the FIFO order there, the tick, the idle masks and the loading
  code with its timer.
\<close>

section \<open>Loading\<close>

lemma central_init_cpu_simps:
  "kern (central_init_cpu api cpu s) = init_rq api (LocalRq cpu) (kern s)"
  "heap (central_init_cpu api cpu s) = heap s"
  "idle_cpus (central_init_cpu api cpu s) = idle_cpus s"
  "idle_smt (central_init_cpu api cpu s) = idle_smt s"
  "cores (central_init_cpu api cpu s) = (cores s)(cpu := (cores s cpu)\<lparr>cc_cpu := cpu,
     cc_state := IPANEMA_ACTIVE_CORE, cc_stats := \<lparr>ct_total_enqueue = 0, ct_total_exec = 0,
       ct_schedule_calls = 0, ct_tick_calls = 0\<rparr>\<rparr>)"
  by (simp_all add: central_init_cpu_def sys_defs Let_def)

lemma central_init_masks:
  "idle_cpus (fold (central_init_cpu api) cpus s) = idle_cpus s"
  "idle_smt (fold (central_init_cpu api) cpus s) = idle_smt s"
  by (induction cpus arbitrary: s) (simp_all add: central_init_cpu_simps)

lemma central_init_cores:
  "c \<in> set cpus \<Longrightarrow> cc_cpu (cores (fold (central_init_cpu api) cpus s) c) = c \<and>
     cc_state (cores (fold (central_init_cpu api) cpus s) c) = IPANEMA_ACTIVE_CORE"
proof -
  have keep: "c \<notin> set cpus \<Longrightarrow> cores (fold (central_init_cpu api) cpus s) c = cores s c" for c cpus s
    by (induction cpus arbitrary: s) (simp_all add: central_init_cpu_simps)
  show "c \<in> set cpus \<Longrightarrow> ?thesis"
  proof (induction cpus arbitrary: s)
    case Nil
    then show ?case by simp
  next
    case (Cons d cpus)
    then show ?case by (cases "c \<in> set cpus") (auto simp: central_init_cpu_simps keep)
  qed
qed

context saakm_framework
begin

lemma central_init_inv:
  assumes "fresh_kernel (kern s)" and "on_central (kern s)"
  shows "central_inv (fst (snd (saakm_central_init api cpus ok res s m)))"
proof -
  have "fresh_kernel (init_rq api x k)" if "fresh_kernel k" for x k
    using that by (auto simp: fresh_kernel_def init_rq)
  then have fresh: "fresh_kernel (kern (fold (central_init_cpu api) cpus u))"
    if "fresh_kernel (kern u)" for u
    using that by (induction cpus arbitrary: u) (simp_all add: central_init_cpu_simps)
  have f: "fresh_kernel (kern (fold (central_init_cpu api) cpus s))" by (rule fresh [OF assms(1)])
  have "central_inv (fold (central_init_cpu api) cpus s)"
    using f by (auto simp: central_inv_def policy_inv_def kernel_wf_def queue_ok_def view_ok_def
        running_ok_def on_central_def fresh_kernel_def)
  then show ?thesis by (simp add: saakm_central_init_def Let_def)
qed

end

section \<open>A concrete machine\<close>

definition central_demo :: central_sys where
  "central_demo = \<lparr>kern = idle_kernel,
     cores = (\<lambda>c. \<lparr>cc_cpu = 0, cc_state = IPANEMA_IDLE_CORE, cc_current_entity = None,
        cc_started_at_ns = 0, cc_stats = \<lparr>ct_total_enqueue = 0, ct_total_exec = 0,
          ct_schedule_calls = 0, ct_tick_calls = 0\<rparr>\<rparr>),
     heap = (\<lambda>_. None), trace = [], idle_cpus = {||}, idle_smt = {||}\<rparr>"

definition central_unloaded :: central_module where
  "central_unloaded = \<lparr>policy_allocated = False, policy_registered = False, proc_entry = False,
     timer_armed = False, kt_period = 0\<rparr>"

definition central_loaded :: central_sys where
  "central_loaded =
     fst (snd (saakm_central_init ref_api [0, 1, 2, 3] True 0 central_demo central_unloaded))"

text \<open>Threads 7 and 8 are placed on cpu 0, which runs 7.\<close>

definition central_script :: "kevent list" where
  "central_script = [NewPrepare 7 0 (Some 100) 4, SetTaskCpu 7 0, NewPlace 7,
     NewPrepare 8 0 (Some 101) 4, SetTaskCpu 8 0, NewPlace 8, Schedule 0 5]"

definition central_busy :: central_sys where
  "central_busy = projr (run (central_routines ref_api) central_script central_loaded)"

lemmas central_eval = central_demo_def idle_kernel_def central_loaded_def saakm_central_init_def
  central_init_cpu_def central_unloaded_def sys_defs ref_change_state_def ref_first_task_def
  ref_remove_task_def ref_init_rq_def Let_def attached_def policy_metadata_def central_script_def
  central_defs central_en_def empty_schedule_def

lemma central_loaded_init:
  "saakm_central_init ref_api [0, 1, 2, 3] True 0 central_demo central_unloaded = (0, central_loaded,
     \<lparr>policy_allocated = True, policy_registered = True, proc_entry = False,
      timer_armed = True, kt_period = ms_to_ktime 1000\<rparr>)"
  by (simp add: central_loaded_def saakm_central_init_def central_unloaded_def Let_def)

lemma central_demo_fresh: "fresh_kernel (kern central_demo)" "on_central (kern central_demo)"
  by (simp add: central_demo_def) (simp add: central_demo_def on_central_def idle_kernel_def CENTRAL_CPU_def)

lemma central_loaded_inv: "central_inv central_loaded"
  unfolding central_loaded_def by (rule ref.central_init_inv [OF central_demo_fresh])

lemma central_script_admissible:
  "admissible (central_routines ref_api) central_en central_script central_loaded"
  by (simp add: central_eval)

lemma central_busy_run: "run (central_routines ref_api) central_script central_loaded = Inr central_busy"
  using ref.central_run_refines [OF central_loaded_inv central_script_admissible]
  by (auto simp: central_busy_def)

lemma central_busy_reachable:
  "reachable (central_routines ref_api) central_en central_loaded central_busy"
  by (rule reachable_run [OF reachable.start central_script_admissible central_busy_run])

lemma central_busy_inv: "central_inv central_busy"
  by (rule ref.central_reachable_inv [OF central_busy_reachable central_loaded_inv])

lemma central_busy_state:
  "k_current (kern central_busy) 0 = Some 7" "k_queue (kern central_busy) (LocalRq 0) = [8]"
  "k_cpu (kern central_busy) 7 = 0" "k_meta (kern central_busy) 7 = Some 100"
  "heap central_busy 100 = Some \<lparr>ce_state = 2, ce_task = 7, ce_rq = None, ce_slice_ns = 2000000,
     ce_current_slice_ns = 0\<rparr>"
  by (simp_all add: central_busy_def central_eval)

section \<open>The properties\<close>

text \<open>C25 The only fault of saakm_central.c: an event of the calling protocol makes its handler
  fault exactly when cpu 0 schedules while its runqueue is empty, and then it dereferences a
  null thread pointer; so a machine on which cpu 0 has nothing to run oopses.\<close>

theorem central_only_fault:
  assumes fw: "saakm_framework api" and inv: "central_inv s" and pr: "central_protocol e s"
  shows "central_routines api e s = Inl f \<longleftrightarrow> f = NullDeref \<and> empty_schedule e s"
proof (cases "empty_schedule e s")
  case False
  with pr have "central_en e s" by (simp add: central_en_def)
  from saakm_framework.central_progress [OF fw inv this] False show ?thesis by auto
next
  case True
  then obtain now where e: "e = Schedule CENTRAL_CPU now"
    and q: "k_queue (kern s) (LocalRq CENTRAL_CPU) = []"
    by (auto simp: empty_schedule_def)
  from saakm_framework.central_schedule_empty [OF fw inv q] True show ?thesis by (auto simp: e)
qed

theorem central_only_fault_witness:
  "central_routines ref_api (Schedule 0 9) central_loaded = Inl NullDeref"
proof -
  have "central_routines ref_api (Schedule 0 9) central_loaded = Inl NullDeref \<longleftrightarrow>
      NullDeref = NullDeref \<and> empty_schedule (Schedule 0 9) central_loaded"
    by (rule central_only_fault [OF ref.saakm_framework_axioms central_loaded_inv]) simp
  then show ?thesis by (simp add: empty_schedule_def central_eval)
qed

text \<open>The central policy never hands a thread to another cpu: in every state reached from a
  loaded module only cpu 0 runs a thread, and the runqueues of all other cpus are empty.\<close>

theorem central_only_cpu0:
  assumes fw: "saakm_framework api" and fresh: "fresh_kernel (kern s0)" "on_central (kern s0)"
    and init: "saakm_central_init api cpus ok res s0 m = (r, s, m')"
    and run: "reachable (central_routines api) central_en s t" and c: "c \<noteq> CENTRAL_CPU"
  shows "k_current (kern t) c = None \<and> k_queue (kern t) (LocalRq c) = []"
proof -
  have "central_inv s"
    using saakm_framework.central_init_inv [OF fw fresh, of cpus ok res m] init by simp
  from saakm_framework.central_reachable_inv [OF fw run this] have inv: "central_inv t" .
  have "k_current (kern t) c = None"
    using central_current(4) [OF inv] c by (cases "k_current (kern t) c") auto
  moreover have "k_queue (kern t) (LocalRq c) = []"
  proof (cases "k_queue (kern t) (LocalRq c)")
    case (Cons p ps)
    from saakm_framework.central_schedule_kern(1) [OF fw inv Cons] c show ?thesis by simp
  qed simp
  ultimately show ?thesis by simp
qed

theorem central_only_cpu0_witness:
  "k_current (kern central_busy) 3 = None \<and> k_queue (kern central_busy) (LocalRq 3) = []"
  by (rule central_only_cpu0 [OF ref.saakm_framework_axioms central_demo_fresh central_loaded_init
        central_busy_reachable]) (simp add: CENTRAL_CPU_def)

text \<open>C24 saakm_central.c refines the per-core FIFO scheduler with all its activity on cpu 0:
  along every admissible run, placed, yielding and expired threads go to the tail of its
  queue, heads are elected, blocked and terminated threads leave.\<close>

theorem central_run_is_fifo:
  assumes "saakm_framework api" and "central_inv s"
    and "admissible (central_routines api) central_en es s"
  shows "\<exists>t. run (central_routines api) es s = Inr t \<and> central_inv t \<and>
    abs_fifo (kern t) = fold a_step (central_ops api es s) (abs_fifo (kern s))"
  by (rule saakm_framework.central_run_refines [OF assms])

theorem central_run_is_fifo_witness:
  "\<exists>t. run (central_routines ref_api) central_script central_loaded = Inr t \<and> central_inv t \<and>
    abs_fifo (kern t) =
      fold a_step (central_ops ref_api central_script central_loaded) (abs_fifo (kern central_loaded))"
  by (rule central_run_is_fifo [OF ref.saakm_framework_axioms central_loaded_inv central_script_admissible])

text \<open>The tick of saakm_central.c does not measure a slice: \<open>x += now - x\<close> sets the used time
  to the clock itself. So a tick preempts the thread, whatever it has used, as soon as the
  clock has passed the length of a slice (2 ms after boot), and before that it never does.\<close>

theorem central_tick_reads_clock:
  assumes "policy_metadata p s = Inr (a, ce)" and "ce_task ce = p"
  shows "\<exists>t. central_routines api (Tick p c now) s = Inr t \<and>
    (ce_slice_ns ce \<le> now \<longrightarrow> kern t = change_state api p IPANEMA_READY_TICK CENTRAL_CPU
       (Some (LocalRq (k_cpu (kern s) p))) (kern s)) \<and>
    (now < ce_slice_ns ce \<longrightarrow> kern t = kern s \<and>
       policy_metadata p t = Inr (a, ce\<lparr>ce_current_slice_ns := now\<rparr>))"
proof -
  from assms(1) have m: "k_meta (kern s) p = Some a" "heap s a = Some ce"
    by (simp_all add: policy_metadata_Inr)
  show ?thesis
  proof (cases "ce_slice_ns ce \<le> now")
    case True
    then have "\<not> now < ce_slice_ns ce" by simp
    with True m assms(2) show ?thesis
      by (simp add: central_tick_def central_enqueue_task_def policy_metadata_def sys_defs Let_def)
  next
    case False
    with m assms(2) show ?thesis by (simp add: central_tick_def policy_metadata_def sys_defs Let_def)
  qed
qed

theorem central_tick_reads_clock_witness:
  "\<exists>t. central_routines ref_api (Tick 7 0 3000000) central_busy = Inr t \<and>
    kern t = change_state ref_api 7 IPANEMA_READY_TICK CENTRAL_CPU (Some (LocalRq 0)) (kern central_busy)"
proof -
  have "policy_metadata 7 central_busy = Inr (100, \<lparr>ce_state = 2, ce_task = 7, ce_rq = None,
      ce_slice_ns = 2000000, ce_current_slice_ns = 0\<rparr>)"
    by (simp add: policy_metadata_Inr central_busy_state)
  from central_tick_reads_clock [OF this, where api = ref_api and c = 0 and now = 3000000] show ?thesis
    by (auto simp: central_busy_state)
qed

section \<open>The idle masks\<close>

text \<open>\<open>smt\<close> holds exactly the cpus whose whole physical core is idle.\<close>

definition smt_exact :: "(cpu \<Rightarrow> cpumask) \<Rightarrow> central_sys \<Rightarrow> bool" where
  "smt_exact sm s \<longleftrightarrow> (\<forall>c. c |\<in>| idle_smt s \<longleftrightarrow> sm c |\<subseteq>| idle_cpus s)"

fun not_core_exit :: "kevent \<Rightarrow> bool" where
  "not_core_exit (CoreExit c) = False"
| "not_core_exit e = True"

lemma central_loaded_smt: "smt_exact (cpu_smt_mask ref_api) central_loaded"
proof -
  have "idle_cpus central_loaded = {||}" "idle_smt central_loaded = {||}"
    by (simp_all add: central_eval)
  then show ?thesis by (simp add: smt_exact_def)
qed

lemma central_entry_idle_smt:
  assumes sm: "smt_topology (cpu_smt_mask api)" and ex: "smt_exact (cpu_smt_mask api) s"
  shows "smt_exact (cpu_smt_mask api) (central_entry_idle api cpu s)"
proof -
  let ?sm = "cpu_smt_mask api"
  have new: "?sm c |\<subseteq>| finsert cpu (idle_cpus s) \<longleftrightarrow>
      ?sm c |\<subseteq>| idle_cpus s \<or> ?sm c = ?sm cpu \<and> ?sm cpu |\<subseteq>| finsert cpu (idle_cpus s)" for c
    using smt_topology_mem [OF sm, of cpu c] by auto
  have mem: "c |\<in>| ?sm cpu \<longleftrightarrow> ?sm c = ?sm cpu" for c by (rule smt_topology_mem [OF sm])
  show ?thesis
    unfolding smt_exact_def
  proof
    fix c
    have old: "c |\<in>| idle_smt s \<longleftrightarrow> ?sm c |\<subseteq>| idle_cpus s" using ex by (simp add: smt_exact_def)
    show "c |\<in>| idle_smt (central_entry_idle api cpu s) \<longleftrightarrow>
        ?sm c |\<subseteq>| idle_cpus (central_entry_idle api cpu s)"
    proof (cases "?sm cpu |\<subseteq>| finsert cpu (idle_cpus s)")
      case True
      with old mem [of c] new [of c] show ?thesis
        by (simp add: central_entry_idle_def sys_defs Let_def)
    next
      case False
      with old new [of c] show ?thesis
        by (simp add: central_entry_idle_def sys_defs Let_def)
    qed
  qed
qed

lemma central_exit_idle_smt:
  assumes sm: "smt_topology (cpu_smt_mask api)" and ex: "smt_exact (cpu_smt_mask api) s"
  shows "smt_exact (cpu_smt_mask api) (central_exit_idle api cpu s)"
  using ex smt_topology_mem [OF sm]
  by (auto simp: smt_exact_def central_exit_idle_def sys_defs Let_def)

lemma central_masks_frame:
  assumes "central_routines api e s = Inr t"
    and "\<And>c. e \<noteq> EnterIdle c \<and> e \<noteq> ExitIdle c \<and> e \<noteq> CoreExit c"
  shows "idle_cpus t = idle_cpus s \<and> idle_smt t = idle_smt s"
  using assms
  by (cases e) (auto simp: central_new_prepare_def central_new_place_def
    central_unblock_place_def central_yield_def central_block_def central_terminate_def
    central_tick_def central_schedule_def central_enqueue_task_def central_core_entry_def
    central_newly_idle_def central_balancing_select_def central_new_end_def
    central_unblock_end_def sys_defs Let_def res_bind_eq_Inr split: option.splits if_splits)

lemma central_step_smt:
  assumes sm: "smt_topology (cpu_smt_mask api)" and ok: "not_core_exit e"
    and ex: "smt_exact (cpu_smt_mask api) s" and t: "central_routines api e s = Inr t"
  shows "smt_exact (cpu_smt_mask api) t"
proof -
  consider c where "e = EnterIdle c" | c where "e = ExitIdle c"
    | "\<And>c. e \<noteq> EnterIdle c \<and> e \<noteq> ExitIdle c \<and> e \<noteq> CoreExit c"
    using ok by (cases e) auto
  then show ?thesis
  proof cases
    case 1
    with t central_entry_idle_smt [OF sm ex] show ?thesis by auto
  next
    case 2
    with t central_exit_idle_smt [OF sm ex] show ?thesis by auto
  next
    case 3
    from central_masks_frame [OF t 3] ex show ?thesis by (simp add: smt_exact_def)
  qed
qed

text \<open>C11 The SMT idle mask of saakm_central.c is exact: as long as no core exits, along any
  run from a state in which it is (such as a loaded module), it holds exactly the cpus
  whose physical core has all its hardware threads in the idle mask.\<close>

theorem central_smt_mask_exact:
  assumes "smt_topology (cpu_smt_mask api)" and "smt_exact (cpu_smt_mask api) s"
    and "list_all not_core_exit es" and "run (central_routines api) es s = Inr t"
  shows "smt_exact (cpu_smt_mask api) t"
  by (rule run_preserves [where P = "smt_exact (cpu_smt_mask api)", OF _ assms(3,2,4)])
     (rule central_step_smt [OF assms(1)])

theorem central_smt_mask_exact_witness:
  "smt_exact (cpu_smt_mask ref_api)
    (projr (run (central_routines ref_api) [EnterIdle 2, EnterIdle 3, ExitIdle 2] central_loaded))"
proof (rule central_smt_mask_exact [OF ref_smt_topology])
  show "smt_exact (cpu_smt_mask ref_api) central_loaded" by (rule central_loaded_smt)
  show "run (central_routines ref_api) [EnterIdle 2, EnterIdle 3, ExitIdle 2] central_loaded =
      Inr (projr (run (central_routines ref_api) [EnterIdle 2, EnterIdle 3, ExitIdle 2] central_loaded))"
    by simp
qed simp

text \<open>\<open>central_core_exit\<close> breaks that: it leaves the siblings of the core that exits in the
  SMT idle mask although their physical core is no longer wholly idle, and it marks the
  core that exits as active.\<close>

theorem central_core_exit_stale:
  assumes sm: "smt_topology (cpu_smt_mask api)" and ex: "smt_exact (cpu_smt_mask api) s"
    and full: "c |\<in>| idle_smt s" and sib: "d |\<in>| cpu_smt_mask api c" "d \<noteq> c"
  shows "\<exists>t. central_routines api (CoreExit c) s = Inr t \<and>
    cc_state (cores t c) = IPANEMA_ACTIVE_CORE \<and> d |\<in>| idle_smt t \<and>
    \<not> cpu_smt_mask api d |\<subseteq>| idle_cpus t"
proof -
  from sm sib(1) have same: "cpu_smt_mask api d = cpu_smt_mask api c"
    by (simp add: smt_topology_mem)
  from ex full have "d |\<in>| idle_smt s" by (simp add: smt_exact_def same)
  moreover have "c |\<in>| cpu_smt_mask api d" using sm same by (simp add: smt_topology_mem)
  ultimately show ?thesis using sib(2)
    by (auto simp: central_core_exit_def sys_defs Let_def)
qed

theorem central_core_exit_stale_witness:
  "\<exists>t. central_routines ref_api (CoreExit 2)
      (projr (run (central_routines ref_api) [EnterIdle 2, EnterIdle 3] central_loaded)) = Inr t \<and>
    cc_state (cores t 2) = IPANEMA_ACTIVE_CORE \<and> 3 |\<in>| idle_smt t \<and>
    \<not> cpu_smt_mask ref_api 3 |\<subseteq>| idle_cpus t"
proof (rule central_core_exit_stale [OF ref_smt_topology])
  let ?s = "projr (run (central_routines ref_api) [EnterIdle 2, EnterIdle 3] central_loaded)"
  show "smt_exact (cpu_smt_mask ref_api) ?s"
  proof (rule run_preserves [where P = "smt_exact (cpu_smt_mask ref_api)" and ok = not_core_exit
        and step = "central_routines ref_api" and s = central_loaded and es = "[EnterIdle 2, EnterIdle 3]"])
    show "smt_exact (cpu_smt_mask ref_api) central_loaded" by (rule central_loaded_smt)
  qed (auto intro: central_step_smt [OF ref_smt_topology])
  show "2 |\<in>| idle_smt ?s" by (simp add: central_eval)
qed simp_all

section \<open>Loading\<close>

text \<open>Loading saakm_central.c: every possible cpu is numbered and active; a failed
  allocation returns \<open>-ENOMEM\<close> with no timer; and when the framework refuses the policy
  the error is returned, so the module is unloaded, but the timer has been armed, with a
  period of one second.\<close>

theorem central_init_outcomes:
  assumes "saakm_central_init api cpus ok res s m = (r, t, m')"
  shows "(\<forall>c \<in> set cpus. cc_cpu (cores t c) = c \<and> cc_state (cores t c) = IPANEMA_ACTIVE_CORE) \<and>
    (\<not> ok \<longrightarrow> r = - ENOMEM \<and> m' = m) \<and>
    (ok \<longrightarrow> r = res \<and> policy_allocated m' = (res = 0) \<and> policy_registered m' = (res = 0) \<and>
       timer_armed m' \<and> kt_period m' = 1000000000)"
  using assms central_init_cores [where api = api and cpus = cpus and s = s]
  by (auto simp: saakm_central_init_def ms_to_ktime_def Let_def split: if_splits)

theorem central_init_outcomes_witness:
  "(let (r, t, m') = saakm_central_init ref_api [0, 2] True (-22) central_demo central_unloaded
    in r = -22 \<and> timer_armed m' \<and> \<not> policy_allocated m')"
proof -
  obtain t m' where e: "saakm_central_init ref_api [0, 2] True (-22) central_demo central_unloaded =
      (-22, t, m')"
    by (auto simp: saakm_central_init_def Let_def)
  from central_init_outcomes [OF this] show ?thesis by (simp add: e)
qed

end
