(* ===== verification/Rusty_State.thy ===== *)
theory Rusty_State
  imports Saakm
begin

text \<open>
  modules/rusty_saakm/rusty_saakm.c, first part: the structures, the globals and what the
  kernel supplies to a call. Field prefixes: \<open>rc_\<close> for \<open>rusty_core\<close>, \<open>rp_\<close> for
  \<open>rusty_process\<close>, \<open>r_\<close> for the globals.
\<close>

unbundle bit_operations_syntax

section \<open>Constants\<close>

definition SLICE_NS :: u64 where
  "SLICE_NS = 20000000"

definition MAX_DOMS :: nat where
  "MAX_DOMS = 64"

definition PICK_IDLE_CORE :: u64 where
  "PICK_IDLE_CORE = 1"

definition EBUSY :: int where
  "EBUSY = 16"

definition ENOENT :: int where
  "ENOENT = 2"

text \<open>The tuning parameters; \<open>direct_greedy_numa\<close> is never written.\<close>

definition direct_greedy_numa :: bool where
  "direct_greedy_numa = False"

definition direct_greedy_under :: int where
  "direct_greedy_under = 90"

definition kick_greedy_under :: int where
  "kick_greedy_under = 100"

definition idle_enabled :: bool where
  "idle_enabled = True"

section \<open>Structures\<close>

text \<open>What the modules use of the kernel's \<open>struct topology_level\<close>.\<close>

record topology_level =
  topo_cores :: cpumask
  domain_numa :: bool

text \<open>The eight counters of \<open>kernel_cpustat\<close> the tuner reads, and keeps per core.\<close>

record cpu_times =
  ct_user :: u64
  ct_nice :: u64
  ct_system :: u64
  ct_idle :: u64
  ct_iowait :: u64
  ct_irq :: u64
  ct_softirq :: u64
  ct_steal :: u64

text \<open>\<open>dom_rr_cur\<close> is an \<open>int\<close> that is only incremented and converted to \<open>u32\<close>.\<close>

record rusty_core =
  rc_state :: core_state
  rc_id :: nat
  rc_dom_rr_cur :: u32
  rc_dom_id :: u32
  rc_times :: cpu_times

text \<open>\<open>slice\<close> is an \<open>int\<close>, kept by its 32 bits.\<close>

record rusty_process =
  rp_state :: int
  rp_rq :: "rqid option"
  rp_task :: task
  rp_cpumask :: cpumask
  rp_tmp_cpumask :: cpumask
  rp_dom_mask :: u64
  rp_dom_id :: int
  rp_slice :: "32 word"
  rp_dispatch_local :: bool
  rp_all_cpus :: bool

record dom_ctx =
  dom_ctx_id :: u32
  dom_topology :: topology_level

text \<open>
  The globals. The cpumasks behind pointers are options, null until the module is loaded;
  \<open>dom_data\<close> is the array of \<open>MAX_DOMS\<close> pointers; \<open>r_leaked\<close> counts the objects that were
  allocated and can no longer be reached; \<open>r_picks\<close> counts the calls of the kernel's
  \<open>cpumask_any_*_distribute\<close>, whose answers depend on the calls before.
\<close>

record rusty_sys = "(rusty_core, rusty_process) sys" +
  r_idle_cpu :: cpumask
  r_idle_smt :: cpumask
  r_direct_greedy :: "cpumask option"
  r_kick_greedy :: "cpumask option"
  r_all_cpumask :: "cpumask option"
  r_nr_doms :: nat
  r_dom_data :: "nat \<Rightarrow> dom_ctx option"
  r_leaked :: nat
  r_picks :: nat

section \<open>What the kernel supplies\<close>

text \<open>
  The environment of one call: the executing cpu, the affinity of a task, the flags of the
  current task, the accounting, the time a task was put on its cpu, the topology, whether the
  allocations of \<open>cpumask_size()\<close> bytes (and of objects) succeed, whether those of
  \<open>sizeof(cpumask_size())\<close> bytes do, and the two choosing functions of linux/cpumask.h, by call number.
\<close>

record rusty_env =
  smp_processor_id :: cpu
  smt_active :: bool
  cpus_ptr :: "task \<Rightarrow> cpumask"
  nr_cpus_allowed :: "task \<Rightarrow> nat"
  pf_exiting :: bool
  kcpustat_cpu :: "cpu \<Rightarrow> cpu_times"
  user_tick_ns :: u64
  exec_start :: "task \<Rightarrow> u64"
  topology_levels :: "cpu \<Rightarrow> topology_level option"
  possible_cpus :: "cpu list"
  kzalloc_ok :: bool
  kzalloc_small_ok :: bool
  any_and_distribute :: "nat \<Rightarrow> cpumask \<Rightarrow> cpumask \<Rightarrow> cpu"
  any_distribute :: "nat \<Rightarrow> cpumask \<Rightarrow> cpu"

text \<open>
  Their documented behaviour: some cpu of the intersection (of the mask), or a number of
  at least \<open>nr_cpu_ids\<close> when there is none.
\<close>

definition distribute_ok :: "kapi \<Rightarrow> rusty_env \<Rightarrow> bool" where
  "distribute_ok api env \<longleftrightarrow>
     (\<forall>n a b. if a |\<inter>| b = {||} then nr_cpu_ids api \<le> any_and_distribute env n a b
              else any_and_distribute env n a b |\<in>| a |\<inter>| b) \<and>
     (\<forall>n a. if a = {||} then nr_cpu_ids api \<le> any_distribute env n a
            else any_distribute env n a |\<in>| a)"

lemma distribute_okD:
  assumes "distribute_ok api env"
  shows "a |\<inter>| b = {||} \<Longrightarrow> nr_cpu_ids api \<le> any_and_distribute env n a b"
    and "a |\<inter>| b \<noteq> {||} \<Longrightarrow> any_and_distribute env n a b |\<in>| a \<and> any_and_distribute env n a b |\<in>| b"
    and "a = {||} \<Longrightarrow> nr_cpu_ids api \<le> any_distribute env n a"
    and "a \<noteq> {||} \<Longrightarrow> any_distribute env n a |\<in>| a"
  using assms unfolding distribute_ok_def by (metis finter_iff)+

definition call_any_and ::
    "rusty_env \<Rightarrow> cpumask \<Rightarrow> cpumask \<Rightarrow> rusty_sys \<Rightarrow> cpu \<times> rusty_sys" where
  "call_any_and env a b s = (any_and_distribute env (r_picks s) a b, s\<lparr>r_picks := Suc (r_picks s)\<rparr>)"

definition call_any :: "rusty_env \<Rightarrow> cpumask \<Rightarrow> rusty_sys \<Rightarrow> cpu \<times> rusty_sys" where
  "call_any env a s = (any_distribute env (r_picks s) a, s\<lparr>r_picks := Suc (r_picks s)\<rparr>)"

section \<open>Concrete choices\<close>

text \<open>The lowest cpu, or \<open>nr_cpu_ids\<close>: an instance of the choosing functions.\<close>

definition first_cpu :: "nat \<Rightarrow> cpumask \<Rightarrow> cpu" where
  "first_cpu nr a = (if a = {||} then nr else fMin a)"

lemma first_cpu_mem: "a \<noteq> {||} \<Longrightarrow> first_cpu nr a |\<in>| a"
  by (simp add: first_cpu_def)

end
