(* ===== verification/Rusty_Pick.thy ===== *)
theory Rusty_Pick
  imports Rusty_State
begin

text \<open>
  modules/rusty_saakm/rusty_saakm.c, second part: the idle masks and the loop that picks a
  cpu from them. The loop retries until a candidate is still idle when it is claimed; it
  is a partial function here, and the lemmas show that it returns.
\<close>

section \<open>The idle masks\<close>

definition test_and_clear_cpu_idle ::
    "kapi \<Rightarrow> rusty_env \<Rightarrow> cpu \<Rightarrow> rusty_sys \<Rightarrow> bool \<times> rusty_sys" where
  "test_and_clear_cpu_idle api env cpu s =
     (let s1 = (if smt_active env then
                  let smt = cpu_smt_mask api cpu
                  in if cpumask_intersects smt (r_idle_smt s)
                     then s\<lparr>r_idle_smt := r_idle_smt s |-| smt\<rparr>
                     else if cpumask_test_cpu cpu (r_idle_smt s)
                     then s\<lparr>r_idle_smt := cpumask_clear_cpu cpu (r_idle_smt s)\<rparr>
                     else s
                else s)
      in (cpumask_test_cpu cpu (r_idle_cpu s1),
          s1\<lparr>r_idle_cpu := cpumask_clear_cpu cpu (r_idle_cpu s1)\<rparr>))"

definition get_idle_cpumask :: "rusty_env \<Rightarrow> rusty_sys \<Rightarrow> cpumask" where
  "get_idle_cpumask env s = (if smt_active env then r_idle_smt s else r_idle_cpu s)"

section \<open>Picking an idle cpu\<close>

text \<open>From the label \<open>retry\<close> to the label \<open>found\<close>: \<open>None\<close> is \<open>return -EBUSY\<close>.\<close>

definition pick_candidate ::
    "kapi \<Rightarrow> rusty_env \<Rightarrow> cpumask \<Rightarrow> u64 \<Rightarrow> rusty_sys \<Rightarrow> cpu option \<times> rusty_sys" where
  "pick_candidate api env cpus_allowed flags s =
     (let from_cpus = (\<lambda>s.
            let (cpu, s1) = call_any_and env (r_idle_cpu s) cpus_allowed s
            in (if cpu \<ge> nr_cpu_ids api then None else Some cpu, s1))
      in if smt_active env then
           let (cpu, s1) = call_any_and env (r_idle_smt s) cpus_allowed s
           in if cpu < nr_cpu_ids api then (Some cpu, s1)
              else if flags AND PICK_IDLE_CORE \<noteq> 0 then (None, s1)
              else from_cpus s1
         else from_cpus s)"

partial_function (option) pick_idle_cpu ::
    "kapi \<Rightarrow> rusty_env \<Rightarrow> cpumask \<Rightarrow> u64 \<Rightarrow> rusty_sys \<Rightarrow> (int \<times> rusty_sys) option" where
  "pick_idle_cpu api env cpus_allowed flags s =
     (case fst (pick_candidate api env cpus_allowed flags s) of
        None \<Rightarrow> Some (- EBUSY, snd (pick_candidate api env cpus_allowed flags s))
      | Some cpu \<Rightarrow>
          (let r = test_and_clear_cpu_idle api env cpu
                     (snd (pick_candidate api env cpus_allowed flags s))
           in if fst r then Some (int cpu, snd r)
              else pick_idle_cpu api env cpus_allowed flags (snd r)))"

text \<open>A caller of a loop that never ends does not get control back.\<close>

definition returned :: "'a option \<Rightarrow> 'a res" where
  "returned m = (case m of None \<Rightarrow> Inl Hang | Some x \<Rightarrow> Inr x)"

lemma returned_simps [simp]:
  "returned None = Inl Hang"
  "returned (Some x) = Inr x"
  by (simp_all add: returned_def)

definition pick_any_cpu ::
    "kapi \<Rightarrow> rusty_env \<Rightarrow> cpumask \<Rightarrow> u64 \<Rightarrow> rusty_sys \<Rightarrow> (int \<times> rusty_sys) res" where
  "pick_any_cpu api env cpus_allowed flags s =
     (let any = (\<lambda>s. let (cpu, s1) = call_any env cpus_allowed s
                     in Inr (if cpu < nr_cpu_ids api then int cpu else - EBUSY, s1))
      in if idle_enabled then
           res_bind (returned (pick_idle_cpu api env cpus_allowed flags s))
             (\<lambda>(cpu, s1). if cpu \<ge> 0 then Inr (cpu, s1) else any s1)
         else any s)"

section \<open>The masks are all these functions touch\<close>

text \<open>
  \<open>idle_frame s t\<close>: \<open>t\<close> is \<open>s\<close> but for the two idle masks, which have only lost cpus, and
  the count of choices.
\<close>

definition idle_frame :: "rusty_sys \<Rightarrow> rusty_sys \<Rightarrow> bool" where
  "idle_frame s t \<longleftrightarrow> r_idle_cpu t |\<subseteq>| r_idle_cpu s \<and> r_idle_smt t |\<subseteq>| r_idle_smt s \<and>
     kern t = kern s \<and> heap t = heap s \<and> cores t = cores s \<and> trace t = trace s \<and>
     r_direct_greedy t = r_direct_greedy s \<and> r_kick_greedy t = r_kick_greedy s \<and>
     r_all_cpumask t = r_all_cpumask s \<and> r_nr_doms t = r_nr_doms s \<and>
     r_dom_data t = r_dom_data s \<and> r_leaked t = r_leaked s"

lemma idle_frame_refl [simp]: "idle_frame s s"
  by (simp add: idle_frame_def)

lemma idle_frame_trans: "idle_frame s t \<Longrightarrow> idle_frame t u \<Longrightarrow> idle_frame s u"
  by (auto simp: idle_frame_def)

lemma test_and_clear_frame: "idle_frame s (snd (test_and_clear_cpu_idle api env cpu s))"
  by (auto simp: test_and_clear_cpu_idle_def idle_frame_def Let_def)

lemma pick_candidate_frame: "idle_frame s (snd (pick_candidate api env m flags s))"
  by (simp add: pick_candidate_def idle_frame_def call_any_and_def Let_def)

lemma pick_candidate_masks [simp]:
  "r_idle_cpu (snd (pick_candidate api env m flags s)) = r_idle_cpu s"
  "r_idle_smt (snd (pick_candidate api env m flags s)) = r_idle_smt s"
  by (simp_all add: pick_candidate_def call_any_and_def Let_def)

text \<open>A candidate is an allowed idle cpu; without one no allowed cpu is idle.\<close>

lemma pick_candidate_Some:
  assumes "distribute_ok api env" and "fst (pick_candidate api env m flags s) = Some cpu"
  shows "cpu |\<in>| m" and "cpu < nr_cpu_ids api"
    and "cpu |\<in>| r_idle_cpu s \<or> smt_active env \<and> cpu |\<in>| r_idle_smt s"
proof -
  have sel: "any_and_distribute env n a b |\<in>| a" "any_and_distribute env n a b |\<in>| b"
    if "any_and_distribute env n a b < nr_cpu_ids api" for n a b
  proof -
    have "a |\<inter>| b \<noteq> {||}" using distribute_okD(1) [OF assms(1), of a b n] that by linarith
    from distribute_okD(2) [OF assms(1) this, of n]
    show "any_and_distribute env n a b |\<in>| a" "any_and_distribute env n a b |\<in>| b" by simp_all
  qed
  show "cpu |\<in>| m" and "cpu < nr_cpu_ids api"
    and "cpu |\<in>| r_idle_cpu s \<or> smt_active env \<and> cpu |\<in>| r_idle_smt s"
    using assms(2)
    by (auto simp: pick_candidate_def call_any_and_def Let_def not_less [symmetric]
        dest: sel split: if_splits)
qed

lemma pick_candidate_None:
  assumes "distribute_ok api env" and "fst (pick_candidate api env m flags s) = None"
    and "\<And>c. c |\<in>| m \<Longrightarrow> c < nr_cpu_ids api"
  shows "smt_active env \<Longrightarrow> r_idle_smt s |\<inter>| m = {||}"
    and "\<not> (smt_active env \<and> flags AND PICK_IDLE_CORE \<noteq> 0) \<Longrightarrow> r_idle_cpu s |\<inter>| m = {||}"
proof -
  have found: "any_and_distribute env n a m < nr_cpu_ids api" if "a |\<inter>| m \<noteq> {||}" for n a
    using distribute_okD(2) [OF assms(1) that] assms(3) by blast
  have none: "a |\<inter>| m = {||}" if "\<not> any_and_distribute env n a m < nr_cpu_ids api" for n a
    using found that by blast
  show "smt_active env \<Longrightarrow> r_idle_smt s |\<inter>| m = {||}"
    and "\<not> (smt_active env \<and> flags AND PICK_IDLE_CORE \<noteq> 0) \<Longrightarrow> r_idle_cpu s |\<inter>| m = {||}"
    using assms(2)
    by (simp_all add: pick_candidate_def call_any_and_def Let_def not_less [symmetric] none
        split: if_splits)
qed

text \<open>A candidate that was not idle any more leaves a smaller mask of idle cores.\<close>

lemma retry_decreases:
  assumes "cpu |\<in>| r_idle_cpu s \<or> smt_active env \<and> cpu |\<in>| r_idle_smt s"
    and "\<not> fst (test_and_clear_cpu_idle api env cpu s)"
  shows "r_idle_smt (snd (test_and_clear_cpu_idle api env cpu s)) |\<subset>| r_idle_smt s"
  using assms unfolding test_and_clear_cpu_idle_def Let_def
  by (auto split: if_splits)

section \<open>The loop returns\<close>

lemma pick_idle_cpu_returns:
  assumes "distribute_ok api env"
  shows "\<exists>cpu t. pick_idle_cpu api env m flags s = Some (cpu, t) \<and> idle_frame s t \<and>
    (cpu = - EBUSY \<or> (\<exists>c. cpu = int c \<and> c |\<in>| m \<and> c < nr_cpu_ids api \<and> c |\<in>| r_idle_cpu s \<and>
       c |\<notin>| r_idle_cpu t))"
proof (induction "fcard (r_idle_smt s)" arbitrary: s rule: less_induct)
  case less
  let ?s = "snd (pick_candidate api env m flags s)"
  show ?case
  proof (cases "fst (pick_candidate api env m flags s)")
    case None
    then show ?thesis by (subst pick_idle_cpu.simps) (simp add: pick_candidate_frame)
  next
    case (Some c)
    note cand = pick_candidate_Some [OF assms Some]
    let ?r = "test_and_clear_cpu_idle api env c ?s"
    have fr: "idle_frame s (snd ?r)"
      by (rule idle_frame_trans [OF pick_candidate_frame test_and_clear_frame])
    show ?thesis
    proof (cases "fst ?r")
      case True
      then have "c |\<in>| r_idle_cpu s"
        by (auto simp: test_and_clear_cpu_idle_def Let_def split: if_splits)
      moreover have "c |\<notin>| r_idle_cpu (snd ?r)"
        by (simp add: test_and_clear_cpu_idle_def Let_def)
      moreover have "pick_idle_cpu api env m flags s = Some (int c, snd ?r)"
        by (subst pick_idle_cpu.simps) (simp add: Some True)
      ultimately show ?thesis using fr cand by blast
    next
      case False
      have "r_idle_smt (snd ?r) |\<subset>| r_idle_smt ?s"
        by (rule retry_decreases) (use cand False in simp_all)
      then have "fcard (r_idle_smt (snd ?r)) < fcard (r_idle_smt s)"
        by (simp add: pfsubset_fcard_mono)
      from less [OF this] obtain cpu t where
        t: "pick_idle_cpu api env m flags (snd ?r) = Some (cpu, t)" "idle_frame (snd ?r) t"
          "cpu = - EBUSY \<or> (\<exists>c. cpu = int c \<and> c |\<in>| m \<and> c < nr_cpu_ids api \<and>
             c |\<in>| r_idle_cpu (snd ?r) \<and> c |\<notin>| r_idle_cpu t)" by blast
      have "pick_idle_cpu api env m flags s = Some (cpu, t)"
        by (subst pick_idle_cpu.simps) (simp add: Some False t(1))
      moreover have "idle_frame s t" by (rule idle_frame_trans [OF fr t(2)])
      moreover have "r_idle_cpu (snd ?r) |\<subseteq>| r_idle_cpu s" using fr by (simp add: idle_frame_def)
      ultimately show ?thesis using t(3) by blast
    qed
  qed
qed

text \<open>A mask of existing cpus that is not empty always yields one of them.\<close>

lemma pick_any_cpu_returns:
  assumes "distribute_ok api env"
  shows "\<exists>cpu t. pick_any_cpu api env m flags s = Inr (cpu, t) \<and> idle_frame s t \<and>
    (cpu = - EBUSY \<and> ((\<forall>c. c |\<in>| m \<longrightarrow> c < nr_cpu_ids api) \<longrightarrow> m = {||}) \<or>
     (\<exists>c. cpu = int c \<and> c |\<in>| m))"
proof -
  obtain cpu t where p: "pick_idle_cpu api env m flags s = Some (cpu, t)" "idle_frame s t"
    "cpu = - EBUSY \<or> (\<exists>c. cpu = int c \<and> c |\<in>| m)"
    using pick_idle_cpu_returns [OF assms, of m flags s] by blast
  let ?t = "t\<lparr>r_picks := Suc (r_picks t)\<rparr>" and ?c = "any_distribute env (r_picks t) m"
  have f: "idle_frame s ?t" using p(2) by (simp add: idle_frame_def)
  show ?thesis
  proof (cases "cpu = - EBUSY")
    case True
    then have any: "pick_any_cpu api env m flags s =
        Inr (if ?c < nr_cpu_ids api then int ?c else - EBUSY, ?t)"
      using p(1) by (simp add: pick_any_cpu_def idle_enabled_def call_any_def EBUSY_def)
    show ?thesis
    proof (cases "?c < nr_cpu_ids api")
      case True
      then have "m \<noteq> {||}" using distribute_okD(3) [OF assms, of m "r_picks t"] by linarith
      then have "?c |\<in>| m" by (rule distribute_okD(4) [OF assms])
      with any True f show ?thesis by auto
    next
      case False
      then have "(\<forall>c. c |\<in>| m \<longrightarrow> c < nr_cpu_ids api) \<longrightarrow> m = {||}"
        using distribute_okD(4) [OF assms, of m "r_picks t"] by blast
      with any False f show ?thesis by auto
    qed
  next
    case False
    with p show ?thesis by (auto simp: pick_any_cpu_def idle_enabled_def)
  qed
qed

end
