(* ===== verification/Rusty_Tuner.thy ===== *)
theory Rusty_Tuner
  imports Rusty_State
begin

text \<open>
  modules/rusty_saakm/rusty_saakm.c, third part: \<open>tuner_step\<close>, which measures how busy
  every domain is and marks the domains that may take tasks from others. The lemmas give
  its complete effect; the last ones say which cpus it marks.
\<close>

section \<open>One cpu of a domain\<close>

text \<open>The counters of a cpu in units of one user tick.\<close>

definition fetch_times :: "rusty_env \<Rightarrow> cpu \<Rightarrow> cpu_times" where
  "fetch_times env cpu =
     (let ks = kcpustat_cpu env cpu; d = user_tick_ns env
      in \<lparr>ct_user = ct_user ks div d, ct_nice = ct_nice ks div d, ct_system = ct_system ks div d,
          ct_idle = ct_idle ks div d, ct_iowait = ct_iowait ks div d, ct_irq = ct_irq ks div d,
          ct_softirq = ct_softirq ks div d, ct_steal = ct_steal ks div d\<rparr>)"

text \<open>The comparison with 0 is between \<open>u64\<close> values.\<close>

definition sub_or_zero :: "u64 \<Rightarrow> u64 \<Rightarrow> u64" where
  "sub_or_zero cur prev = (if cur - prev < 0 then 0 else cur - prev)"

definition cpu_util :: "cpu_times \<Rightarrow> cpu_times \<Rightarrow> u64" where
  "cpu_util new prev =
     (let util_user = sub_or_zero (ct_user new) (ct_user prev);
          util_nice = sub_or_zero (ct_nice new) (ct_nice prev);
          util_system = sub_or_zero (ct_system new) (ct_system prev);
          util_idle = sub_or_zero (ct_idle new) (ct_idle prev);
          util_iowait = sub_or_zero (ct_iowait new) (ct_iowait prev);
          util_irq = sub_or_zero (ct_irq new) (ct_irq prev);
          util_softirq = sub_or_zero (ct_softirq new) (ct_softirq prev);
          util_steal = sub_or_zero (ct_steal new) (ct_steal prev);
          busy_use = util_user + util_system + util_nice + util_irq + util_softirq + util_steal;
          total_use = util_idle + busy_use + util_iowait
      in if total_use > 0 then max (busy_use div total_use) 1 else 1)"

text \<open>
  The body of the inner loop: cpu \<open>dom_cpu\<close> of the domain, with the counters of the cpu of
  the outer loop. \<open>dom_util\<close> is an \<open>int\<close>.
\<close>

definition tuner_core ::
    "rusty_env \<Rightarrow> cpu \<Rightarrow> cpu \<Rightarrow> cpumask \<times> 32 word \<times> rusty_sys \<Rightarrow> cpumask \<times> 32 word \<times> rusty_sys"
  where
  "tuner_core env cpu dom_cpu = (\<lambda>(dom_already_done, dom_util, s).
     let new = fetch_times env cpu;
         util = cpu_util new (rc_times (cores s dom_cpu));
         s1 = upd_core dom_cpu (\<lambda>c. c\<lparr>rc_times := new\<rparr>) s
     in (cpumask_set_cpu dom_cpu dom_already_done, dom_util + ucast util, s1))"

section \<open>One domain\<close>

text \<open>\<open>for_each_cpu\<close> visits a mask in ascending order.\<close>

definition cpus_of :: "cpumask \<Rightarrow> cpu list" where
  "cpus_of m = sorted_list_of_fset m"

lemma set_cpus_of [simp]: "set (cpus_of m) = fset m"
  by (simp add: cpus_of_def)

definition cpumask_weight :: "cpumask \<Rightarrow> u32" where
  "cpumask_weight m = of_nat (fcard m)"

definition dom_average :: "32 word \<Rightarrow> cpumask \<Rightarrow> u64" where
  "dom_average dom_util cs =
     (if cpumask_weight cs > 0 then ucast (dom_util div cpumask_weight cs) else 0)"

text \<open>
  \<open>threshold > 0.99999 \<or> util < threshold\<close>: the first comparison is in floating point, here scaled
  to integers; the second one converts \<open>threshold\<close> to \<open>u64\<close>.
\<close>

definition greedy_enabled :: "int \<Rightarrow> u64 \<Rightarrow> bool" where
  "greedy_enabled threshold util \<longleftrightarrow> threshold * 100000 > 99999 \<or> util < of_int threshold"

definition cpumask_or_into :: "cpumask \<Rightarrow> cpumask option \<Rightarrow> cpumask option res" where
  "cpumask_or_into cs dst = (case dst of None \<Rightarrow> Inl NullDeref | Some m \<Rightarrow> Inr (Some (m |\<union>| cs)))"

definition tuner_domain ::
    "rusty_env \<Rightarrow> cpu \<Rightarrow> topology_level \<Rightarrow> cpumask \<times> 32 word \<times> rusty_sys \<Rightarrow>
     (cpumask \<times> 32 word \<times> rusty_sys) res" where
  "tuner_domain env cpu l st =
     (let (dom_already_done, dom_util, s) = fold (tuner_core env cpu) (cpus_of (topo_cores l)) st;
          util = dom_average dom_util (topo_cores l)
      in res_bind (if greedy_enabled direct_greedy_under util
                   then cpumask_or_into (topo_cores l) (r_direct_greedy s)
                   else Inr (r_direct_greedy s)) (\<lambda>direct.
         res_bind (if greedy_enabled kick_greedy_under util
                   then cpumask_or_into (topo_cores l) (r_kick_greedy s)
                   else Inr (r_kick_greedy s)) (\<lambda>kick.
         Inr (dom_already_done, dom_util, s\<lparr>r_direct_greedy := direct, r_kick_greedy := kick\<rparr>))))"

section \<open>All domains\<close>

text \<open>\<open>for_each_possible_cpu\<close>; a null level is only met when it is read.\<close>

fun tuner_loop ::
    "rusty_env \<Rightarrow> cpu list \<Rightarrow> cpumask \<times> 32 word \<times> rusty_sys \<Rightarrow>
     (cpumask \<times> 32 word \<times> rusty_sys) res" where
  "tuner_loop env [] st = Inr st"
| "tuner_loop env (cpu # cpus) st =
     (if cpumask_test_cpu cpu (fst st) then tuner_loop env cpus st
      else case topology_levels env cpu of
          None \<Rightarrow> Inl NullDeref
        | Some l \<Rightarrow> res_bind (tuner_domain env cpu l st) (tuner_loop env cpus))"

text \<open>The mask \<open>dom_already_done\<close> is allocated, not checked, and never freed.\<close>

definition tuner_step :: "rusty_env \<Rightarrow> rusty_sys \<Rightarrow> rusty_sys res" where
  "tuner_step env s =
     (if \<not> kzalloc_ok env then Inl NullDeref
      else res_bind (tuner_loop env (possible_cpus env) ({||}, 0, s\<lparr>r_leaked := Suc (r_leaked s)\<rparr>))
             (\<lambda>(dom_already_done, dom_util, s1). Inr s1))"

text \<open>The thread: one step per environment until it is told to stop.\<close>

fun tuner_fn :: "rusty_env list \<Rightarrow> rusty_sys \<Rightarrow> rusty_sys res" where
  "tuner_fn [] s = Inr s"
| "tuner_fn (env # envs) s = res_bind (tuner_step env s) (tuner_fn envs)"

section \<open>What it computes\<close>

text \<open>A difference of unsigned counters is never negative, so nothing is clamped.\<close>

lemma sub_or_zero_wraps: "sub_or_zero cur prev = cur - prev"
  by (simp add: sub_or_zero_def)

text \<open>The configured thresholds are above 0.99999, so utilisation is never looked at.\<close>

lemma greedy_always_enabled [simp]:
  "greedy_enabled direct_greedy_under util"
  "greedy_enabled kick_greedy_under util"
  by (simp_all add: greedy_enabled_def direct_greedy_under_def kick_greedy_under_def)

text \<open>
  \<open>tuner_frame s t\<close>: \<open>t\<close> is \<open>s\<close> but for the counters of the cores, the two masks, which
  have only gained cpus, and the leaked objects.
\<close>

definition tuner_frame :: "rusty_sys \<Rightarrow> rusty_sys \<Rightarrow> bool" where
  "tuner_frame s t \<longleftrightarrow> kern t = kern s \<and> heap t = heap s \<and> trace t = trace s \<and>
     r_idle_cpu t = r_idle_cpu s \<and> r_idle_smt t = r_idle_smt s \<and>
     r_all_cpumask t = r_all_cpumask s \<and> r_nr_doms t = r_nr_doms s \<and>
     r_dom_data t = r_dom_data s \<and> r_picks t = r_picks s \<and>
     (\<forall>c. rc_state (cores t c) = rc_state (cores s c) \<and> rc_id (cores t c) = rc_id (cores s c) \<and>
          rc_dom_rr_cur (cores t c) = rc_dom_rr_cur (cores s c) \<and>
          rc_dom_id (cores t c) = rc_dom_id (cores s c))"

lemma tuner_frame_refl [simp]: "tuner_frame s s"
  by (simp add: tuner_frame_def)

lemma tuner_frame_trans: "tuner_frame s t \<Longrightarrow> tuner_frame t u \<Longrightarrow> tuner_frame s u"
  by (simp add: tuner_frame_def)

lemma tuner_core_frame:
  "\<exists>u t. tuner_core env cpu d (done, util, s) = (finsert d done, u, t) \<and> tuner_frame s t \<and>
    r_direct_greedy t = r_direct_greedy s \<and> r_kick_greedy t = r_kick_greedy s \<and>
    r_leaked t = r_leaked s"
  by (simp add: tuner_core_def tuner_frame_def upd_core_def Let_def)

lemma tuner_cores_frame:
  "\<exists>u t. fold (tuner_core env cpu) ds (done, util, s) = (done |\<union>| fset_of_list ds, u, t) \<and>
    tuner_frame s t \<and> r_direct_greedy t = r_direct_greedy s \<and>
    r_kick_greedy t = r_kick_greedy s \<and> r_leaked t = r_leaked s"
proof (induction ds arbitrary: "done" util s)
  case Nil
  then show ?case by simp
next
  case (Cons d ds)
  obtain u t where 1: "tuner_core env cpu d (done, util, s) = (finsert d done, u, t)"
    "tuner_frame s t" "r_direct_greedy t = r_direct_greedy s" "r_kick_greedy t = r_kick_greedy s"
    "r_leaked t = r_leaked s"
    using tuner_core_frame by metis
  obtain v w where 2: "fold (tuner_core env cpu) ds (finsert d done, u, t) =
      (finsert d done |\<union>| fset_of_list ds, v, w)" "tuner_frame t w"
    "r_direct_greedy w = r_direct_greedy t" "r_kick_greedy w = r_kick_greedy t"
    "r_leaked w = r_leaked t"
    using Cons.IH [of "finsert d done" u t] by metis
  from 1 2 show ?case
    using tuner_frame_trans [OF 1(2) 2(2)] by (auto simp: finsert_absorb)
qed

lemma fset_of_cpus_of [simp]: "fset_of_list (cpus_of m) = m"
  by (simp add: cpus_of_def)

lemma tuner_domain_effect:
  assumes "r_direct_greedy s = Some dg" and "r_kick_greedy s = Some kg"
  shows "\<exists>u t. tuner_domain env cpu l (done, util, s) = Inr (done |\<union>| topo_cores l, u, t) \<and>
    tuner_frame s t \<and> r_direct_greedy t = Some (dg |\<union>| topo_cores l) \<and>
    r_kick_greedy t = Some (kg |\<union>| topo_cores l) \<and> r_leaked t = r_leaked s"
proof -
  obtain u t where f: "fold (tuner_core env cpu) (cpus_of (topo_cores l)) (done, util, s) =
      (done |\<union>| topo_cores l, u, t)" "tuner_frame s t"
    "r_direct_greedy t = r_direct_greedy s" "r_kick_greedy t = r_kick_greedy s"
    "r_leaked t = r_leaked s"
    using tuner_cores_frame [of env cpu "cpus_of (topo_cores l)" "done" util s] by auto
  then show ?thesis
    using assms by (simp add: tuner_domain_def cpumask_or_into_def tuner_frame_def)
qed

text \<open>The levels the loop visits: those of the cpus no earlier level contains.\<close>

fun visited :: "rusty_env \<Rightarrow> cpu list \<Rightarrow> cpumask \<Rightarrow> cpumask" where
  "visited env [] m = m"
| "visited env (cpu # cpus) m =
     (if cpumask_test_cpu cpu m then visited env cpus m
      else case topology_levels env cpu of
          None \<Rightarrow> m
        | Some l \<Rightarrow> visited env cpus (m |\<union>| topo_cores l))"

lemma visited_mono: "m |\<subseteq>| visited env cpus m"
  by (induction env cpus m rule: visited.induct) (auto split: option.splits)

lemma tuner_loop_effect:
  assumes "\<forall>c \<in> set cpus. topology_levels env c \<noteq> None"
    and "r_direct_greedy s = Some dg" and "r_kick_greedy s = Some kg"
    and "done |\<subseteq>| dg" and "done |\<subseteq>| kg"
  shows "\<exists>u t. tuner_loop env cpus (done, util, s) = Inr (visited env cpus done, u, t) \<and>
    tuner_frame s t \<and> r_leaked t = r_leaked s \<and>
    r_direct_greedy t = Some (dg |\<union>| visited env cpus done) \<and>
    r_kick_greedy t = Some (kg |\<union>| visited env cpus done)"
  using assms
proof (induction cpus arbitrary: "done" util s dg kg)
  case Nil
  then show ?case by (simp add: sup_absorb1)
next
  case (Cons c cpus)
  show ?case
  proof (cases "c |\<in>| done")
    case True
    then show ?thesis using Cons.IH [OF _ Cons.prems(2-5)] Cons.prems(1) by simp
  next
    case False
    from Cons.prems(1) obtain l where l: "topology_levels env c = Some l" by auto
    let ?d = "done |\<union>| topo_cores l"
    obtain u t where t: "tuner_domain env c l (done, util, s) = Inr (?d, u, t)"
      "tuner_frame s t" "r_direct_greedy t = Some (dg |\<union>| topo_cores l)"
      "r_kick_greedy t = Some (kg |\<union>| topo_cores l)" "r_leaked t = r_leaked s"
      using tuner_domain_effect [OF Cons.prems(2,3)] by metis
    have lv: "\<forall>c \<in> set cpus. topology_levels env c \<noteq> None" using Cons.prems(1) by simp
    have sub: "?d |\<subseteq>| dg |\<union>| topo_cores l" "?d |\<subseteq>| kg |\<union>| topo_cores l"
      using Cons.prems(4,5) by auto
    from Cons.IH [OF lv t(3,4) sub, of u] obtain v w where
      w: "tuner_loop env cpus (?d, u, t) = Inr (visited env cpus ?d, v, w)" "tuner_frame t w"
        "r_leaked w = r_leaked t"
        "r_direct_greedy w = Some (dg |\<union>| topo_cores l |\<union>| visited env cpus ?d)"
        "r_kick_greedy w = Some (kg |\<union>| topo_cores l |\<union>| visited env cpus ?d)"
      by blast
    have "topo_cores l |\<union>| visited env cpus ?d = visited env cpus ?d"
      using visited_mono [of ?d env cpus] by auto
    with w t l False tuner_frame_trans [OF t(2) w(2)] show ?thesis
      by (simp add: sup_assoc)
  qed
qed

lemma tuner_step_effect:
  assumes "kzalloc_ok env" and "\<forall>c \<in> set (possible_cpus env). topology_levels env c \<noteq> None"
    and "r_direct_greedy s = Some dg" and "r_kick_greedy s = Some kg"
  shows "\<exists>t. tuner_step env s = Inr t \<and> tuner_frame s t \<and> r_leaked t = Suc (r_leaked s) \<and>
    r_direct_greedy t = Some (dg |\<union>| visited env (possible_cpus env) {||}) \<and>
    r_kick_greedy t = Some (kg |\<union>| visited env (possible_cpus env) {||})"
proof -
  let ?s = "s\<lparr>r_leaked := Suc (r_leaked s)\<rparr>"
  have f: "tuner_frame s ?s" by (simp add: tuner_frame_def)
  obtain u t where "tuner_loop env (possible_cpus env) ({||}, 0, ?s) =
      Inr (visited env (possible_cpus env) {||}, u, t)" "tuner_frame ?s t"
    "r_leaked t = r_leaked ?s"
    "r_direct_greedy t = Some (dg |\<union>| visited env (possible_cpus env) {||})"
    "r_kick_greedy t = Some (kg |\<union>| visited env (possible_cpus env) {||})"
    using tuner_loop_effect [of "possible_cpus env" env ?s dg kg "{||}" 0] assms by auto
  then show ?thesis using assms(1) tuner_frame_trans [OF f] by (auto simp: tuner_step_def)
qed

section \<open>Which cpus it marks\<close>

text \<open>
  The topology the module counts on: every possible cpu has a level that contains it, and
  the cpus of a level are possible and have the same level.
\<close>

definition topology_ok :: "rusty_env \<Rightarrow> bool" where
  "topology_ok env \<longleftrightarrow> (\<forall>c \<in> set (possible_cpus env). \<exists>l. topology_levels env c = Some l \<and>
     c |\<in>| topo_cores l \<and>
     (\<forall>d. d |\<in>| topo_cores l \<longrightarrow> d \<in> set (possible_cpus env) \<and> topology_levels env d = Some l))"

lemma topology_okD:
  assumes "topology_ok env" and "c \<in> set (possible_cpus env)"
  shows "\<exists>l. topology_levels env c = Some l \<and> c |\<in>| topo_cores l \<and>
     (\<forall>d. d |\<in>| topo_cores l \<longrightarrow> d \<in> set (possible_cpus env) \<and> topology_levels env d = Some l)"
  using assms by (simp add: topology_ok_def)

lemma visited_all:
  assumes "\<forall>c \<in> set cpus. \<exists>l. topology_levels env c = Some l \<and> c |\<in>| topo_cores l"
  shows "set cpus \<subseteq> fset (visited env cpus m)"
  using assms
proof (induction cpus arbitrary: m)
  case Nil
  then show ?case by simp
next
  case (Cons c cpus)
  from Cons.prems obtain l where l: "topology_levels env c = Some l" "c |\<in>| topo_cores l" by auto
  have "c |\<in>| visited env (c # cpus) m"
  proof (cases "c |\<in>| m")
    case True
    then show ?thesis using visited_mono [of m env cpus] by auto
  next
    case False
    then show ?thesis using visited_mono [of "m |\<union>| topo_cores l" env cpus] l by auto
  qed
  moreover have "set cpus \<subseteq> fset (visited env (c # cpus) m)"
    using Cons.IH Cons.prems l by auto
  ultimately show ?case by simp
qed

lemma visited_possible:
  assumes "topology_ok env" and "set cpus \<subseteq> set (possible_cpus env)"
    and "fset m \<subseteq> set (possible_cpus env)"
  shows "fset (visited env cpus m) \<subseteq> set (possible_cpus env)"
  using assms
proof (induction cpus arbitrary: m)
  case Nil
  then show ?case by simp
next
  case (Cons c cpus)
  obtain l where l: "topology_levels env c = Some l"
    "\<forall>d. d |\<in>| topo_cores l \<longrightarrow> d \<in> set (possible_cpus env)"
    using topology_okD [OF Cons.prems(1), of c] Cons.prems(2) by auto
  then have "fset (m |\<union>| topo_cores l) \<subseteq> set (possible_cpus env)" using Cons.prems(3) by auto
  from Cons.IH [OF Cons.prems(1) _ this] Cons.IH [OF Cons.prems(1) _ Cons.prems(3)] Cons.prems(2) l(1)
  show ?case by simp
qed

lemma visited_possible_cpus:
  assumes "topology_ok env"
  shows "fset (visited env (possible_cpus env) {||}) = set (possible_cpus env)"
proof -
  have "\<forall>c \<in> set (possible_cpus env). \<exists>l. topology_levels env c = Some l \<and> c |\<in>| topo_cores l"
    using topology_okD [OF assms] by blast
  from visited_all [OF this] visited_possible [OF assms, of "possible_cpus env" "{||}"]
  show ?thesis by auto
qed

end
