(* ===== verification/Rusty.thy ===== *)
theory Rusty
  imports Rusty_Pick Rusty_Tuner
begin

text \<open>
  modules/rusty_saakm/rusty_saakm.c, fourth part: the choice of a cpu for a waking thread,
  the choice of its domain, the handlers of the routine table and the loading and
  unloading of the module.
\<close>

section \<open>Handlers of core events\<close>

text \<open>
  The bits of a mask that \<open>cpumask_size()\<close> bytes hold: \<open>nr_cpu_ids\<close> rounded up to longs.
\<close>

definition mask_bits :: "kapi \<Rightarrow> nat" where
  "mask_bits api = 64 * ((nr_cpu_ids api + 63) div 64)"

text \<open>
  The masks of a process are allocated with \<open>kzalloc(sizeof(cpumask_size()))\<close>: 4 bytes, the size of an
  \<open>unsigned int\<close>, whatever the number of cpus. Clearing such a mask or combining masks into it writes all the
  bits of a mask: outside the object, unless the one the allocator gave is large enough.
\<close>

definition mask_fits :: "kapi \<Rightarrow> bool" where
  "mask_fits api \<longleftrightarrow> mask_bits api \<le> 8 * ksize_of_4 api"

definition clear_idle_cpu :: "rusty_env \<Rightarrow> cpu \<Rightarrow> rusty_sys \<Rightarrow> rusty_sys" where
  "clear_idle_cpu env i s =
     (if smt_active env then s\<lparr>r_idle_smt := cpumask_clear_cpu i (r_idle_smt s)\<rparr>
      else s\<lparr>r_idle_cpu := cpumask_clear_cpu i (r_idle_cpu s)\<rparr>)"

definition sched_get_core_state :: "cpu \<Rightarrow> rusty_sys \<Rightarrow> core_state" where
  "sched_get_core_state target s = rc_state (cores s target)"

definition sched_core_entry :: "rusty_env \<Rightarrow> cpu \<Rightarrow> rusty_sys \<Rightarrow> rusty_sys res" where
  "sched_core_entry env target s =
     (let s1 = upd_core target (\<lambda>c. c\<lparr>rc_state := IPANEMA_ACTIVE_CORE\<rparr>) s;
          i = rc_id (cores s1 target)
      in case r_all_cpumask s1 of
           None \<Rightarrow> Inl NullDeref
         | Some m \<Rightarrow> Inr (clear_idle_cpu env i (s1\<lparr>r_all_cpumask := Some (cpumask_set_cpu i m)\<rparr>)))"

text \<open>The bit that is cleared is \<open>c->idle\<close>, the idle counter, converted to 32 bits.\<close>

definition sched_core_exit :: "kapi \<Rightarrow> rusty_env \<Rightarrow> cpu \<Rightarrow> rusty_sys \<Rightarrow> rusty_sys res" where
  "sched_core_exit api env target s =
     (let s1 = upd_core target (\<lambda>c. c\<lparr>rc_state := IPANEMA_IDLE_CORE\<rparr>) s;
          c = cores s1 target;
          bit = unat (ucast (ct_idle (rc_times c)) :: u32)
      in case r_all_cpumask s1 of
           None \<Rightarrow> Inl NullDeref
         | Some m \<Rightarrow>
             if bit \<ge> mask_bits api then Inl OutOfBounds
             else Inr (clear_idle_cpu env (rc_id c)
                         (s1\<lparr>r_all_cpumask := Some (cpumask_clear_cpu bit m)\<rparr>)))"

definition sched_newly_idle :: "cpu \<Rightarrow> rusty_sys \<Rightarrow> rusty_sys" where
  "sched_newly_idle target s = s"

definition sched_enter_idle :: "rusty_env \<Rightarrow> cpu \<Rightarrow> rusty_sys \<Rightarrow> rusty_sys" where
  "sched_enter_idle env target s =
     (let s1 = upd_core target (\<lambda>c. c\<lparr>rc_state := IPANEMA_IDLE_CORE\<rparr>) s;
          i = rc_id (cores s1 target)
      in if smt_active env then s1\<lparr>r_idle_smt := cpumask_set_cpu i (r_idle_smt s1)\<rparr>
         else s1\<lparr>r_idle_cpu := cpumask_set_cpu i (r_idle_cpu s1)\<rparr>)"

definition sched_exit_idle :: "rusty_env \<Rightarrow> cpu \<Rightarrow> rusty_sys \<Rightarrow> rusty_sys" where
  "sched_exit_idle env target s =
     (let s1 = upd_core target (\<lambda>c. c\<lparr>rc_state := IPANEMA_ACTIVE_CORE\<rparr>) s
      in clear_idle_cpu env (rc_id (cores s1 target)) s1)"

definition sched_balancing_select :: "cpu \<Rightarrow> rusty_sys \<Rightarrow> rusty_sys" where
  "sched_balancing_select target s = s"

section \<open>Choosing a cpu for a thread\<close>

text \<open>
  A step of the search: \<open>Some cpu\<close> jumps to the label \<open>direct\<close>, \<open>None\<close> goes on with the
  next step.
\<close>

type_synonym search = "(int option \<times> rusty_sys) res"

definition or_else :: "search \<Rightarrow> (rusty_sys \<Rightarrow> search) \<Rightarrow> search" where
  "or_else m f = res_bind m (\<lambda>(r, s). case r of Some cpu \<Rightarrow> Inr (Some cpu, s) | None \<Rightarrow> f s)"

text \<open>\<open>if (cpu >= 0) goto direct\<close>\<close>

definition goto_direct :: "(int \<times> rusty_sys) res \<Rightarrow> search" where
  "goto_direct m = res_bind m (\<lambda>(cpu, s). Inr (if cpu \<ge> 0 then Some cpu else None, s))"

definition claim_cpu :: "kapi \<Rightarrow> rusty_env \<Rightarrow> cpu \<Rightarrow> rusty_sys \<Rightarrow> search" where
  "claim_cpu api env cpu s =
     (let (idle, s1) = test_and_clear_cpu_idle api env cpu s
      in Inr (if idle then Some (int cpu) else None, s1))"

text \<open>\<open>dom_data[i]->topology->cores\<close>\<close>

definition dom_cores :: "nat \<Rightarrow> rusty_sys \<Rightarrow> cpumask res" where
  "dom_cores i s =
     (if i \<ge> MAX_DOMS then Inl OutOfBounds
      else case r_dom_data s i of
          None \<Rightarrow> Inl NullDeref
        | Some d \<Rightarrow> Inr (topo_cores (dom_topology d)))"

definition try_sync_wakeup ::
    "kapi \<Rightarrow> rusty_env \<Rightarrow> task \<Rightarrow> rusty_process \<Rightarrow> cpu \<Rightarrow> rusty_sys \<Rightarrow> (int \<times> rusty_sys) res" where
  "try_sync_wakeup api env p rp prev_cpu s =
     (let cpu = smp_processor_id env
      in res_bind (dom_cores (unat (rc_dom_id (cores s cpu))) s) (\<lambda>d_cpumask.
        let share_llc = cpumask_test_cpu prev_cpu d_cpumask
        in res_bind (if share_llc then claim_cpu api env prev_cpu s else Inr (None, s)) (\<lambda>(r, s1).
          case r of
            Some prev \<Rightarrow> Inr (prev, s1)
          | None \<Rightarrow>
              let has_idle = cpumask_intersects d_cpumask (get_idle_cpumask env s1)
              in if has_idle \<and> cpumask_test_cpu cpu (cpus_ptr env p) \<and> \<not> pf_exiting env \<and>
                    rp_dom_id rp < int MAX_DOMS \<and> k_queue (kern s1) (LocalRq cpu) = []
                 then Inr (int cpu, s1) else Inr (- ENOENT, s1))))"

text \<open>
  The domestic part, down to \<open>pick_idle_cpu(p_cpumask, 0)\<close>: \<open>idle_smtmask\<close> points to the
  mask, so its bits are read when they are tested.
\<close>

definition select_domestic ::
    "kapi \<Rightarrow> rusty_env \<Rightarrow> cpumask \<Rightarrow> bool \<Rightarrow> bool \<Rightarrow> cpu \<Rightarrow> rusty_sys \<Rightarrow> search" where
  "select_domestic api env p_cpumask has_idle_cores prev_domestic prev_cpu s =
     or_else (if prev_domestic \<and> cpumask_test_cpu prev_cpu (get_idle_cpumask env s)
              then claim_cpu api env prev_cpu s else Inr (None, s)) (\<lambda>s1.
     or_else (if has_idle_cores
              then goto_direct (returned (pick_idle_cpu api env p_cpumask PICK_IDLE_CORE s1))
              else Inr (None, s1)) (\<lambda>s2.
     or_else (if prev_domestic then claim_cpu api env prev_cpu s2 else Inr (None, s2)) (\<lambda>s3.
     goto_direct (returned (pick_idle_cpu api env p_cpumask 0 s3)))))"

text \<open>
  The foreign part. Two small masks are allocated: the first one is lost at once, the second one,
  \<open>node_mask\<close>, is all zero, read in full and lost at the end. \<open>a\<close> is the address of the process.
\<close>

definition select_greedy ::
    "kapi \<Rightarrow> rusty_env \<Rightarrow> addr \<Rightarrow> rusty_process \<Rightarrow> bool \<Rightarrow> rusty_sys \<Rightarrow> search" where
  "select_greedy api env a rp has_idle_cores s =
     (case r_direct_greedy s of
        None \<Rightarrow> Inr (None, s)
      | Some direct_greedy \<Rightarrow>
          if rp_all_cpus rp \<and> direct_greedy \<noteq> {||} then
            if \<not> direct_greedy_numa \<and> \<not> kzalloc_small_ok env then Inl NullDeref
            else if \<not> direct_greedy_numa \<and> \<not> mask_fits api then Inl OutOfBounds
            else
              let node_mask = {||};
                  s1 = s\<lparr>r_leaked := r_leaked s + (if kzalloc_small_ok env then 2 else 0)\<rparr>;
                  tmp = (if \<not> direct_greedy_numa then node_mask |\<inter>| direct_greedy else direct_greedy);
                  s2 = (if \<not> direct_greedy_numa then put_proc a (rp\<lparr>rp_tmp_cpumask := tmp\<rparr>) s1 else s1)
              in or_else (if has_idle_cores
                          then goto_direct (returned (pick_idle_cpu api env tmp PICK_IDLE_CORE s2))
                          else Inr (None, s2)) (\<lambda>s3.
                 goto_direct (returned (pick_idle_cpu api env tmp 0 s3)))
          else Inr (None, s))"

definition set_dispatch_local :: "addr \<Rightarrow> rusty_sys \<Rightarrow> rusty_sys" where
  "set_dispatch_local a s = s\<lparr>heap := (heap s)(a := map_option (\<lambda>rp. rp\<lparr>rp_dispatch_local := True\<rparr>) (heap s a))\<rparr>"

text \<open>The whole function, on the process at address \<open>a\<close>.\<close>

definition rusty_select_cpu ::
    "kapi \<Rightarrow> rusty_env \<Rightarrow> addr \<Rightarrow> task \<Rightarrow> cpu \<Rightarrow> u32 \<Rightarrow> rusty_sys \<Rightarrow> (int \<times> rusty_sys) res" where
  "rusty_select_cpu api env a p prev_cpu wake_flags s0 =
     (case heap s0 a of
        None \<Rightarrow> Inl UseAfterFree
      | Some rp \<Rightarrow>
          let p_cpumask = rp_cpumask rp;
              prev_domestic = cpumask_test_cpu prev_cpu p_cpumask
          in res_bind (tuner_step env s0) (\<lambda>s.
             res_bind
               (or_else (if nr_cpus_allowed env p = 1 then Inr (Some (int prev_cpu), s)
                         else Inr (None, s)) (\<lambda>s.
                or_else (if wake_flags AND WF_SYNC api \<noteq> 0
                         then goto_direct (try_sync_wakeup api env p rp prev_cpu s)
                         else Inr (None, s)) (\<lambda>s.
                let has_idle_cores = get_idle_cpumask env s \<noteq> {||}
                in or_else (select_domestic api env p_cpumask has_idle_cores prev_domestic prev_cpu s)
                     (select_greedy api env a rp has_idle_cores))))
               (\<lambda>(direct, s).
                  case direct of
                    Some cpu \<Rightarrow> Inr (cpu, set_dispatch_local a s)
                  | None \<Rightarrow>
                      if prev_domestic then Inr (int prev_cpu, s)
                      else pick_any_cpu api env p_cpumask 0 s)))"

section \<open>Choosing the domains of a thread\<close>

text \<open>
  The loop of \<open>task_pick_domain\<close>, with \<open>n\<close> turns left; \<open>first_dom\<close> is negative until a
  domain has been found.
\<close>

fun pick_domain_loop ::
    "nat \<Rightarrow> cpumask \<Rightarrow> rusty_sys \<Rightarrow> u32 \<Rightarrow> int \<Rightarrow> rusty_process \<Rightarrow> rusty_process res" where
  "pick_domain_loop 0 allowed s dm first_dom rp = Inr rp"
| "pick_domain_loop (Suc n) allowed s dm first_dom rp =
     (let dm = (dm + 1) mod of_nat (r_nr_doms s)
      in res_bind (dom_cores (unat dm) s) (\<lambda>cs.
           if cpumask_intersects allowed cs then
             let rp1 = rp\<lparr>rp_dom_mask := rp_dom_mask rp OR push_bit (unat dm) 1\<rparr>;
                 rp2 = rp1\<lparr>rp_cpumask := cs |\<inter>| allowed\<rparr>
             in if first_dom < 0
                then pick_domain_loop n allowed s dm (int (unat dm))
                       (rp2\<lparr>rp_dom_id := int (unat dm)\<rparr>)
                else pick_domain_loop n allowed s dm first_dom rp2
           else pick_domain_loop n allowed s dm first_dom rp))"

definition task_pick_domain ::
    "rusty_env \<Rightarrow> task \<Rightarrow> rusty_process \<Rightarrow> rusty_sys \<Rightarrow> (rusty_process \<times> rusty_sys) res" where
  "task_pick_domain env p rp s =
     (let cpu = smp_processor_id env;
          dm = rc_dom_rr_cur (cores s cpu);
          s1 = upd_core cpu (\<lambda>c. c\<lparr>rc_dom_rr_cur := dm + 1\<rparr>) s
      in res_map (\<lambda>rp. (rp, s1))
           (pick_domain_loop (r_nr_doms s) (cpus_ptr env p) s1 dm (-1) (rp\<lparr>rp_dom_mask := 0\<rparr>)))"

section \<open>Handlers of process events\<close>

text \<open>
  A fresh object: \<open>kzalloc\<close> zeroes it; its two masks are allocated, not checked, and cleared.
\<close>

definition new_process :: "task \<Rightarrow> rusty_process" where
  "new_process p = \<lparr>rp_state = state_code IPANEMA_NOT_QUEUED, rp_rq = None, rp_task = p,
     rp_cpumask = {||}, rp_tmp_cpumask = {||}, rp_dom_mask = 0, rp_dom_id = 0, rp_slice = 0,
     rp_dispatch_local = False, rp_all_cpus = False\<rparr>"

definition sched_new_prepare ::
    "kapi \<Rightarrow> rusty_env \<Rightarrow> task \<Rightarrow> u32 \<Rightarrow> addr option \<Rightarrow> rusty_sys \<Rightarrow> (int \<times> rusty_sys) res" where
  "sched_new_prepare api env p flags alloc s =
     (case alloc of
        None \<Rightarrow> Inr (-1, s)
      | Some a \<Rightarrow>
          let s1 = set_metadata p a (put_proc a (new_process p) s)
          in if \<not> kzalloc_small_ok env then Inl NullDeref
             else if \<not> mask_fits api then Inl OutOfBounds
             else res_bind (task_pick_domain env p (new_process p) s1) (\<lambda>(rp, s2).
               case r_all_cpumask s2 of
                 None \<Rightarrow> Inl NullDeref
               | Some all \<Rightarrow>
                   let s3 = put_proc a (rp\<lparr>rp_all_cpus := (all |\<subseteq>| cpus_ptr env p)\<rparr>) s2
                   in rusty_select_cpu api env a p (k_cpu (kern s3) p) flags s3))"

definition rusty_enqueue_task ::
    "kapi \<Rightarrow> addr \<Rightarrow> rqid option \<Rightarrow> ipanema_state \<Rightarrow> rusty_sys \<Rightarrow> rusty_sys res" where
  "rusty_enqueue_task api a next_rq st s =
     (case heap s a of
        None \<Rightarrow> Inl UseAfterFree
      | Some rp \<Rightarrow>
          let s1 = put_proc a (rp\<lparr>rp_state := state_code st, rp_rq := next_rq\<rparr>) s
          in Inr (call_change_state api (rp_task rp) st (k_cpu (kern s1) (rp_task rp)) next_rq s1))"

definition sched_new_place :: "kapi \<Rightarrow> task \<Rightarrow> rusty_sys \<Rightarrow> rusty_sys res" where
  "sched_new_place api p s =
     res_bind (policy_metadata p s) (\<lambda>(a, rp).
       let cpu_dst = k_cpu (kern s) (rp_task rp);
           s1 = put_proc a (rp\<lparr>rp_slice := ucast SLICE_NS\<rparr>) s
       in rusty_enqueue_task api a (Some (LocalRq cpu_dst)) IPANEMA_READY s1)"

definition sched_new_end :: "task \<Rightarrow> rusty_sys \<Rightarrow> rusty_sys" where
  "sched_new_end p s = s"

text \<open>
  \<open>slice\<close> is converted to \<open>u64\<close> for the comparison and the subtraction, and the result
  back to \<open>int\<close>.
\<close>

definition slice_left :: "32 word \<Rightarrow> u64 \<Rightarrow> 32 word" where
  "slice_left slc delta_exec =
     (let sl = scast slc in ucast (sl - (if sl < delta_exec then sl else delta_exec)))"

definition rusty_sched_tick :: "kapi \<Rightarrow> rusty_env \<Rightarrow> task \<Rightarrow> u64 \<Rightarrow> rusty_sys \<Rightarrow> rusty_sys res" where
  "rusty_sched_tick api env p now s =
     res_bind (policy_metadata p s) (\<lambda>(a, rp).
       let delta_exec = now - exec_start env p;
           rp1 = rp\<lparr>rp_slice := slice_left (rp_slice rp) delta_exec\<rparr>;
           s1 = put_proc a rp1 s
       in if rp_slice rp1 = 0
          then rusty_enqueue_task api a (Some (LocalRq (k_cpu (kern s1) (rp_task rp1))))
                 IPANEMA_READY_TICK s1
          else Inr s1)"

definition sched_yield :: "kapi \<Rightarrow> task \<Rightarrow> rusty_sys \<Rightarrow> rusty_sys res" where
  "sched_yield api p s =
     res_bind (policy_metadata p s) (\<lambda>(a, rp).
     res_bind (rusty_enqueue_task api a (Some (LocalRq (k_cpu (kern s) (rp_task rp)))) IPANEMA_READY s)
       (\<lambda>s1. case heap s1 a of
          None \<Rightarrow> Inl UseAfterFree
        | Some rp1 \<Rightarrow> Inr (put_proc a (rp1\<lparr>rp_slice := 0\<rparr>) s1)))"

definition sched_block :: "kapi \<Rightarrow> task \<Rightarrow> rusty_sys \<Rightarrow> rusty_sys res" where
  "sched_block api p s =
     res_bind (policy_metadata p s) (\<lambda>(a, rp).
       let s1 = put_proc a (rp\<lparr>rp_state := state_code IPANEMA_BLOCKED, rp_rq := None\<rparr>) s
       in Inr (call_change_state api (rp_task rp) IPANEMA_BLOCKED (k_cpu (kern s1) (rp_task rp)) None s1))"

definition sched_unblock_prepare ::
    "kapi \<Rightarrow> rusty_env \<Rightarrow> task \<Rightarrow> rusty_sys \<Rightarrow> (int \<times> rusty_sys) res" where
  "sched_unblock_prepare api env p s =
     (case k_meta (kern s) p of
        None \<Rightarrow> Inl NullDeref
      | Some a \<Rightarrow> rusty_select_cpu api env a p (k_cpu (kern s) p) 0 s)"

definition sched_unblock_place :: "kapi \<Rightarrow> task \<Rightarrow> rusty_sys \<Rightarrow> rusty_sys res" where
  "sched_unblock_place api p s =
     res_bind (policy_metadata p s) (\<lambda>(a, rp).
       let cpu_dst = k_cpu (kern s) (rp_task rp)
       in rusty_enqueue_task api a (Some (LocalRq cpu_dst)) IPANEMA_READY s)"

definition sched_unblock_end :: "task \<Rightarrow> rusty_sys \<Rightarrow> rusty_sys" where
  "sched_unblock_end p s = s"

text \<open>The object is freed, its two masks are not.\<close>

definition sched_terminate :: "kapi \<Rightarrow> task \<Rightarrow> rusty_sys \<Rightarrow> rusty_sys res" where
  "sched_terminate api p s =
     res_bind (policy_metadata p s) (\<lambda>(a, rp).
       let s1 = put_proc a (rp\<lparr>rp_state := state_code IPANEMA_TERMINATED, rp_rq := None\<rparr>) s;
           s2 = call_change_state api (rp_task rp) IPANEMA_TERMINATED (k_cpu (kern s1) (rp_task rp)) None s1
       in Inr ((kfree a s2)\<lparr>r_leaked := r_leaked s2 + 2\<rparr>))"

definition sched_schedule :: "kapi \<Rightarrow> cpu \<Rightarrow> rusty_sys \<Rightarrow> rusty_sys res" where
  "sched_schedule api cpu s =
     (case first_task api (kern s) (LocalRq cpu) of
        None \<Rightarrow> Inr s
      | Some nxt \<Rightarrow>
          res_bind (policy_metadata nxt s) (\<lambda>(a, rp).
            let rp1 = rp\<lparr>rp_state := state_code IPANEMA_RUNNING, rp_rq := None,
                         rp_slice := ucast SLICE_NS\<rparr>;
                s1 = put_proc a rp1 s
            in Inr (call_change_state api (rp_task rp1) IPANEMA_RUNNING
                      (k_cpu (kern s1) (rp_task rp1)) None s1)))"

section \<open>The routine table\<close>

text \<open>
  A run interleaves the events of the framework, each in its environment, with the steps
  of the tuner thread.
\<close>

datatype rusty_event = Event rusty_env kevent | TunerStep rusty_env

fun rusty_routines :: "kapi \<Rightarrow> rusty_event \<Rightarrow> rusty_sys \<Rightarrow> rusty_sys res" where
  "rusty_routines api (Event env (NewPrepare p flags al n)) s =
     res_map snd (sched_new_prepare api env p flags al s)"
| "rusty_routines api (Event env (NewPlace p)) s = sched_new_place api p s"
| "rusty_routines api (Event env (NewEnd p)) s = Inr (sched_new_end p s)"
| "rusty_routines api (Event env (Tick p c now)) s = rusty_sched_tick api env p now s"
| "rusty_routines api (Event env (Yield p)) s = sched_yield api p s"
| "rusty_routines api (Event env (Block p c)) s = sched_block api p s"
| "rusty_routines api (Event env (UnblockPrepare p flags n)) s =
     res_map snd (sched_unblock_prepare api env p s)"
| "rusty_routines api (Event env (UnblockPlace p)) s = sched_unblock_place api p s"
| "rusty_routines api (Event env (UnblockEnd p)) s = Inr (sched_unblock_end p s)"
| "rusty_routines api (Event env (Terminate p)) s = sched_terminate api p s"
| "rusty_routines api (Event env (Schedule c now)) s = sched_schedule api c s"
| "rusty_routines api (Event env (CoreEntry c)) s = sched_core_entry env c s"
| "rusty_routines api (Event env (CoreExit c)) s = sched_core_exit api env c s"
| "rusty_routines api (Event env (NewlyIdle c)) s = Inr (sched_newly_idle c s)"
| "rusty_routines api (Event env (EnterIdle c)) s = Inr (sched_enter_idle env c s)"
| "rusty_routines api (Event env (ExitIdle c)) s = Inr (sched_exit_idle env c s)"
| "rusty_routines api (Event env (BalancingSelect c)) s = Inr (sched_balancing_select c s)"
| "rusty_routines api (Event env (SetTaskCpu p c)) s = Inr (set_task_cpu p c s)"
| "rusty_routines api (TunerStep env) s = tuner_fn [env] s"

section \<open>Loading and unloading\<close>

definition rusty_init :: int where
  "rusty_init = 0"

definition rusty_free_metadata :: "addr option \<Rightarrow> rusty_sys \<Rightarrow> int \<times> rusty_sys" where
  "rusty_free_metadata policy_data s =
     (case policy_data of None \<Rightarrow> (0, s) | Some a \<Rightarrow> (0, kfree a s))"

definition rusty_can_be_default :: int where
  "rusty_can_be_default = 1"

definition rusty_attach :: "task \<Rightarrow> string \<Rightarrow> bool" where
  "rusty_attach p command = True"

text \<open>The module with its kernel thread.\<close>

record rusty_module = module +
  tuner_running :: bool

text \<open>The body of the first loop.\<close>

definition init_core :: "kapi \<Rightarrow> rusty_env \<Rightarrow> cpu \<Rightarrow> rusty_sys \<Rightarrow> rusty_sys" where
  "init_core api env cpu s =
     (let s1 = upd_core cpu (\<lambda>c. c\<lparr>rc_id := cpu, rc_state := IPANEMA_ACTIVE_CORE\<rparr>) s;
          s2 = s1\<lparr>kern := init_rq api (LocalRq cpu) (kern s1)\<rparr>;
          s3 = upd_core cpu (\<lambda>c. c\<lparr>rc_dom_rr_cur := of_nat cpu\<rparr>) s2;
          s4 = (if smt_active env then s3\<lparr>r_idle_smt := r_idle_smt s3 |\<union>| cpu_smt_mask api cpu\<rparr> else s3)
      in s4\<lparr>r_idle_cpu := cpumask_set_cpu cpu (r_idle_cpu s4),
            r_all_cpumask := map_option (cpumask_set_cpu cpu) (r_all_cpumask s4)\<rparr>)"

text \<open>The second loop: \<open>Inl\<close> is a fault, \<open>(False, s)\<close> the return of \<open>-ENOENT\<close>.\<close>

definition set_dom_id :: "u32 \<Rightarrow> cpu \<Rightarrow> rusty_sys \<Rightarrow> rusty_sys" where
  "set_dom_id d cpu_dom s = upd_core cpu_dom (\<lambda>c. c\<lparr>rc_dom_id := d\<rparr>) s"

fun init_doms :: "rusty_env \<Rightarrow> cpu list \<Rightarrow> cpumask \<Rightarrow> rusty_sys \<Rightarrow> (bool \<times> rusty_sys) res" where
  "init_doms env [] domain_done s = Inr (True, s)"
| "init_doms env (cpu # cpus) domain_done s =
     (case topology_levels env cpu of
        None \<Rightarrow> Inr (False, s)
      | Some l \<Rightarrow>
          if cpumask_test_cpu cpu domain_done then init_doms env cpus domain_done s
          else if domain_numa l then init_doms env cpus domain_done s
          else if r_nr_doms s \<ge> MAX_DOMS then Inl OutOfBounds
          else if \<not> kzalloc_ok env then Inl NullDeref
          else
            let d = r_nr_doms s;
                s1 = s\<lparr>r_dom_data := (r_dom_data s)(d \<mapsto> \<lparr>dom_ctx_id = of_nat d, dom_topology = l\<rparr>)\<rparr>;
                s2 = fold (set_dom_id (of_nat d)) (cpus_of (topo_cores l)) s1
            in init_doms env cpus (domain_done |\<union>| topo_cores l) (s2\<lparr>r_nr_doms := Suc d\<rparr>))"

text \<open>
  \<open>init_sched\<close> with \<open>add_res\<close> the result of \<open>ipanema_add_policy\<close>. The mask \<open>domain_done\<close> is
  never freed.
\<close>

definition init_sched ::
    "kapi \<Rightarrow> rusty_env \<Rightarrow> int \<Rightarrow> rusty_sys \<Rightarrow> rusty_module \<Rightarrow> (int \<times> rusty_sys \<times> rusty_module) res" where
  "init_sched api env add_res s m =
     (if \<not> kzalloc_ok env then Inl NullDeref
      else
        let s1 = s\<lparr>r_leaked := Suc (r_leaked s), r_all_cpumask := Some {||},
                   r_direct_greedy := Some {||}, r_kick_greedy := Some {||}, r_nr_doms := 0\<rparr>;
            s2 = fold (init_core api env) (possible_cpus env) s1
        in res_bind (init_doms env (possible_cpus env) {||} s2) (\<lambda>(ok, s3).
             if \<not> ok then Inr (- ENOENT, s3, m)
             else
               let m1 = m\<lparr>tuner_running := True, policy_allocated := True,
                          policy_registered := (add_res = 0)\<rparr>
               in Inr (add_res, s3, if add_res \<noteq> 0 then m1\<lparr>policy_allocated := False\<rparr> else m1)))"

definition exit_sched :: "rusty_module \<Rightarrow> rusty_module" where
  "exit_sched m = m\<lparr>tuner_running := False, policy_registered := False, policy_allocated := False\<rparr>"

end
