(* ===== verification/Rusty_Select.thy ===== *)
theory Rusty_Select
  imports Rusty
begin

text \<open>
  modules/rusty_saakm/rusty_saakm.c: what \<open>rusty_select_cpu\<close> and \<open>task_pick_domain\<close> compute.
  The search for a cpu is a sequence of steps; the collection of \<open>finds\<close> lemmas gives one
  fact per kind of step, and the lemma on the whole function composes them.
\<close>

section \<open>What a search may change\<close>

text \<open>A process and the same process after a search.\<close>

definition same_proc :: "rusty_process \<Rightarrow> rusty_process \<Rightarrow> bool" where
  "same_proc rp rp' \<longleftrightarrow> rp_state rp' = rp_state rp \<and> rp_rq rp' = rp_rq rp \<and>
     rp_task rp' = rp_task rp \<and> rp_cpumask rp' = rp_cpumask rp \<and>
     rp_dom_mask rp' = rp_dom_mask rp \<and> rp_dom_id rp' = rp_dom_id rp \<and>
     rp_slice rp' = rp_slice rp \<and> rp_all_cpus rp' = rp_all_cpus rp"

text \<open>The masks that are allocated when the module is loaded.\<close>

definition masks_ready :: "rusty_sys \<Rightarrow> bool" where
  "masks_ready s \<longleftrightarrow> r_direct_greedy s \<noteq> None \<and> r_kick_greedy s \<noteq> None \<and> r_all_cpumask s \<noteq> None"

definition sel_frame :: "addr \<Rightarrow> rusty_sys \<Rightarrow> rusty_sys \<Rightarrow> bool" where
  "sel_frame a s t \<longleftrightarrow> kern t = kern s \<and> trace t = trace s \<and>
     (\<forall>b. b \<noteq> a \<longrightarrow> heap t b = heap s b) \<and> rel_option same_proc (heap s a) (heap t a) \<and>
     r_all_cpumask t = r_all_cpumask s \<and> r_nr_doms t = r_nr_doms s \<and>
     r_dom_data t = r_dom_data s \<and> (masks_ready s \<longrightarrow> masks_ready t) \<and>
     r_idle_cpu t |\<subseteq>| r_idle_cpu s \<and> r_idle_smt t |\<subseteq>| r_idle_smt s \<and>
     (\<forall>c. rc_state (cores t c) = rc_state (cores s c) \<and> rc_id (cores t c) = rc_id (cores s c) \<and>
          rc_dom_rr_cur (cores t c) = rc_dom_rr_cur (cores s c) \<and>
          rc_dom_id (cores t c) = rc_dom_id (cores s c))"

lemma same_proc_refl [simp]: "same_proc rp rp"
  by (simp add: same_proc_def)

lemma rel_same_refl [simp]: "rel_option same_proc x x"
  by (cases x) simp_all

lemma sel_frame_refl [simp]: "sel_frame a s s"
  by (simp add: sel_frame_def)

lemma sel_frame_trans:
  assumes "sel_frame a s t" and "sel_frame a t u"
  shows "sel_frame a s u"
proof -
  have "rel_option same_proc (heap s a) (heap u a)"
    using assms unfolding sel_frame_def
    by (cases "heap s a"; cases "heap t a"; cases "heap u a") (simp_all add: same_proc_def)
  moreover have "r_idle_cpu u |\<subseteq>| r_idle_cpu s" "r_idle_smt u |\<subseteq>| r_idle_smt s"
    using assms unfolding sel_frame_def by auto
  ultimately show ?thesis using assms by (simp add: sel_frame_def)
qed

lemma idle_sel_frame: "idle_frame s t \<Longrightarrow> sel_frame a s t"
  by (simp add: idle_frame_def sel_frame_def masks_ready_def)

text \<open>The object at \<open>a\<close> during the search.\<close>

lemma sel_frame_object:
  assumes "sel_frame a s t" and "heap s a = Some rp"
  shows "\<exists>rp'. heap t a = Some rp' \<and> same_proc rp rp'"
  using assms by (cases "heap t a") (auto simp: sel_frame_def)

section \<open>One lemma per kind of step\<close>

text \<open>
  \<open>finds F a R s m\<close>: the step \<open>m\<close> from \<open>s\<close> returns, with a cpu in \<open>R\<close> or none, or it has one of the faults \<open>F\<close>.
\<close>

definition finds :: "fault set \<Rightarrow> addr \<Rightarrow> (int \<Rightarrow> bool) \<Rightarrow> rusty_sys \<Rightarrow> search \<Rightarrow> bool" where
  "finds F a R s m \<longleftrightarrow>
     (\<exists>r t. m = Inr (r, t) \<and> sel_frame a s t \<and> (\<forall>cpu. r = Some cpu \<longrightarrow> R cpu)) \<or> (\<exists>f \<in> F. m = Inl f)"

lemma finds_none [simp]: "finds F a R s (Inr (None, s))"
  by (simp add: finds_def)

lemma finds_some: "R cpu \<Longrightarrow> finds F a R s (Inr (Some cpu, s))"
  by (simp add: finds_def)

lemma finds_or_else:
  assumes "finds F a R s m" and "\<And>t. sel_frame a s t \<Longrightarrow> finds F a R t (f t)"
  shows "finds F a R s (or_else m f)"
proof -
  from assms(1) consider e where "e \<in> F" "m = Inl e"
    | r t where "m = Inr (r, t)" "sel_frame a s t" "\<And>cpu. r = Some cpu \<Longrightarrow> R cpu"
    by (auto simp: finds_def)
  then show ?thesis
  proof cases
    case (2 r t)
    from assms(2) [OF 2(2)] consider e where "e \<in> F" "f t = Inl e"
      | r' u where "f t = Inr (r', u)" "sel_frame a t u" "\<And>cpu. r' = Some cpu \<Longrightarrow> R cpu"
      by (auto simp: finds_def)
    then show ?thesis
    proof cases
      case 1
      with 2 show ?thesis by (cases r) (auto simp: finds_def or_else_def)
    next
      case (2 r' u)
      with \<open>m = Inr (r, t)\<close> \<open>sel_frame a s t\<close> \<open>\<And>cpu. r = Some cpu \<Longrightarrow> R cpu\<close> sel_frame_trans [OF \<open>sel_frame a s t\<close> 2(2)]
      show ?thesis by (cases r) (auto simp: finds_def or_else_def)
    qed
  qed (simp add: finds_def or_else_def)
qed

lemma finds_claim:
  assumes "R (int cpu)"
  shows "finds F a R s (claim_cpu api env cpu s)"
  using assms idle_sel_frame [OF test_and_clear_frame [of s api env cpu]]
  by (auto simp: finds_def claim_cpu_def split: prod.splits)

lemma finds_pick:
  assumes "distribute_ok api env" and "\<And>c. c |\<in>| m \<Longrightarrow> R (int c)"
  shows "finds F a R s (goto_direct (returned (pick_idle_cpu api env m flags s)))"
proof -
  obtain cpu t where "pick_idle_cpu api env m flags s = Some (cpu, t)" "idle_frame s t"
    "cpu = - EBUSY \<or> (\<exists>c. cpu = int c \<and> c |\<in>| m)"
    using pick_idle_cpu_returns [OF assms(1), of m flags s] by blast
  then show ?thesis using assms(2)
    by (auto simp: finds_def goto_direct_def EBUSY_def intro: idle_sel_frame)
qed

lemma finds_domestic:
  assumes "distribute_ok api env" and "R (int prev)" and "\<And>c. c |\<in>| m \<Longrightarrow> R (int c)"
  shows "finds F a R s (select_domestic api env m idle domestic prev s)"
  unfolding select_domestic_def
  by (intro finds_or_else finds_pick) (auto intro!: finds_claim finds_pick assms)

text \<open>The faults of the foreign part: its small mask is not allocated or does not hold a mask.\<close>

definition greedy_faults :: "kapi \<Rightarrow> rusty_env \<Rightarrow> rusty_process \<Rightarrow> fault set" where
  "greedy_faults api env rp =
     (if \<not> rp_all_cpus rp then {} else if \<not> kzalloc_small_ok env then {NullDeref}
      else if \<not> mask_fits api then {OutOfBounds} else {})"

text \<open>The foreign part looks in an empty mask: it finds no cpu.\<close>

lemma finds_greedy:
  assumes d: "distribute_ok api env" and rp: "heap s a = Some rp0" "same_proc rp rp0"
  shows "finds (greedy_faults api env rp) a R s (select_greedy api env a rp idle s)"
proof (cases "\<exists>dg. r_direct_greedy s = Some dg \<and> rp_all_cpus rp \<and> dg \<noteq> {||}")
  case False
  then show ?thesis by (auto simp: select_greedy_def split: option.splits)
next
  case True
  then obtain dg where dg: "r_direct_greedy s = Some dg" "rp_all_cpus rp" "dg \<noteq> {||}" by blast
  show ?thesis
  proof (cases "kzalloc_small_ok env \<and> mask_fits api")
    case False
    with dg show ?thesis by (auto simp: select_greedy_def greedy_faults_def finds_def direct_greedy_numa_def)
  next
    case k: True
    let ?F = "greedy_faults api env rp"
    let ?s = "put_proc a (rp\<lparr>rp_tmp_cpumask := {||}\<rparr>) (s\<lparr>r_leaked := Suc (Suc (r_leaked s))\<rparr>)"
    let ?m = "or_else
      (if idle then goto_direct (returned (pick_idle_cpu api env {||} PICK_IDLE_CORE ?s)) else Inr (None, ?s))
      (\<lambda>s3. goto_direct (returned (pick_idle_cpu api env {||} 0 s3)))"
    have f: "sel_frame a s ?s"
      using rp by (simp add: sel_frame_def put_proc_def same_proc_def masks_ready_def)
    have "finds ?F a R ?s ?m" by (rule finds_or_else) (auto intro: finds_pick [OF d])
    moreover have "?F = {}" using k by (simp add: greedy_faults_def)
    ultimately obtain r t where t: "?m = Inr (r, t)"
      "sel_frame a ?s t" "\<And>cpu. r = Some cpu \<Longrightarrow> R cpu" by (auto simp: finds_def)
    have "select_greedy api env a rp idle s = Inr (r, t)"
      using dg k t(1) by (cases idle) (simp_all add: select_greedy_def direct_greedy_numa_def Let_def)
    with t sel_frame_trans [OF f t(2)] show ?thesis by (auto simp: finds_def)
  qed
qed

lemma finds_sync:
  assumes dc: "dom_cores (unat (rc_dom_id (cores s (smp_processor_id env)))) s = Inr cs"
    and prev: "R (int prev)"
    and here: "smp_processor_id env |\<in>| cpus_ptr env p \<Longrightarrow> R (int (smp_processor_id env))"
  shows "finds F a R s (goto_direct (try_sync_wakeup api env p rp prev s))"
proof -
  have "finds {} a R s (if prev |\<in>| cs then claim_cpu api env prev s else Inr (None, s))"
    using finds_claim [of R prev, OF prev] by simp
  then obtain r t where t: "(if prev |\<in>| cs then claim_cpu api env prev s else Inr (None, s)) = Inr (r, t)"
    "sel_frame a s t" "\<And>cpu. r = Some cpu \<Longrightarrow> R cpu" by (auto simp: finds_def)
  show ?thesis
  proof (cases r)
    case None
    with t dc here show ?thesis
      by (auto simp: try_sync_wakeup_def finds_def goto_direct_def ENOENT_def Let_def)
  next
    case (Some cpu)
    with t dc show ?thesis
      by (auto simp: try_sync_wakeup_def finds_def goto_direct_def Let_def)
  qed
qed

section \<open>The choice of a cpu\<close>

text \<open>The module after a successful load: masks, and a domain for every core.\<close>

definition rusty_loaded :: "rusty_sys \<Rightarrow> bool" where
  "rusty_loaded s \<longleftrightarrow> masks_ready s \<and> r_nr_doms s \<le> MAX_DOMS \<and>
     (\<forall>d < r_nr_doms s. r_dom_data s d \<noteq> None) \<and>
     (\<forall>c. unat (rc_dom_id (cores s c)) < r_nr_doms s)"

text \<open>
  A call in which the kernel's topology is complete and its choices are as documented; and one in which
  moreover all allocations succeed and a small mask holds a mask.
\<close>

definition platform_ok :: "kapi \<Rightarrow> rusty_env \<Rightarrow> bool" where
  "platform_ok api env \<longleftrightarrow> distribute_ok api env \<and>
     (\<forall>c \<in> set (possible_cpus env). topology_levels env c \<noteq> None)"

definition env_ok :: "kapi \<Rightarrow> rusty_env \<Rightarrow> bool" where
  "env_ok api env \<longleftrightarrow> platform_ok api env \<and> kzalloc_ok env \<and> kzalloc_small_ok env \<and> mask_fits api"

lemma loaded_dom_cores:
  assumes "rusty_loaded s" and "d < r_nr_doms s"
  shows "\<exists>cs. dom_cores d s = Inr cs"
proof -
  have "d < MAX_DOMS" using assms by (simp add: rusty_loaded_def)
  moreover have "r_dom_data s d \<noteq> None" using assms by (simp add: rusty_loaded_def)
  ultimately show ?thesis by (auto simp: dom_cores_def split: option.splits)
qed

lemma loaded_frame: "sel_frame a s t \<Longrightarrow> rusty_loaded s \<Longrightarrow> rusty_loaded t"
  by (simp add: sel_frame_def rusty_loaded_def)

text \<open>The cpus a search may return with \<open>dispatch_local\<close> set.\<close>

definition select_range ::
    "kapi \<Rightarrow> rusty_env \<Rightarrow> task \<Rightarrow> cpumask \<Rightarrow> cpu \<Rightarrow> u32 \<Rightarrow> int \<Rightarrow> bool" where
  "select_range api env p m prev flags cpu \<longleftrightarrow> cpu = int prev \<or> (\<exists>c. cpu = int c \<and> c |\<in>| m) \<or>
     flags AND WF_SYNC api \<noteq> 0 \<and> cpu = int (smp_processor_id env) \<and>
       smp_processor_id env |\<in>| cpus_ptr env p"

text \<open>Without memory for its mask the tuner step at the start of the search faults.\<close>

lemma rusty_select_cpu_no_memory:
  assumes "heap s a = Some rp" and "\<not> kzalloc_ok env"
  shows "rusty_select_cpu api env a p prev flags s = Inl NullDeref"
  using assms by (simp add: rusty_select_cpu_def tuner_step_def Let_def)

lemma rusty_select_cpu_outcome:
  assumes pl: "platform_ok api env" and k: "kzalloc_ok env" and loaded: "rusty_loaded s" and rp: "heap s a = Some rp"
  shows "(\<exists>cpu t. rusty_select_cpu api env a p prev flags s = Inr (cpu, t) \<and> sel_frame a s t \<and>
    (select_range api env p (rp_cpumask rp) prev flags cpu \<or>
     cpu = - EBUSY \<and> prev |\<notin>| rp_cpumask rp \<and>
       ((\<forall>c. c |\<in>| rp_cpumask rp \<longrightarrow> c < nr_cpu_ids api) \<longrightarrow> rp_cpumask rp = {||}))) \<or>
    (\<exists>f \<in> greedy_faults api env rp. rusty_select_cpu api env a p prev flags s = Inl f)"
proof -
  from pl have d: "distribute_ok api env" by (simp add: platform_ok_def)
  let ?F = "greedy_faults api env rp"
  let ?R = "select_range api env p (rp_cpumask rp) prev flags"
  obtain s1 where s1: "tuner_step env s = Inr s1" "tuner_frame s s1" "masks_ready s1"
    using tuner_step_effect [of env s] pl k loaded
    by (fastforce simp: platform_ok_def rusty_loaded_def masks_ready_def tuner_frame_def)
  then have f1: "sel_frame a s s1" by (simp add: tuner_frame_def sel_frame_def)
  have Rp: "?R (int prev)" and Rm: "\<And>c. c |\<in>| rp_cpumask rp \<Longrightarrow> ?R (int c)"
    by (simp_all add: select_range_def)
  define body where "body = (\<lambda>s. or_else (if nr_cpus_allowed env p = 1 then Inr (Some (int prev), s)
      else Inr (None, s)) (\<lambda>s. or_else (if flags AND WF_SYNC api \<noteq> 0
        then goto_direct (try_sync_wakeup api env p rp prev s) else Inr (None, s)) (\<lambda>s.
      let has_idle_cores = get_idle_cpumask env s \<noteq> {||}
      in or_else (select_domestic api env (rp_cpumask rp) has_idle_cores (prev |\<in>| rp_cpumask rp) prev s)
           (select_greedy api env a rp has_idle_cores))))"
  have "finds ?F a ?R s1 (body s1)"
    unfolding body_def
  proof (rule finds_or_else)
    show "finds ?F a ?R s1 (if nr_cpus_allowed env p = 1 then Inr (Some (int prev), s1) else Inr (None, s1))"
      by (simp add: finds_some [of ?R "int prev", OF Rp])
    fix s2 assume f2: "sel_frame a s1 s2"
    show "finds ?F a ?R s2 (or_else (if flags AND WF_SYNC api \<noteq> 0
        then goto_direct (try_sync_wakeup api env p rp prev s2) else Inr (None, s2)) (\<lambda>s.
      let has_idle_cores = get_idle_cpumask env s \<noteq> {||}
      in or_else (select_domestic api env (rp_cpumask rp) has_idle_cores (prev |\<in>| rp_cpumask rp) prev s)
           (select_greedy api env a rp has_idle_cores)))"
    proof (rule finds_or_else)
      have "rusty_loaded s2" by (rule loaded_frame [OF f2 loaded_frame [OF f1 loaded]])
      then obtain cs where
        "dom_cores (unat (rc_dom_id (cores s2 (smp_processor_id env)))) s2 = Inr cs"
        using loaded_dom_cores [of s2 "unat (rc_dom_id (cores s2 (smp_processor_id env)))"]
        by (auto simp: rusty_loaded_def)
      then show "finds ?F a ?R s2 (if flags AND WF_SYNC api \<noteq> 0
          then goto_direct (try_sync_wakeup api env p rp prev s2) else Inr (None, s2))"
        using finds_sync [of s2 env cs ?R prev p ?F a api rp] Rp by (auto simp: select_range_def)
      fix s3 assume f3: "sel_frame a s2 s3"
      show "finds ?F a ?R s3 (let has_idle_cores = get_idle_cpumask env s3 \<noteq> {||}
        in or_else (select_domestic api env (rp_cpumask rp) has_idle_cores (prev |\<in>| rp_cpumask rp) prev s3)
             (select_greedy api env a rp has_idle_cores))"
        unfolding Let_def
      proof (rule finds_or_else [OF finds_domestic [of api env ?R, OF d Rp Rm]])
        fix s4 assume "sel_frame a s3 s4"
        then have "sel_frame a s s4" using sel_frame_trans f1 f2 f3 by metis
        from sel_frame_object [OF this rp]
        show "finds ?F a ?R s4 (select_greedy api env a rp (get_idle_cpumask env s3 \<noteq> {||}) s4)"
          using finds_greedy [OF d] by blast
      qed
    qed
  qed
  moreover have unfolded: "rusty_select_cpu api env a p prev flags s = res_bind (body s1) (\<lambda>(direct, s).
      case direct of Some cpu \<Rightarrow> Inr (cpu, set_dispatch_local a s)
      | None \<Rightarrow> if prev |\<in>| rp_cpumask rp then Inr (int prev, s)
              else pick_any_cpu api env (rp_cpumask rp) 0 s)"
    using rp s1(1) by (simp add: rusty_select_cpu_def body_def Let_def)
  ultimately consider f where "f \<in> ?F" "rusty_select_cpu api env a p prev flags s = Inl f"
    | r s2 where "body s1 = Inr (r, s2)" "sel_frame a s1 s2" "\<And>cpu. r = Some cpu \<Longrightarrow> ?R cpu"
    by (auto simp: finds_def)
  then show ?thesis
  proof cases
    case b: (2 r s2)
    have f2: "sel_frame a s s2" by (rule sel_frame_trans [OF f1 b(2)])
    have sel: "rusty_select_cpu api env a p prev flags s =
        (case r of Some cpu \<Rightarrow> Inr (cpu, set_dispatch_local a s2)
         | None \<Rightarrow> if prev |\<in>| rp_cpumask rp then Inr (int prev, s2)
                 else pick_any_cpu api env (rp_cpumask rp) 0 s2)"
      using unfolded b(1) by simp
    show ?thesis
    proof (cases r)
      case (Some cpu)
      have "sel_frame a s2 (set_dispatch_local a s2)"
        by (cases "heap s2 a") (simp_all add: sel_frame_def set_dispatch_local_def same_proc_def masks_ready_def)
      from sel_frame_trans [OF f2 this] sel Some b(3) show ?thesis by auto
    next
      case None
      obtain cpu t where "pick_any_cpu api env (rp_cpumask rp) 0 s2 = Inr (cpu, t)" "idle_frame s2 t"
        "cpu = - EBUSY \<and> ((\<forall>c. c |\<in>| rp_cpumask rp \<longrightarrow> c < nr_cpu_ids api) \<longrightarrow> rp_cpumask rp = {||}) \<or>
         (\<exists>c. cpu = int c \<and> c |\<in>| rp_cpumask rp)"
        using pick_any_cpu_returns [OF d, of "rp_cpumask rp" 0 s2] by blast
      with sel None f2 sel_frame_trans [OF f2 idle_sel_frame, of t] Rp Rm show ?thesis by auto
    qed
  qed blast
qed

lemma rusty_select_cpu_effect:
  assumes env: "env_ok api env" and loaded: "rusty_loaded s" and rp: "heap s a = Some rp"
  shows "\<exists>cpu t. rusty_select_cpu api env a p prev flags s = Inr (cpu, t) \<and> sel_frame a s t \<and>
    (select_range api env p (rp_cpumask rp) prev flags cpu \<or>
     cpu = - EBUSY \<and> prev |\<notin>| rp_cpumask rp \<and>
       ((\<forall>c. c |\<in>| rp_cpumask rp \<longrightarrow> c < nr_cpu_ids api) \<longrightarrow> rp_cpumask rp = {||}))"
proof -
  have "greedy_faults api env rp = {}" using env by (simp add: env_ok_def greedy_faults_def)
  then show ?thesis using rusty_select_cpu_outcome [OF _ _ loaded rp, of api env p prev flags] env
    unfolding env_ok_def by blast
qed

end
