(* ===== verification/Rusty_Domain.thy ===== *)
theory Rusty_Domain
  imports Rusty_Select
begin

text \<open>
  modules/rusty_saakm/rusty_saakm.c: what \<open>task_pick_domain\<close> computes, as a reference
  definition over the list of the domains in the order the loop visits them.
\<close>

section \<open>The order of the visit\<close>

fun turns :: "nat \<Rightarrow> u32 \<Rightarrow> u32 \<Rightarrow> u32 list" where
  "turns 0 n d = []"
| "turns (Suc k) n d = (let d = (d + 1) mod n in d # turns k n d)"

text \<open>The domain the visit starts with when the round-robin counter is \<open>d\<close>.\<close>

definition first_turn :: "nat \<Rightarrow> u32 \<Rightarrow> nat" where
  "first_turn n d = unat (d + 1) mod n"

definition visit :: "nat \<Rightarrow> nat \<Rightarrow> nat list" where
  "visit n f = map (\<lambda>k. (f + k) mod n) [0..<n]"

lemma next_turn:
  assumes "0 < n" and "n \<le> MAX_DOMS"
  shows "unat ((d + 1 :: u32) mod of_nat n) = first_turn n d"
proof -
  have "n < 2 ^ LENGTH(32)" using assms by (simp add: MAX_DOMS_def)
  then have "unat (of_nat n :: u32) = n" by (simp add: unat_of_nat)
  then show ?thesis by (simp add: first_turn_def unat_mod_distrib)
qed

lemma first_turn_bounded:
  assumes "unat d < n" and "n \<le> MAX_DOMS"
  shows "first_turn n d = (unat d + 1) mod n"
proof -
  have "unat d + 1 < 2 ^ LENGTH(32)" using assms by (simp add: MAX_DOMS_def)
  then have "unat (d + 1) = unat d + 1" by (simp add: unat_word_ariths)
  then show ?thesis by (simp add: first_turn_def)
qed

lemma turns_visit_gen:
  assumes "0 < n" and "n \<le> MAX_DOMS"
  shows "map unat (turns k (of_nat n) d) = map (\<lambda>j. (first_turn n d + j) mod n) [0..<k]"
proof (induction k arbitrary: d)
  case 0
  then show ?case by simp
next
  case (Suc k)
  let ?d = "(d + 1) mod of_nat n"
  have u: "unat ?d = first_turn n d" by (rule next_turn [OF assms])
  have lt: "first_turn n d < n" using assms by (simp add: first_turn_def)
  then have ft: "first_turn n ?d = (first_turn n d + 1) mod n"
    using first_turn_bounded [of ?d n] assms u by simp
  have "map (\<lambda>j. (first_turn n ?d + j) mod n) [0..<k] =
      map (\<lambda>j. (first_turn n d + Suc j) mod n) [0..<k]"
    unfolding ft by (simp add: mod_add_left_eq)
  also have "\<dots> = map (\<lambda>j. (first_turn n d + j) mod n) (map Suc [0..<k])" by simp
  also have "map Suc [0..<k] = [1..<Suc k]" by (simp add: map_Suc_upt)
  finally have tail: "map unat (turns k (of_nat n) ?d) =
      map (\<lambda>j. (first_turn n d + j) mod n) [1..<Suc k]" using Suc.IH [of ?d] by simp
  have "[0..<Suc k] = 0 # [1..<Suc k]" by (simp add: upt_rec)
  then show ?case using tail u lt by (simp add: Let_def del: upt_Suc)
qed

lemma turns_visit:
  "0 < n \<Longrightarrow> n \<le> MAX_DOMS \<Longrightarrow> map unat (turns n (of_nat n) d) = visit n (first_turn n d)"
  by (simp add: turns_visit_gen visit_def)

text \<open>Every domain is visited exactly once.\<close>

lemma visit_inj: "inj_on (\<lambda>k. (f + k) mod n) {0..<n}" for f n :: nat
proof (rule inj_onI)
  have le: "x = y" if "x \<le> y" "y < n" "(f + x) mod n = (f + y) mod n" for x y
  proof -
    have "n dvd (f + y) - (f + x)" using that(1,3) by (metis add_le_cancel_left mod_eq_dvd_iff_nat)
    then have "n dvd y - x" by simp
    with that(1,2) show ?thesis by (metis diff_is_0_eq dvd_imp_le le_antisym less_imp_diff_less not_le neq0_conv)
  qed
  fix x y assume "x \<in> {0..<n}" "y \<in> {0..<n}" "(f + x) mod n = (f + y) mod n"
  then show "x = y" using le [of x y] le [of y x] by (cases "x \<le> y") auto
qed

lemma visit_distinct: "distinct (visit n f)"
  by (simp add: visit_def distinct_map visit_inj)

lemma visit_set:
  assumes "0 < n"
  shows "set (visit n f) = {..<n}"
proof (rule card_subset_eq)
  show "set (visit n f) \<subseteq> {..<n}" using assms by (auto simp: visit_def)
  show "card (set (visit n f)) = card {..<n}"
    by (simp only: distinct_card [OF visit_distinct]) (simp add: visit_def)
qed simp

section \<open>The loop against the reference\<close>

definition dom_mask_of :: "rusty_sys \<Rightarrow> nat \<Rightarrow> cpumask" where
  "dom_mask_of s d = (case r_dom_data s d of None \<Rightarrow> {||} | Some x \<Rightarrow> topo_cores (dom_topology x))"

text \<open>The domains the thread may run in, in the order of the visit.\<close>

definition hits :: "cpumask \<Rightarrow> rusty_sys \<Rightarrow> nat list \<Rightarrow> nat list" where
  "hits allowed s ds = filter (\<lambda>d. cpumask_intersects allowed (dom_mask_of s d)) ds"

definition pick_domain_spec :: "cpumask \<Rightarrow> rusty_sys \<Rightarrow> int \<Rightarrow> rusty_process \<Rightarrow> nat list \<Rightarrow> rusty_process" where
  "pick_domain_spec allowed s first_dom rp hs =
     (if hs = [] then rp
      else rp\<lparr>rp_dom_mask := rp_dom_mask rp OR foldr (\<lambda>d m. push_bit d 1 OR m) hs 0,
              rp_cpumask := dom_mask_of s (last hs) |\<inter>| allowed,
              rp_dom_id := (if first_dom < 0 then int (hd hs) else rp_dom_id rp)\<rparr>)"

lemma dom_cores_mask:
  assumes "rusty_loaded s" and "d < r_nr_doms s"
  shows "dom_cores d s = Inr (dom_mask_of s d)"
  using loaded_dom_cores [OF assms] by (auto simp: dom_cores_def dom_mask_of_def split: if_splits option.splits)

lemma pick_domain_loop_spec:
  assumes "rusty_loaded s" and "0 < r_nr_doms s"
  shows "pick_domain_loop k allowed s d first_dom rp =
    Inr (pick_domain_spec allowed s first_dom rp
          (hits allowed s (map unat (turns k (of_nat (r_nr_doms s)) d))))"
proof (induction k arbitrary: d first_dom rp)
  case 0
  then show ?case by (simp add: pick_domain_spec_def hits_def)
next
  case (Suc k)
  let ?n = "r_nr_doms s" and ?d = "(d + 1) mod of_nat (r_nr_doms s)"
  have lt: "unat ?d < ?n"
    using next_turn [of ?n d] assms by (simp add: first_turn_def rusty_loaded_def)
  have dc: "dom_cores (unat ?d) s = Inr (dom_mask_of s (unat ?d))"
    by (rule dom_cores_mask [OF assms(1) lt])
  let ?hs = "hits allowed s (map unat (turns k (of_nat ?n) ?d))"
  show ?case
  proof (cases "cpumask_intersects allowed (dom_mask_of s (unat ?d))")
    case True
    then have "hits allowed s (map unat (turns (Suc k) (of_nat ?n) d)) = unat ?d # ?hs"
      by (simp add: hits_def Let_def)
    with True dc Suc.IH show ?thesis
      by (simp add: Let_def pick_domain_spec_def or.assoc)
  next
    case False
    then have "hits allowed s (map unat (turns (Suc k) (of_nat ?n) d)) = ?hs"
      by (simp add: hits_def Let_def)
    with False dc Suc.IH show ?thesis by (simp add: Let_def)
  qed
qed

lemma bit_foldr_hits: "bit (foldr (\<lambda>d m. push_bit d 1 OR m) hs 0 :: u64) i \<longleftrightarrow> i < 64 \<and> i \<in> set hs"
  by (induction hs) (auto simp: bit_or_iff bit_exp_iff dest: bit_imp_le_length)

lemma pick_domain_spec_mask:
  assumes "hs \<noteq> []"
  shows "bit (rp_dom_mask (pick_domain_spec m s f (rp\<lparr>rp_dom_mask := 0\<rparr>) hs)) d \<longleftrightarrow> d < 64 \<and> d \<in> set hs"
proof -
  have "rp_dom_mask (pick_domain_spec m s f (rp\<lparr>rp_dom_mask := 0\<rparr>) hs) =
      0 OR foldr (\<lambda>d m. push_bit d 1 OR m) hs 0"
    unfolding pick_domain_spec_def if_not_P [OF assms] by simp
  then show ?thesis by (simp only: or.left_neutral bit_foldr_hits)
qed

text \<open>
  \<open>pick_hits\<close>: the domains of the thread \<open>p\<close> in the order in which the executing cpu
  visits them.
\<close>

definition pick_hits :: "rusty_env \<Rightarrow> task \<Rightarrow> rusty_sys \<Rightarrow> nat list" where
  "pick_hits env p s = hits (cpus_ptr env p) s
     (visit (r_nr_doms s) (first_turn (r_nr_doms s) (rc_dom_rr_cur (cores s (smp_processor_id env)))))"

lemma loaded_nonempty: "rusty_loaded s \<Longrightarrow> 0 < r_nr_doms s"
  unfolding rusty_loaded_def by (metis gr0I not_less_zero)

lemma loaded_core:
  assumes "rusty_loaded s" and "\<And>c. rc_dom_id (f c) = rc_dom_id c"
  shows "rusty_loaded (upd_core c f s)"
  using assms by (simp add: rusty_loaded_def masks_ready_def upd_core_def)

lemma task_pick_domain_spec:
  assumes "rusty_loaded s"
  shows "task_pick_domain env p rp s =
    Inr (pick_domain_spec (cpus_ptr env p) s (-1) (rp\<lparr>rp_dom_mask := 0\<rparr>) (pick_hits env p s),
         upd_core (smp_processor_id env) (\<lambda>c. c\<lparr>rc_dom_rr_cur := rc_dom_rr_cur c + 1\<rparr>) s)"
proof -
  let ?c = "smp_processor_id env"
  let ?s = "upd_core ?c (\<lambda>c. c\<lparr>rc_dom_rr_cur := rc_dom_rr_cur (cores s ?c) + 1\<rparr>) s"
  have n: "0 < r_nr_doms s" by (rule loaded_nonempty [OF assms])
  have s': "rusty_loaded ?s" by (rule loaded_core [OF assms]) simp
  have same: "r_nr_doms ?s = r_nr_doms s" "dom_mask_of ?s = dom_mask_of s"
    by (simp_all add: upd_core_def dom_mask_of_def fun_eq_iff)
  have "?s = upd_core ?c (\<lambda>c. c\<lparr>rc_dom_rr_cur := rc_dom_rr_cur c + 1\<rparr>) s"
    by (simp add: upd_core_def)
  with pick_domain_loop_spec [OF s', of "r_nr_doms s" "cpus_ptr env p"] n assms
    turns_visit [OF n, of "rc_dom_rr_cur (cores s ?c)"] same
  show ?thesis
    by (simp add: task_pick_domain_def pick_hits_def hits_def pick_domain_spec_def rusty_loaded_def Let_def)
qed

lemma pick_domain_spec_same:
  "rp_state (pick_domain_spec m s f rp hs) = rp_state rp"
  "rp_rq (pick_domain_spec m s f rp hs) = rp_rq rp"
  "rp_task (pick_domain_spec m s f rp hs) = rp_task rp"
  by (simp_all add: pick_domain_spec_def)

end
