(* ===== verification/Rusty_Correct.thy ===== *)
theory Rusty_Correct
  imports Rusty_Domain Shared_Inv Fifo_Spec
begin

text \<open>
  modules/rusty_saakm/rusty_saakm.c: the invariant of the policy, kept by every handler and
  by the tuner thread; the events on which it faults, and how; and the refinement of the
  abstract scheduler with one FIFO queue per core.
\<close>

section \<open>The invariant\<close>

definition rusty_inv :: "rusty_sys \<Rightarrow> bool" where
  "rusty_inv s \<longleftrightarrow> policy_inv rp_state rp_task rp_rq (kern s) (heap s) \<and> current_ok (kern s) \<and>
     rusty_loaded s"

lemma loaded_simps [simp]:
  "rusty_loaded (put_proc a rp s) = rusty_loaded s"
  "rusty_loaded (call_change_state api p st c r s) = rusty_loaded s"
  "rusty_loaded (set_metadata p a s) = rusty_loaded s"
  "rusty_loaded (set_task_cpu p c s) = rusty_loaded s"
  "rusty_loaded (kfree a s) = rusty_loaded s"
  "rusty_loaded (s\<lparr>r_leaked := n\<rparr>) = rusty_loaded s"
  "rusty_loaded (s\<lparr>r_idle_cpu := m\<rparr>) = rusty_loaded s"
  "rusty_loaded (s\<lparr>r_idle_smt := m\<rparr>) = rusty_loaded s"
  "rusty_loaded s \<Longrightarrow> rusty_loaded (s\<lparr>r_all_cpumask := Some m\<rparr>)"
  by (simp_all add: rusty_loaded_def masks_ready_def sys_defs)

lemma rusty_object:
  assumes "rusty_inv s" and "attached (kern s) p"
  shows "\<exists>a rp. k_meta (kern s) p = Some a \<and> heap s a = Some rp \<and>
    policy_metadata p s = Inr (a, rp) \<and> rp_task rp = p"
  using attached_object [of rp_state rp_task rp_rq "kern s" "heap s" p] assms
  by (fastforce simp: rusty_inv_def policy_metadata_Inr)

lemma rusty_current:
  assumes "rusty_inv s" and "k_current (kern s) c = Some p"
  shows "attached (kern s) p" and "k_state (kern s) p = IPANEMA_RUNNING" and "k_cpu (kern s) p = c"
  using assms by (auto simp: rusty_inv_def dest: current_okD)

lemma rusty_inv_put:
  assumes "rusty_inv s" and "heap s a = Some rp" and "rp_task rp' = rp_task rp"
    and "rp_state rp' = rp_state rp" and "rp_rq rp' = rp_rq rp"
  shows "rusty_inv (put_proc a rp' s)"
  using assms by (auto simp: rusty_inv_def intro: policy_inv_update)

text \<open>A search for a cpu keeps the invariant.\<close>

lemma rusty_inv_frame:
  assumes "rusty_inv s" and "sel_frame a s t"
  shows "rusty_inv t"
proof -
  have "view_ok rp_state rp_task rp_rq (kern t) (heap t) p" for p
    unfolding view_ok_def
  proof (intro allI impI)
    fix b assume b: "k_meta (kern t) p = Some b" "k_state (kern t) p \<noteq> IPANEMA_TERMINATED"
    have k: "kern t = kern s" using assms(2) by (simp add: sel_frame_def)
    from assms(1) b obtain rp st where rp: "heap s b = Some rp" "rp_task rp = p"
      "rp_state rp = state_code st" "norm_state st = norm_state (k_state (kern s) p)"
      "rp_rq rp = k_rq (kern s) p"
      unfolding rusty_inv_def policy_inv_def view_ok_def k by blast
    obtain rp' where "heap t b = Some rp'" "same_proc rp rp'"
    proof (cases "b = a")
      case True
      then show ?thesis using sel_frame_object [OF assms(2)] rp(1) that by blast
    next
      case False
      then show ?thesis using assms(2) rp(1) that [of rp] by (simp add: sel_frame_def)
    qed
    with rp k show "\<exists>fp st. heap t b = Some fp \<and> rp_task fp = p \<and> rp_state fp = state_code st \<and>
        norm_state st = norm_state (k_state (kern t) p) \<and> rp_rq fp = k_rq (kern t) p"
      by (auto simp: same_proc_def)
  qed
  with assms loaded_frame [OF assms(2)] show ?thesis
    by (simp add: rusty_inv_def policy_inv_def sel_frame_def)
qed

text \<open>Handlers of core events touch cores and masks only.\<close>

lemma rusty_inv_masks:
  assumes "rusty_inv s" and "kern t = kern s" and "heap t = heap s" and "rusty_loaded t"
  shows "rusty_inv t"
  using assms by (simp add: rusty_inv_def)

section \<open>Every handler keeps it\<close>

text \<open>A tick requeues the thread exactly when its slice is used up.\<close>

definition slice_over :: "rusty_env \<Rightarrow> task \<Rightarrow> u64 \<Rightarrow> rusty_sys \<Rightarrow> bool" where
  "slice_over env p now s = (case policy_metadata p s of
     Inl _ \<Rightarrow> False | Inr (a, rp) \<Rightarrow> slice_left (rp_slice rp) (now - exec_start env p) = 0)"

context saakm_framework
begin

text \<open>The transition of the place, tick, yield and block handlers.\<close>

lemma rusty_inv_change:
  assumes inv: "rusty_inv s" and att: "attached (kern s) p" and meta: "k_meta (kern s) p = Some a"
    and obj: "rp_task rp = p" "rp_state rp = state_code st" "rp_rq rp = r"
    and st: "st \<noteq> IPANEMA_TERMINATED" "st \<noteq> IPANEMA_RUNNING"
    and rq: "r = None \<or> r = Some (LocalRq (k_cpu (kern s) p)) \<and> norm_state st = IPANEMA_READY"
  shows "rusty_inv (call_change_state api p st (k_cpu (kern s) p) r (put_proc a rp s))"
proof -
  from inv have pol: "policy_inv rp_state rp_task rp_rq (kern s) (heap s)"
    and cur: "current_ok (kern s)" by (simp_all add: rusty_inv_def)
  from policy_inv_change_state [where so = rp_state and ta = rp_task and ro = rp_rq,
      OF pol att meta obj st(1) rq]
    current_ok_leave [OF cur st(2)] inv
  show ?thesis by (simp add: rusty_inv_def)
qed

lemma rusty_enqueue:
  assumes inv: "rusty_inv s" and att: "attached (kern s) p" and meta: "k_meta (kern s) p = Some a"
    and st: "norm_state st = IPANEMA_READY"
  shows "\<exists>t. rusty_enqueue_task api a (Some (LocalRq (k_cpu (kern s) p))) st s = Inr t \<and>
    rusty_inv t \<and> (\<exists>rp. heap t a = Some rp) \<and>
    kern t = change_state api p st (k_cpu (kern s) p) (Some (LocalRq (k_cpu (kern s) p))) (kern s)"
proof -
  obtain rp where rp: "heap s a = Some rp" "rp_task rp = p"
    using rusty_object [OF inv att] meta by auto
  have live: "st \<noteq> IPANEMA_TERMINATED" "st \<noteq> IPANEMA_RUNNING" using st by auto
  have "rusty_inv (call_change_state api p st (k_cpu (kern s) p) (Some (LocalRq (k_cpu (kern s) p)))
      (put_proc a (rp\<lparr>rp_state := state_code st, rp_rq := Some (LocalRq (k_cpu (kern s) p))\<rparr>) s))"
    by (rule rusty_inv_change [OF inv att meta]) (simp_all add: rp st live)
  then show ?thesis using rp by (simp add: rusty_enqueue_task_def)
qed

lemma rusty_place:
  assumes inv: "rusty_inv s" and att: "attached (kern s) p"
  shows "\<exists>t. sched_new_place api p s = Inr t \<and> rusty_inv t \<and> kern t =
      change_state api p IPANEMA_READY (k_cpu (kern s) p) (Some (LocalRq (k_cpu (kern s) p))) (kern s)"
    and "\<exists>t. sched_unblock_place api p s = Inr t \<and> rusty_inv t \<and> kern t =
      change_state api p IPANEMA_READY (k_cpu (kern s) p) (Some (LocalRq (k_cpu (kern s) p))) (kern s)"
    and "\<exists>t. sched_yield api p s = Inr t \<and> rusty_inv t \<and> kern t =
      change_state api p IPANEMA_READY (k_cpu (kern s) p) (Some (LocalRq (k_cpu (kern s) p))) (kern s)"
proof -
  obtain a rp where a: "k_meta (kern s) p = Some a" "heap s a = Some rp"
    "policy_metadata p s = Inr (a, rp)" "rp_task rp = p"
    using rusty_object [OF inv att] by blast
  let ?s = "put_proc a (rp\<lparr>rp_slice := ucast SLICE_NS\<rparr>) s"
  have inv': "rusty_inv ?s" by (rule rusty_inv_put [OF inv a(2)]) simp_all
  from rusty_enqueue [OF inv', of p a IPANEMA_READY] att a
  show "\<exists>t. sched_new_place api p s = Inr t \<and> rusty_inv t \<and> kern t =
      change_state api p IPANEMA_READY (k_cpu (kern s) p) (Some (LocalRq (k_cpu (kern s) p))) (kern s)"
    by (auto simp: sched_new_place_def)
  obtain t rp1 where t: "rusty_enqueue_task api a (Some (LocalRq (k_cpu (kern s) p))) IPANEMA_READY s = Inr t"
    "rusty_inv t" "heap t a = Some rp1" "kern t = change_state api p IPANEMA_READY (k_cpu (kern s) p)
      (Some (LocalRq (k_cpu (kern s) p))) (kern s)"
    using rusty_enqueue [OF inv att a(1), of IPANEMA_READY] by auto
  then show "\<exists>t. sched_unblock_place api p s = Inr t \<and> rusty_inv t \<and> kern t =
      change_state api p IPANEMA_READY (k_cpu (kern s) p) (Some (LocalRq (k_cpu (kern s) p))) (kern s)"
    by (simp add: sched_unblock_place_def a)
  have "rusty_inv (put_proc a (rp1\<lparr>rp_slice := 0\<rparr>) t)"
    by (rule rusty_inv_put [OF t(2,3)]) simp_all
  then show "\<exists>t. sched_yield api p s = Inr t \<and> rusty_inv t \<and> kern t =
      change_state api p IPANEMA_READY (k_cpu (kern s) p) (Some (LocalRq (k_cpu (kern s) p))) (kern s)"
    using t by (simp add: sched_yield_def a)
qed

lemma rusty_tick:
  assumes inv: "rusty_inv s" and att: "attached (kern s) p"
  shows "\<exists>t. rusty_sched_tick api env p now s = Inr t \<and> rusty_inv t \<and> kern t =
    (if slice_over env p now s
     then change_state api p IPANEMA_READY_TICK (k_cpu (kern s) p)
            (Some (LocalRq (k_cpu (kern s) p))) (kern s)
     else kern s)"
proof -
  obtain a rp where a: "k_meta (kern s) p = Some a" "heap s a = Some rp"
    "policy_metadata p s = Inr (a, rp)" "rp_task rp = p"
    using rusty_object [OF inv att] by blast
  let ?s = "put_proc a (rp\<lparr>rp_slice := slice_left (rp_slice rp) (now - exec_start env p)\<rparr>) s"
  have inv': "rusty_inv ?s" by (rule rusty_inv_put [OF inv a(2)]) simp_all
  from rusty_enqueue [OF inv', of p a IPANEMA_READY_TICK] att a inv'
  show ?thesis by (auto simp: rusty_sched_tick_def slice_over_def Let_def)
qed

lemma rusty_block:
  assumes inv: "rusty_inv s" and att: "attached (kern s) p"
  shows "\<exists>t. sched_block api p s = Inr t \<and> rusty_inv t \<and>
    kern t = change_state api p IPANEMA_BLOCKED (k_cpu (kern s) p) None (kern s)"
proof -
  obtain a rp where a: "k_meta (kern s) p = Some a" "heap s a = Some rp"
    "policy_metadata p s = Inr (a, rp)" "rp_task rp = p"
    using rusty_object [OF inv att] by blast
  have "rusty_inv (call_change_state api p IPANEMA_BLOCKED (k_cpu (kern s) p) None
      (put_proc a (rp\<lparr>rp_state := state_code IPANEMA_BLOCKED, rp_rq := None\<rparr>) s))"
    by (rule rusty_inv_change [OF inv att a(1)]) (simp_all add: a(4))
  then show ?thesis by (simp add: sched_block_def a)
qed

lemma rusty_terminate:
  assumes inv: "rusty_inv s" and att: "attached (kern s) p"
  shows "\<exists>t. sched_terminate api p s = Inr t \<and> rusty_inv t \<and>
    kern t = change_state api p IPANEMA_TERMINATED (k_cpu (kern s) p) None (kern s)"
proof -
  obtain a rp where a: "k_meta (kern s) p = Some a" "heap s a = Some rp"
    "policy_metadata p s = Inr (a, rp)" "rp_task rp = p"
    using rusty_object [OF inv att] by blast
  from inv have pol: "policy_inv rp_state rp_task rp_rq (kern s) (heap s)"
    and cur: "current_ok (kern s)" by (simp_all add: rusty_inv_def)
  let ?h = "(heap s)(a := None)"
  have "policy_inv rp_state rp_task rp_rq
      (change_state api p IPANEMA_TERMINATED (k_cpu (kern s) p) None (kern s)) ?h"
    by (rule policy_inv_terminate [OF pol att a(1)]) simp
  moreover have "current_ok (change_state api p IPANEMA_TERMINATED (k_cpu (kern s) p) None (kern s))"
    by (rule current_ok_leave [OF cur]) simp
  ultimately show ?thesis
    using inv by (simp add: sched_terminate_def a rusty_inv_def kfree_def put_proc_def
        call_change_state_def rusty_loaded_def masks_ready_def)
qed

lemma rusty_schedule:
  assumes inv: "rusty_inv s"
  shows "\<exists>t. sched_schedule api c s = Inr t \<and> rusty_inv t \<and>
    kern t = (case k_queue (kern s) (LocalRq c) of
        [] \<Rightarrow> kern s
      | p # ps \<Rightarrow> change_state api p IPANEMA_RUNNING c None (kern s))"
proof (cases "k_queue (kern s) (LocalRq c)")
  case Nil
  with inv show ?thesis by (simp add: sched_schedule_def first_task)
next
  case (Cons p ps)
  from inv have pol: "policy_inv rp_state rp_task rp_rq (kern s) (heap s)"
    and cur: "current_ok (kern s)" by (simp_all add: rusty_inv_def)
  have q: "p \<in> set (k_queue (kern s) (LocalRq c))" using Cons by simp
  note pq = policy_inv_queued [OF pol q]
  have cpu: "k_cpu (kern s) p = c" using pq(2) by simp
  obtain a rp where a: "k_meta (kern s) p = Some a" "heap s a = Some rp"
    "policy_metadata p s = Inr (a, rp)" "rp_task rp = p"
    using rusty_object [OF inv pq(1)] by blast
  let ?rp = "rp\<lparr>rp_state := state_code IPANEMA_RUNNING, rp_rq := None, rp_slice := ucast SLICE_NS\<rparr>"
  have "policy_inv rp_state rp_task rp_rq
      (change_state api p IPANEMA_RUNNING (k_cpu (kern s) p) None (kern s)) ((heap s)(a \<mapsto> ?rp))"
    by (rule policy_inv_change_state [OF pol pq(1) a(1)]) (simp_all add: a)
  moreover have "current_ok (change_state api p IPANEMA_RUNNING c None (kern s))"
    by (rule current_ok_start [OF cur]) (use a pq cpu in auto)
  ultimately show ?thesis
    using inv Cons a cpu by (simp add: sched_schedule_def first_task rusty_inv_def)
qed

end

text \<open>
  The two prepare handlers. The search may read a mask that was not allocated or is too small: it returns,
  or it has one of the faults of \<open>greedy_faults\<close>; without memory for the tuner's mask it always faults.
\<close>

lemma rusty_unblock_prepare:
  assumes inv: "rusty_inv s" and pl: "platform_ok api env"
    and a: "k_meta (kern s) p = Some a" "heap s a = Some rp"
  shows "if kzalloc_ok env
    then (\<exists>cpu t. sched_unblock_prepare api env p s = Inr (cpu, t) \<and> rusty_inv t \<and>
        r_idle_cpu t |\<subseteq>| r_idle_cpu s \<and> kern t = kern s) \<or>
      (\<exists>f \<in> greedy_faults api env rp. sched_unblock_prepare api env p s = Inl f)
    else sched_unblock_prepare api env p s = Inl NullDeref"
proof (cases "kzalloc_ok env")
  case True
  have "rusty_loaded s" using inv by (simp add: rusty_inv_def)
  from rusty_select_cpu_outcome [OF pl True this a(2), of p "k_cpu (kern s) p" 0]
  consider cpu t where "rusty_select_cpu api env a p (k_cpu (kern s) p) 0 s = Inr (cpu, t)" "sel_frame a s t"
    | f where "f \<in> greedy_faults api env rp" "rusty_select_cpu api env a p (k_cpu (kern s) p) 0 s = Inl f"
    by blast
  then show ?thesis
  proof cases
    case (1 cpu t)
    moreover from 1(2) have "rusty_inv t" "kern t = kern s" "r_idle_cpu t |\<subseteq>| r_idle_cpu s"
      using rusty_inv_frame [OF inv] by (auto simp: sel_frame_def)
    ultimately show ?thesis using a True by (simp add: sched_unblock_prepare_def)
  qed (use a True in \<open>auto simp: sched_unblock_prepare_def\<close>)
next
  case False
  with rusty_select_cpu_no_memory [OF a(2) False] a show ?thesis by (simp add: sched_unblock_prepare_def)
qed

text \<open>The fault of preparing a thread whose object could be allocated.\<close>

definition prepare_fault :: "kapi \<Rightarrow> rusty_env \<Rightarrow> fault option" where
  "prepare_fault api env =
     (if \<not> kzalloc_small_ok env then Some NullDeref
      else if \<not> mask_fits api then Some OutOfBounds
      else if \<not> kzalloc_ok env then Some NullDeref else None)"

lemma prepare_fault_None: "prepare_fault api env = None \<longleftrightarrow> kzalloc_small_ok env \<and> mask_fits api \<and> kzalloc_ok env"
  by (simp add: prepare_fault_def)

lemma env_ok_prepare: "env_ok api env \<longleftrightarrow> platform_ok api env \<and> prepare_fault api env = None"
  by (auto simp: env_ok_def prepare_fault_None)

text \<open>What is set up before the search.\<close>

lemma rusty_prepare_setup:
  assumes inv: "rusty_inv s" and pr: "protocol (NewPrepare p flags (Some a) n) s"
    and small: "kzalloc_small_ok env" "mask_fits api"
  shows "\<exists>u rp. sched_new_prepare api env p flags (Some a) s = rusty_select_cpu api env a p (k_cpu (kern u) p) flags u \<and>
    rusty_inv u \<and> heap u a = Some rp \<and> r_idle_cpu u = r_idle_cpu s \<and>
    kern u = (kern s)\<lparr>k_meta := (k_meta (kern s))(p \<mapsto> a)\<rparr>"
proof -
  let ?s = "set_metadata p a (put_proc a (new_process p) s)"
  let ?c = "smp_processor_id env"
  from inv have pol: "policy_inv rp_state rp_task rp_rq (kern s) (heap s)"
    and cur: "current_ok (kern s)" and ld: "rusty_loaded s" by (simp_all add: rusty_inv_def)
  have "policy_inv rp_state rp_task rp_rq ((kern s)\<lparr>k_meta := (k_meta (kern s))(p \<mapsto> a)\<rparr>)
      ((heap s)(a \<mapsto> new_process p))"
    by (rule policy_inv_attach [OF pol]) (use pr in \<open>simp_all add: new_process_def\<close>)
  moreover have "current_ok ((kern s)\<lparr>k_meta := (k_meta (kern s))(p \<mapsto> a)\<rparr>)"
    using cur by (auto simp: current_ok_def)
  ultimately have inv1: "rusty_inv ?s" using ld by (simp add: rusty_inv_def set_metadata_def put_proc_def
      rusty_loaded_def masks_ready_def)
  then have ld1: "rusty_loaded ?s" by (simp add: rusty_inv_def)
  let ?f = "\<lambda>c. c\<lparr>rc_dom_rr_cur := rc_dom_rr_cur c + 1\<rparr>"
  let ?rp = "pick_domain_spec (cpus_ptr env p) ?s (-1) ((new_process p)\<lparr>rp_dom_mask := 0\<rparr>)
    (pick_hits env p ?s)"
  let ?s2 = "upd_core ?c ?f ?s"
  have t2: "task_pick_domain env p (new_process p) ?s = Inr (?rp, ?s2)"
    by (rule task_pick_domain_spec [OF ld1])
  have ld2: "rusty_loaded ?s2" by (rule loaded_core [OF ld1]) simp
  have inv2: "rusty_inv ?s2" by (rule rusty_inv_masks [OF inv1 _ _ ld2]) (simp_all add: upd_core_def)
  obtain m where m: "r_all_cpumask ?s2 = Some m" using ld2 by (auto simp: rusty_loaded_def masks_ready_def)
  let ?s3 = "put_proc a (?rp\<lparr>rp_all_cpus := (m |\<subseteq>| cpus_ptr env p)\<rparr>) ?s2"
  have h2: "heap ?s2 a = Some (new_process p)" by (simp add: sys_defs)
  have "rusty_inv ?s3"
    by (rule rusty_inv_put [OF inv2 h2]) (simp_all add: pick_domain_spec_same)
  moreover have "heap ?s3 a = Some (?rp\<lparr>rp_all_cpus := (m |\<subseteq>| cpus_ptr env p)\<rparr>)" by (simp add: put_proc_def)
  moreover have "kern ?s3 = (kern s)\<lparr>k_meta := (k_meta (kern s))(p \<mapsto> a)\<rparr>" "r_idle_cpu ?s3 = r_idle_cpu s"
    by (simp_all add: sys_defs)
  moreover have "sched_new_prepare api env p flags (Some a) s =
      rusty_select_cpu api env a p (k_cpu (kern ?s3) p) flags ?s3"
    using small t2 m by (simp add: sched_new_prepare_def)
  ultimately show ?thesis by blast
qed

lemma rusty_new_prepare:
  assumes inv: "rusty_inv s" and env: "al \<noteq> None \<Longrightarrow> env_ok api env"
    and pr: "protocol (NewPrepare p flags al n) s"
  shows "\<exists>cpu t. sched_new_prepare api env p flags al s = Inr (cpu, t) \<and> rusty_inv t \<and>
    r_idle_cpu t |\<subseteq>| r_idle_cpu s \<and>
    kern t = (case al of None \<Rightarrow> kern s | Some a \<Rightarrow> (kern s)\<lparr>k_meta := (k_meta (kern s))(p \<mapsto> a)\<rparr>)"
proof (cases al)
  case None
  with inv show ?thesis by (simp add: sched_new_prepare_def)
next
  case (Some a)
  with env have ok: "env_ok api env" "kzalloc_small_ok env" "mask_fits api" by (simp_all add: env_ok_def)
  obtain u rp where u: "sched_new_prepare api env p flags al s =
      rusty_select_cpu api env a p (k_cpu (kern u) p) flags u"
    "rusty_inv u" "heap u a = Some rp" "r_idle_cpu u = r_idle_cpu s"
    "kern u = (kern s)\<lparr>k_meta := (k_meta (kern s))(p \<mapsto> a)\<rparr>"
    using rusty_prepare_setup [OF inv _ ok(2,3), of p flags a n] pr unfolding Some by metis
  have "rusty_loaded u" using u(2) by (simp add: rusty_inv_def)
  then obtain cpu t where t: "rusty_select_cpu api env a p (k_cpu (kern u) p) flags u = Inr (cpu, t)"
    "sel_frame a u t"
    using rusty_select_cpu_effect [OF ok(1) _ u(3), of p "k_cpu (kern u) p" flags] by blast
  then have "kern t = kern u" "r_idle_cpu t |\<subseteq>| r_idle_cpu u" by (simp_all add: sel_frame_def)
  then show ?thesis using t u rusty_inv_frame [OF u(2) t(2)] Some by simp
qed

lemma rusty_new_prepare_fault:
  assumes inv: "rusty_inv s" and pr: "protocol (NewPrepare p flags (Some a) n) s"
    and f: "prepare_fault api env = Some f"
  shows "sched_new_prepare api env p flags (Some a) s = Inl f"
proof (cases "kzalloc_small_ok env \<and> mask_fits api")
  case True
  then obtain u rp where "sched_new_prepare api env p flags (Some a) s =
      rusty_select_cpu api env a p (k_cpu (kern u) p) flags u" "heap u a = Some rp"
    using rusty_prepare_setup [OF inv pr] by blast
  then show ?thesis using True f rusty_select_cpu_no_memory [of u a rp env]
    by (auto simp: prepare_fault_def split: if_splits)
next
  case False
  with f show ?thesis by (auto simp: sched_new_prepare_def prepare_fault_def Let_def split: if_splits)
qed

lemma rusty_tuner:
  assumes "rusty_inv s" and "platform_ok api env" and "kzalloc_ok env"
  shows "\<exists>t. tuner_step env s = Inr t \<and> rusty_inv t \<and> kern t = kern s"
proof -
  have m: "masks_ready s" using assms(1) by (simp add: rusty_inv_def rusty_loaded_def)
  then obtain dg kg where "r_direct_greedy s = Some dg" "r_kick_greedy s = Some kg"
    by (auto simp: masks_ready_def)
  then obtain t where t: "tuner_step env s = Inr t" "tuner_frame s t" "r_direct_greedy t \<noteq> None"
    "r_kick_greedy t \<noteq> None"
    using tuner_step_effect [of env s] assms(2,3) unfolding platform_ok_def by fastforce
  have "rusty_loaded t"
    using assms(1) t m by (simp add: rusty_inv_def rusty_loaded_def tuner_frame_def masks_ready_def)
  with t assms(1) show ?thesis by (simp add: rusty_inv_def tuner_frame_def)
qed

section \<open>The core events\<close>

lemma loaded_core_state [simp]:
  "rusty_loaded (upd_core c (\<lambda>c. c\<lparr>rc_state := st\<rparr>) s) = rusty_loaded s"
  by (auto simp: rusty_loaded_def masks_ready_def upd_core_def)

lemma clear_idle_simps [simp]:
  "kern (clear_idle_cpu env i s) = kern s" "heap (clear_idle_cpu env i s) = heap s"
  "rusty_loaded (clear_idle_cpu env i s) = rusty_loaded s"
  by (simp_all add: clear_idle_cpu_def)

lemma loaded_all: "rusty_loaded s \<Longrightarrow> \<exists>m. r_all_cpumask s = Some m"
  by (auto simp: rusty_loaded_def masks_ready_def)

lemma rusty_core_entry:
  assumes "rusty_inv s"
  shows "\<exists>t. sched_core_entry env c s = Inr t \<and> rusty_inv t \<and> kern t = kern s"
proof -
  have ld: "rusty_loaded s" using assms by (simp add: rusty_inv_def)
  then obtain m where "r_all_cpumask s = Some m" using loaded_all by blast
  with assms ld show ?thesis
    by (simp add: sched_core_entry_def Let_def upd_core_def rusty_inv_def rusty_loaded_def
        masks_ready_def clear_idle_cpu_def)
qed

text \<open>The bit \<open>sched_core_exit\<close> clears.\<close>

definition exit_bit :: "cpu \<Rightarrow> rusty_sys \<Rightarrow> nat" where
  "exit_bit c s = unat (ucast (ct_idle (rc_times (cores s c))) :: u32)"

lemma rusty_core_exit:
  assumes "rusty_inv s"
  shows "if exit_bit c s < mask_bits api
    then \<exists>t. sched_core_exit api env c s = Inr t \<and> rusty_inv t \<and> kern t = kern s
    else sched_core_exit api env c s = Inl OutOfBounds"
proof -
  have ld: "rusty_loaded s" using assms by (simp add: rusty_inv_def)
  then obtain m where "r_all_cpumask s = Some m" using loaded_all by blast
  with assms ld show ?thesis
    by (simp add: sched_core_exit_def exit_bit_def Let_def upd_core_def rusty_inv_def
        rusty_loaded_def masks_ready_def clear_idle_cpu_def)
qed

lemma rusty_idle_events:
  assumes "rusty_inv s"
  shows "rusty_inv (sched_enter_idle env c s)" and "rusty_inv (sched_exit_idle env c s)"
    and "kern (sched_enter_idle env c s) = kern s" and "kern (sched_exit_idle env c s) = kern s"
  using assms
  by (simp_all add: sched_enter_idle_def sched_exit_idle_def rusty_inv_def Let_def upd_core_def
      clear_idle_cpu_def rusty_loaded_def masks_ready_def)

lemma rusty_set_cpu:
  assumes inv: "rusty_inv s" and pr: "protocol (SetTaskCpu p c) s"
  shows "rusty_inv (set_task_cpu p c s)"
proof -
  from inv have pol: "policy_inv rp_state rp_task rp_rq (kern s) (heap s)"
    and cur: "current_ok (kern s)" by (simp_all add: rusty_inv_def)
  have "policy_inv rp_state rp_task rp_rq ((kern s)\<lparr>k_cpu := (k_cpu (kern s))(p := c)\<rparr>) (heap s)"
    by (rule policy_inv_set_cpu [OF pol]) (use pr in simp)
  moreover have "current_ok ((kern s)\<lparr>k_cpu := (k_cpu (kern s))(p := c)\<rparr>)"
    using cur pr by (auto simp: current_ok_def)
  ultimately show ?thesis
    using inv by (simp add: rusty_inv_def set_task_cpu_def rusty_loaded_def masks_ready_def)
qed

section \<open>The policy\<close>

text \<open>
  The events the framework delivers, on a platform whose topology is complete and whose masks choose as
  documented; allocations may fail.
\<close>

fun rusty_protocol :: "kapi \<Rightarrow> rusty_event \<Rightarrow> rusty_sys \<Rightarrow> bool" where
  "rusty_protocol api (TunerStep env) s = platform_ok api env"
| "rusty_protocol api (Event env (UnblockPrepare p flags n)) s =
     (platform_ok api env \<and> attached (kern s) p \<and> protocol (UnblockPrepare p flags n) s)"
| "rusty_protocol api (Event env e) s = (platform_ok api env \<and> protocol e s)"

text \<open>
  The events that fault, and how: a thread is created and one of its masks is not allocated or does not hold
  a mask; the tuner's mask is not allocated, which every search for a cpu starts with; a core goes away
  whose idle counter is not the number of a bit of the mask.
\<close>

fun must_fault :: "kapi \<Rightarrow> rusty_event \<Rightarrow> rusty_sys \<Rightarrow> fault option" where
  "must_fault api (TunerStep env) s = (if kzalloc_ok env then None else Some NullDeref)"
| "must_fault api (Event env (NewPrepare p flags al n)) s =
     (if al = None then None else prepare_fault api env)"
| "must_fault api (Event env (UnblockPrepare p flags n)) s = (if kzalloc_ok env then None else Some NullDeref)"
| "must_fault api (Event env (CoreExit c)) s = (if exit_bit c s < mask_bits api then None else Some OutOfBounds)"
| "must_fault api (Event env e) s = None"

text \<open>
  The faults of a search that reaches its foreign part, for a thread that may run on every cpu.
\<close>

fun may_faults :: "kapi \<Rightarrow> rusty_event \<Rightarrow> rusty_sys \<Rightarrow> fault set" where
  "may_faults api (Event env (UnblockPrepare p flags n)) s =
     (case k_meta (kern s) p of None \<Rightarrow> {}
      | Some a \<Rightarrow> (case heap s a of None \<Rightarrow> {} | Some rp \<Rightarrow> greedy_faults api env rp))"
| "may_faults api e s = {}"

definition rusty_en :: "kapi \<Rightarrow> rusty_event \<Rightarrow> rusty_sys \<Rightarrow> bool" where
  "rusty_en api e s \<longleftrightarrow> rusty_protocol api e s \<and> must_fault api e s = None \<and> may_faults api e s = {}"

text \<open>The abstract operation of an event.\<close>

fun rusty_op :: "rusty_event \<Rightarrow> rusty_sys \<Rightarrow> aop" where
  "rusty_op (Event env (NewPlace p)) s = Place p (k_cpu (kern s) p)"
| "rusty_op (Event env (UnblockPlace p)) s = Place p (k_cpu (kern s) p)"
| "rusty_op (Event env (Tick p c now)) s =
     (if slice_over env p now s then Preempt p c else Skip)"
| "rusty_op (Event env (Yield p)) s = Preempt p (k_cpu (kern s) p)"
| "rusty_op (Event env (Block p c)) s = Leave p"
| "rusty_op (Event env (Terminate p)) s = Leave p"
| "rusty_op (Event env (Schedule c now)) s = Elect c"
| "rusty_op _ s = Skip"

context saakm_framework
begin

lemma rusty_event_step:
  assumes inv: "rusty_inv s" and prot: "rusty_protocol api (Event env e) s"
    and must: "must_fault api (Event env e) s = None"
  shows "(\<exists>t. rusty_routines api (Event env e) s = Inr t \<and> rusty_inv t \<and>
      abs_fifo (kern t) = a_step (rusty_op (Event env e) s) (abs_fifo (kern s))) \<or>
    (\<exists>f \<in> may_faults api (Event env e) s. rusty_routines api (Event env e) s = Inl f)"
proof -
  from prot have env: "platform_ok api env" and pr: "protocol e s"
    by (cases e; simp)+
  from inv have pol: "policy_inv rp_state rp_task rp_rq (kern s) (heap s)" by (simp add: rusty_inv_def)
  then have wf: "kernel_wf (kern s)" by (rule policy_inv_wf)
  have out: "k_rq (kern s) p = None" if "norm_state (k_state (kern s) p) \<noteq> IPANEMA_READY" for p
    using pol that by (cases "k_rq (kern s) p") (auto simp: policy_inv_def queue_ok_def)
  let ?cs = "\<lambda>p st. change_state api p st (k_cpu (kern s) p) (Some (LocalRq (k_cpu (kern s) p))) (kern s)"
  have place: "abs_fifo (?cs p IPANEMA_READY) = a_step (Place p (k_cpu (kern s) p)) (abs_fifo (kern s))"
    if "k_state (kern s) p = IPANEMA_NOT_QUEUED \<or> k_state (kern s) p = IPANEMA_BLOCKED" for p
  proof (rule abs_place [OF wf])
    show "k_rq (kern s) p = None" by (rule out) (use that in auto)
    show "k_current (kern s) d \<noteq> Some p" for d using that rusty_current(2) [OF inv, of d p] by auto
  qed simp
  have preempt: "abs_fifo (?cs p st) = a_step (Preempt p c) (abs_fifo (kern s))"
    if cur: "k_current (kern s) c = Some p" and st: "st \<noteq> IPANEMA_RUNNING" for p st c
  proof -
    have cpu: "k_cpu (kern s) p = c" using rusty_current(3) [OF inv cur] .
    have "k_rq (kern s) p = None" by (rule out) (use rusty_current(2) [OF inv cur] in simp)
    moreover have "k_current (kern s) d = Some p \<longleftrightarrow> d = c" for d
      using rusty_current(3) [OF inv, of d p] cpu cur by auto
    ultimately show ?thesis using abs_preempt [OF wf, of p c st] st cpu by simp
  qed
  show ?thesis
  proof (cases e)
    case (NewPrepare p flags al n)
    with must env have "al \<noteq> None \<Longrightarrow> env_ok api env" by (simp add: env_ok_prepare split: if_splits)
    with NewPrepare pr rusty_new_prepare [OF inv, of al api env p flags n] show ?thesis
      by (auto simp: abs_fifo_def split: option.splits)
  next
    case (NewPlace p)
    with pr rusty_place(1) [OF inv, of p] place [of p] show ?thesis by fastforce
  next
    case (UnblockPlace p)
    with pr rusty_place(2) [OF inv, of p] place [of p] show ?thesis by fastforce
  next
    case (Yield p)
    with pr have cur: "k_current (kern s) (k_cpu (kern s) p) = Some p" by simp
    from rusty_place(3) [OF inv rusty_current(1) [OF inv cur]] preempt [OF cur, of IPANEMA_READY] Yield
    show ?thesis by fastforce
  next
    case (Tick p c now)
    with pr have cur: "k_current (kern s) c = Some p" by auto
    obtain t where "rusty_sched_tick api env p now s = Inr t" "rusty_inv t"
      "kern t = (if slice_over env p now s then ?cs p IPANEMA_READY_TICK else kern s)"
      using rusty_tick [OF inv rusty_current(1) [OF inv cur], of env now] by blast
    with preempt [OF cur, of IPANEMA_READY_TICK] Tick show ?thesis by simp
  next
    case (Block p c)
    with pr have cur: "k_current (kern s) c = Some p" by auto
    from rusty_block [OF inv rusty_current(1) [OF inv cur]] abs_leave [OF wf, of IPANEMA_BLOCKED] Block
    show ?thesis by fastforce
  next
    case (UnblockPrepare p flags n)
    with prot have "attached (kern s) p" by simp
    then obtain a rp where a: "k_meta (kern s) p = Some a" "heap s a = Some rp"
      using rusty_object [OF inv] by blast
    from must UnblockPrepare have "kzalloc_ok env" by (simp split: if_splits)
    with rusty_unblock_prepare [OF inv env a] UnblockPrepare a show ?thesis by fastforce
  next
    case (Terminate p)
    with pr rusty_terminate [OF inv, of p] abs_leave [OF wf, of IPANEMA_TERMINATED]
    show ?thesis by fastforce
  next
    case (Schedule c now)
    obtain t where t: "sched_schedule api c s = Inr t" "rusty_inv t"
      "kern t = (case k_queue (kern s) (LocalRq c) of [] \<Rightarrow> kern s
        | p # ps \<Rightarrow> change_state api p IPANEMA_RUNNING c None (kern s))"
      using rusty_schedule [OF inv] by blast
    show ?thesis
    proof (cases "k_queue (kern s) (LocalRq c)")
      case Nil
      with t Schedule show ?thesis by (simp add: abs_fifo_def)
    next
      case (Cons p ps)
      with t Schedule abs_elect [OF wf Cons] show ?thesis by simp
    qed
  next
    case (CoreEntry c)
    with rusty_core_entry [OF inv, of env c] show ?thesis by fastforce
  next
    case (CoreExit c)
    with must have "exit_bit c s < mask_bits api" by (simp split: if_splits)
    with rusty_core_exit [OF inv, of c api env] CoreExit show ?thesis by fastforce
  next
    case (EnterIdle c)
    with rusty_idle_events [OF inv] show ?thesis by simp
  next
    case (ExitIdle c)
    with rusty_idle_events [OF inv] show ?thesis by simp
  next
    case (SetTaskCpu p c)
    with rusty_set_cpu [OF inv] pr show ?thesis by (simp add: abs_fifo_def set_task_cpu_def)
  qed (use inv in \<open>simp_all add: sched_newly_idle_def sched_balancing_select_def sched_new_end_def
      sched_unblock_end_def\<close>)
qed

text \<open>Every event the framework delivers returns or has one of the listed faults.\<close>

lemma rusty_outcome:
  assumes inv: "rusty_inv s" and prot: "rusty_protocol api e s"
  shows "case must_fault api e s of Some f \<Rightarrow> rusty_routines api e s = Inl f
    | None \<Rightarrow> (\<exists>t. rusty_routines api e s = Inr t \<and> rusty_inv t \<and>
          abs_fifo (kern t) = a_step (rusty_op e s) (abs_fifo (kern s))) \<or>
        (\<exists>f \<in> may_faults api e s. rusty_routines api e s = Inl f)"
proof (cases "must_fault api e s")
  case None
  show ?thesis
  proof (cases e)
    case (Event env ev)
    with None prot rusty_event_step [OF inv, of env ev] show ?thesis by simp
  next
    case (TunerStep env)
    with None prot have "kzalloc_ok env" "platform_ok api env" by (simp_all split: if_splits)
    with rusty_tuner [OF inv, of api env] TunerStep None show ?thesis by auto
  qed
next
  case (Some f)
  then have "rusty_routines api e s = Inl f"
  proof (cases "(api, e, s)" rule: must_fault.cases)
    case (2 api' env p flags al n s')
    with Some prot rusty_new_prepare_fault [OF inv, of p flags _ n api env f] show ?thesis
      by (auto split: if_splits)
  next
    case (3 api' env p flags n s')
    with prot have pl: "platform_ok api env" and "attached (kern s) p" by simp_all
    then obtain a rp where "k_meta (kern s) p = Some a" "heap s a = Some rp"
      using rusty_object [OF inv] by blast
    from rusty_unblock_prepare [OF inv pl this] Some 3 show ?thesis by (simp split: if_splits)
  next
    case (4 api' env c s')
    with Some rusty_core_exit [OF inv, of c api env] show ?thesis by (simp split: if_splits)
  qed (use Some in \<open>simp_all add: tuner_step_def split: if_splits\<close>)
  with Some show ?thesis by simp
qed

lemma rusty_step:
  assumes inv: "rusty_inv s" and en: "rusty_en api e s"
  shows "\<exists>t. rusty_routines api e s = Inr t \<and> rusty_inv t \<and>
    abs_fifo (kern t) = a_step (rusty_op e s) (abs_fifo (kern s))"
  using rusty_outcome [OF inv, of e] en by (simp add: rusty_en_def)

text \<open>A routine that returns keeps the invariant, even where it could have had a fault.\<close>

lemma rusty_returns_inv:
  assumes "rusty_inv s" and "rusty_protocol api e s" and "rusty_routines api e s = Inr t"
  shows "rusty_inv t"
  using rusty_outcome [OF assms(1,2)] assms(3) by (auto split: option.splits)

lemma rusty_protocol_reachable:
  "reachable (rusty_routines api) (rusty_protocol api) s t \<Longrightarrow> rusty_inv s \<Longrightarrow> rusty_inv t"
  by (induction rule: reachable.induct) (auto intro: rusty_returns_inv)

end

sublocale saakm_framework \<subseteq> rusty: refining_policy "rusty_routines api" "rusty_en api" rusty_inv
    "\<lambda>s. abs_fifo (kern s)" rusty_op a_step
proof unfold_locales
  fix s e assume "rusty_inv s" and "rusty_en api e s"
  then show "\<exists>t. rusty_routines api e s = Inr t \<and> rusty_inv t" using rusty_step by blast
next
  fix s e t assume "rusty_inv s" and "rusty_en api e s" and "rusty_routines api e s = Inr t"
  then show "abs_fifo (kern t) = a_step (rusty_op e s) (abs_fifo (kern s))"
    using rusty_step [of s e] by auto
qed

interpretation ref_rusty: refining_policy "rusty_routines ref_api" "rusty_en ref_api" rusty_inv
    "\<lambda>s. abs_fifo (kern s)" rusty_op a_step
  by (rule ref.rusty.refining_policy_axioms)

context saakm_framework
begin

lemma rusty_run_refines:
  "rusty_inv s \<Longrightarrow> admissible (rusty_routines api) (rusty_en api) es s \<Longrightarrow>
    \<exists>t. run (rusty_routines api) es s = Inr t \<and> rusty_inv t \<and>
      abs_fifo (kern t) = fold a_step (ops_of (rusty_routines api) rusty_op es s) (abs_fifo (kern s))"
  by (rule rusty.run_refines)

lemma rusty_reachable_inv:
  "reachable (rusty_routines api) (rusty_en api) s t \<Longrightarrow> rusty_inv s \<Longrightarrow> rusty_inv t"
  by (rule rusty.reachable_inv)

end

end
