(* ===== verification/Rusty_Init.thy ===== *)
theory Rusty_Init
  imports Rusty_Correct
begin

text \<open>
  modules/rusty_saakm/rusty_saakm.c, \<open>init_sched\<close>: with a complete topology the two loops
  establish the invariant and partition the cpus into domains.
\<close>

section \<open>Before the module is loaded\<close>

text \<open>Statically allocated data is zero, and no thread has been given to a policy.\<close>

definition rusty_unloaded :: "rusty_sys \<Rightarrow> bool" where
  "rusty_unloaded s \<longleftrightarrow> fresh_kernel (kern s) \<and> (\<forall>c. rc_dom_id (cores s c) = 0)"

text \<open>The kernel's levels: complete, not NUMA levels, and at most \<open>MAX_DOMS\<close> of them.\<close>

definition domains_ok :: "rusty_env \<Rightarrow> bool" where
  "domains_ok env \<longleftrightarrow> topology_ok env \<and> possible_cpus env \<noteq> [] \<and>
     (\<forall>c \<in> set (possible_cpus env). \<forall>l. topology_levels env c = Some l \<longrightarrow> \<not> domain_numa l) \<and>
     card (topology_levels env ` set (possible_cpus env)) \<le> MAX_DOMS"

lemma domains_okD:
  assumes "domains_ok env" and "c \<in> set (possible_cpus env)"
  shows "\<exists>l. topology_levels env c = Some l \<and> c |\<in>| topo_cores l \<and> \<not> domain_numa l \<and>
     (\<forall>d. d |\<in>| topo_cores l \<longrightarrow> d \<in> set (possible_cpus env) \<and> topology_levels env d = Some l)"
  using assms topology_okD [of env c] by (auto simp: domains_ok_def)

section \<open>The first loop\<close>

lemma init_cores:
  "kern (fold (init_core api env) cpus s) = fold (\<lambda>c. init_rq api (LocalRq c)) cpus (kern s) \<and>
   heap (fold (init_core api env) cpus s) = heap s \<and>
   (\<forall>c. rc_dom_id (cores (fold (init_core api env) cpus s) c) = rc_dom_id (cores s c)) \<and>
   r_nr_doms (fold (init_core api env) cpus s) = r_nr_doms s \<and>
   (masks_ready s \<longrightarrow> masks_ready (fold (init_core api env) cpus s))"
proof (induction cpus arbitrary: s)
  case Nil
  then show ?case by simp
next
  case (Cons c cpus)
  have 1: "kern (init_core api env c s) = init_rq api (LocalRq c) (kern s)"
    "heap (init_core api env c s) = heap s"
    "rc_dom_id (cores (init_core api env c s) d) = rc_dom_id (cores s d)"
    "r_nr_doms (init_core api env c s) = r_nr_doms s"
    "masks_ready s \<Longrightarrow> masks_ready (init_core api env c s)" for d
    by (auto simp: init_core_def upd_core_def Let_def masks_ready_def)
  from Cons.IH [of "init_core api env c s"] 1 show ?case by simp
qed

section \<open>The second loop\<close>

lemma set_dom_ids:
  "fold (set_dom_id d) cs s =
     s\<lparr>cores := (\<lambda>c. if c \<in> set cs then (cores s c)\<lparr>rc_dom_id := d\<rparr> else cores s c)\<rparr>"
proof (induction cs arbitrary: s)
  case Nil
  then show ?case by simp
next
  case (Cons c cs)
  have "(if a \<in> set cs then ((cores (set_dom_id d c s)) a)\<lparr>rc_dom_id := d\<rparr> else cores (set_dom_id d c s) a) =
      (if a \<in> set (c # cs) then (cores s a)\<lparr>rc_dom_id := d\<rparr> else cores s a)" for a
    by (simp add: set_dom_id_def upd_core_def)
  with Cons.IH [of "set_dom_id d c s"] show ?case
    by (simp add: set_dom_id_def upd_core_def)
qed

text \<open>
  What the loop has done when the cpus \<open>D\<close> are marked: they are the cpus of the domains
  so far, every one carries the number of the domain that has its level, and domains
  with different numbers have different levels.
\<close>

definition doms_done :: "rusty_env \<Rightarrow> cpumask \<Rightarrow> rusty_sys \<Rightarrow> bool" where
  "doms_done env D s \<longleftrightarrow>
     fset D \<subseteq> set (possible_cpus env) \<and>
     (\<forall>c l. c |\<in>| D \<longrightarrow> topology_levels env c = Some l \<longrightarrow> topo_cores l |\<subseteq>| D) \<and>
     r_nr_doms s = card (topology_levels env ` fset D) \<and>
     (\<forall>c. c |\<in>| D \<longrightarrow> unat (rc_dom_id (cores s c)) < r_nr_doms s \<and>
        (\<exists>x. r_dom_data s (unat (rc_dom_id (cores s c))) = Some x \<and>
             topology_levels env c = Some (dom_topology x))) \<and>
     (\<forall>d < r_nr_doms s. \<exists>c. c |\<in>| D \<and> unat (rc_dom_id (cores s c)) = d) \<and>
     (\<forall>c. c |\<notin>| D \<longrightarrow> rc_dom_id (cores s c) = 0)"

lemma doms_done_bound:
  assumes "domains_ok env" and "doms_done env D s"
  shows "r_nr_doms s \<le> MAX_DOMS"
proof -
  have "card (topology_levels env ` fset D) \<le> card (topology_levels env ` set (possible_cpus env))"
    using assms(2) by (intro card_mono) (auto simp: doms_done_def)
  with assms show ?thesis by (simp add: doms_done_def domains_ok_def)
qed

text \<open>One turn for a cpu that is not marked yet.\<close>

lemma doms_done_step:
  assumes ok: "domains_ok env" and D: "doms_done env D s" and c: "c \<in> set (possible_cpus env)"
    and new: "c |\<notin>| D" and l: "topology_levels env c = Some l"
  shows "r_nr_doms s < MAX_DOMS"
    and "doms_done env (D |\<union>| topo_cores l)
      ((fold (set_dom_id (of_nat (r_nr_doms s))) (cpus_of (topo_cores l))
         (s\<lparr>r_dom_data := (r_dom_data s)(r_nr_doms s \<mapsto>
            \<lparr>dom_ctx_id = of_nat (r_nr_doms s), dom_topology = l\<rparr>)\<rparr>))
       \<lparr>r_nr_doms := Suc (r_nr_doms s)\<rparr>)" (is "doms_done env ?D ?t")
proof -
  let ?n = "r_nr_doms s"
  obtain cl: "c |\<in>| topo_cores l"
    and lev: "\<And>d. d |\<in>| topo_cores l \<Longrightarrow> d \<in> set (possible_cpus env) \<and> topology_levels env d = Some l"
    using domains_okD [OF ok c] l by auto
  have fresh: "Some l \<notin> topology_levels env ` fset D"
  proof
    assume "Some l \<in> topology_levels env ` fset D"
    then obtain d where "d |\<in>| D" "topology_levels env d = Some l" by auto
    with D have "topo_cores l |\<subseteq>| D" by (auto simp: doms_done_def)
    with cl new show False by auto
  qed
  then have disj: "d |\<in>| topo_cores l \<Longrightarrow> d |\<notin>| D" for d using lev by force
  have img: "topology_levels env ` fset ?D = insert (Some l) (topology_levels env ` fset D)"
  proof -
    have "topology_levels env ` fset (topo_cores l) = {Some l}" using lev cl by auto
    then show ?thesis by (simp add: image_Un)
  qed
  have n: "?n = card (topology_levels env ` fset D)" using D by (simp add: doms_done_def)
  have card: "card (topology_levels env ` fset ?D) = Suc ?n"
    unfolding img using fresh by (simp add: n)
  have sub: "fset ?D \<subseteq> set (possible_cpus env)" using D lev by (auto simp: doms_done_def)
  have "card (topology_levels env ` fset ?D) \<le> card (topology_levels env ` set (possible_cpus env))"
    using sub by (intro card_mono) auto
  then show lt: "?n < MAX_DOMS" using ok card by (simp add: domains_ok_def)
  then have un: "unat (of_nat ?n :: u32) = ?n" by (simp add: unat_of_nat MAX_DOMS_def)
  have t: "cores ?t = (\<lambda>e. if e |\<in>| topo_cores l then (cores s e)\<lparr>rc_dom_id := of_nat ?n\<rparr> else cores s e)"
    "r_nr_doms ?t = Suc ?n" "r_dom_data ?t = (r_dom_data s)(?n \<mapsto> \<lparr>dom_ctx_id = of_nat ?n, dom_topology = l\<rparr>)"
    by (simp_all add: set_dom_ids fun_eq_iff)
  show "doms_done env ?D ?t"
    unfolding doms_done_def t(2)
  proof (intro conjI)
    show "fset ?D \<subseteq> set (possible_cpus env)" by (rule sub)
    show "\<forall>d m. d |\<in>| ?D \<longrightarrow> topology_levels env d = Some m \<longrightarrow> topo_cores m |\<subseteq>| ?D"
      using D lev by (fastforce simp: doms_done_def)
    show "Suc ?n = card (topology_levels env ` fset ?D)" by (rule card [symmetric])
    show "\<forall>d. d |\<in>| ?D \<longrightarrow> unat (rc_dom_id (cores ?t d)) < Suc ?n \<and>
        (\<exists>x. r_dom_data ?t (unat (rc_dom_id (cores ?t d))) = Some x \<and>
             topology_levels env d = Some (dom_topology x))"
    proof (intro allI impI)
      fix d assume d: "d |\<in>| ?D"
      show "unat (rc_dom_id (cores ?t d)) < Suc ?n \<and>
        (\<exists>x. r_dom_data ?t (unat (rc_dom_id (cores ?t d))) = Some x \<and>
             topology_levels env d = Some (dom_topology x))"
      proof (cases "d |\<in>| topo_cores l")
        case True
        then show ?thesis using un lev by (simp add: t)
      next
        case False
        with d have "d |\<in>| D" by simp
        with D have "unat (rc_dom_id (cores s d)) < ?n \<and>
          (\<exists>x. r_dom_data s (unat (rc_dom_id (cores s d))) = Some x \<and>
             topology_levels env d = Some (dom_topology x))" unfolding doms_done_def by blast
        with False show ?thesis by (auto simp: t)
      qed
    qed
    show "\<forall>d < Suc ?n. \<exists>e. e |\<in>| ?D \<and> unat (rc_dom_id (cores ?t e)) = d"
    proof (intro allI impI)
      fix d assume "d < Suc ?n"
      show "\<exists>e. e |\<in>| ?D \<and> unat (rc_dom_id (cores ?t e)) = d"
      proof (cases "d = ?n")
        case True
        then show ?thesis using cl un by (intro exI [of _ c]) (simp add: t)
      next
        case False
        with \<open>d < Suc ?n\<close> D obtain e where "e |\<in>| D" "unat (rc_dom_id (cores s e)) = d"
          by (auto simp: doms_done_def less_Suc_eq)
        then show ?thesis using disj by (intro exI [of _ e]) (auto simp: t)
      qed
    qed
    show "\<forall>d. d |\<notin>| ?D \<longrightarrow> rc_dom_id (cores ?t d) = 0"
      using D unfolding t by (simp add: doms_done_def)
  qed
qed

text \<open>Cpus of one level carry one number.\<close>

lemma doms_done_same:
  assumes D: "doms_done env D s" and c: "c |\<in>| D" and d: "d |\<in>| D"
    and lv: "topology_levels env c = topology_levels env d"
  shows "rc_dom_id (cores s c) = rc_dom_id (cores s d)"
proof -
  let ?f = "\<lambda>i. map_option dom_topology (r_dom_data s i)" and ?L = "topology_levels env ` fset D"
  have f: "e |\<in>| D \<Longrightarrow> unat (rc_dom_id (cores s e)) < r_nr_doms s \<and>
      ?f (unat (rc_dom_id (cores s e))) = topology_levels env e" for e
    using D unfolding doms_done_def by force
  have "?f ` {..<r_nr_doms s} = ?L"
  proof
    show "?f ` {..<r_nr_doms s} \<subseteq> ?L"
    proof
      fix x assume "x \<in> ?f ` {..<r_nr_doms s}"
      then obtain i where i: "i < r_nr_doms s" "x = ?f i" by auto
      with D obtain e where "e |\<in>| D" "unat (rc_dom_id (cores s e)) = i"
        unfolding doms_done_def by blast
      with f i show "x \<in> ?L" by auto
    qed
    show "?L \<subseteq> ?f ` {..<r_nr_doms s}" using f by (force simp: image_iff)
  qed
  moreover have "r_nr_doms s = card ?L" using D by (simp add: doms_done_def)
  ultimately have "inj_on ?f {..<r_nr_doms s}" by (intro eq_card_imp_inj_on) simp_all
  moreover have "?f (unat (rc_dom_id (cores s c))) = ?f (unat (rc_dom_id (cores s d)))"
    using f [OF c] f [OF d] lv by metis
  ultimately have "unat (rc_dom_id (cores s c)) = unat (rc_dom_id (cores s d))"
    using f [OF c] f [OF d] by (metis inj_onD lessThan_iff)
  then show ?thesis by (rule unsigned_word_eqI)
qed

lemma init_doms_done:
  assumes ok: "domains_ok env" and k: "kzalloc_ok env"
  shows "set cpus \<subseteq> set (possible_cpus env) \<Longrightarrow> doms_done env D s \<Longrightarrow>
    \<exists>D' t. init_doms env cpus D s = Inr (True, t) \<and> doms_done env D' t \<and>
      D |\<subseteq>| D' \<and> set cpus \<subseteq> fset D' \<and> kern t = kern s \<and> heap t = heap s \<and>
      r_all_cpumask t = r_all_cpumask s \<and> r_direct_greedy t = r_direct_greedy s \<and>
      r_kick_greedy t = r_kick_greedy s"
proof (induction cpus arbitrary: D s)
  case Nil
  then show ?case by auto
next
  case (Cons c cpus)
  from Cons.prems(1) have c: "c \<in> set (possible_cpus env)" by simp
  obtain l where l: "topology_levels env c = Some l" "c |\<in>| topo_cores l" "\<not> domain_numa l"
    using domains_okD [OF ok c] by blast
  show ?case
  proof (cases "c |\<in>| D")
    case True
    then have "init_doms env (c # cpus) D s = init_doms env cpus D s" using l by simp
    with Cons.IH [OF _ Cons.prems(2)] Cons.prems(1) True show ?thesis by fastforce
  next
    case False
    let ?t = "(fold (set_dom_id (of_nat (r_nr_doms s))) (cpus_of (topo_cores l))
         (s\<lparr>r_dom_data := (r_dom_data s)(r_nr_doms s \<mapsto>
            \<lparr>dom_ctx_id = of_nat (r_nr_doms s), dom_topology = l\<rparr>)\<rparr>))
       \<lparr>r_nr_doms := Suc (r_nr_doms s)\<rparr>"
    note st = doms_done_step [OF ok Cons.prems(2) c False l(1)]
    have "init_doms env (c # cpus) D s = init_doms env cpus (D |\<union>| topo_cores l) ?t"
      using l False st(1) k by (simp add: Let_def)
    moreover have "kern ?t = kern s" "heap ?t = heap s" "r_all_cpumask ?t = r_all_cpumask s"
      "r_direct_greedy ?t = r_direct_greedy s" "r_kick_greedy ?t = r_kick_greedy s"
      by (simp_all add: set_dom_ids)
    ultimately show ?thesis
      using Cons.IH [OF _ st(2)] Cons.prems(1) l(2) by fastforce
  qed
qed

section \<open>The whole of it\<close>

context saakm_framework
begin

lemma init_rqs_fresh: "fresh_kernel k \<Longrightarrow> fresh_kernel (fold (\<lambda>c. init_rq api (LocalRq c)) cpus k)"
  by (induction cpus arbitrary: k) (simp_all add: init_rq_fresh)

lemma init_rqs_cpu: "k_cpu (fold (\<lambda>c. init_rq api (LocalRq c)) cpus k) = k_cpu k"
  by (induction cpus arbitrary: k) (simp_all add: init_rq)

lemma fresh_policy_current:
  assumes "fresh_kernel k"
  shows "policy_inv so ta ro k h" and "current_ok k"
  using assms by (auto simp: fresh_kernel_def policy_inv_def kernel_wf_def queue_ok_def view_ok_def
      current_ok_def)

lemma init_sched_effect:
  assumes ok: "domains_ok env" and k: "kzalloc_ok env" and un: "rusty_unloaded s"
  shows "\<exists>t. init_sched api env res s m = Inr (res, t,
        m\<lparr>tuner_running := True, policy_allocated := (res = 0), policy_registered := (res = 0)\<rparr>) \<and>
      rusty_inv t \<and> doms_done env (fset_of_list (possible_cpus env)) t \<and>
      fresh_kernel (kern t) \<and> k_cpu (kern t) = k_cpu (kern s) \<and> heap t = heap s"
proof -
  let ?P = "possible_cpus env"
  let ?s1 = "s\<lparr>r_leaked := Suc (r_leaked s), r_all_cpumask := Some {||},
    r_direct_greedy := Some {||}, r_kick_greedy := Some {||}, r_nr_doms := 0\<rparr>"
  let ?s2 = "fold (init_core api env) ?P ?s1"
  have m1: "masks_ready ?s1" by (simp add: masks_ready_def)
  note ic = init_cores [of api env ?P ?s1]
  have fr: "fresh_kernel (kern ?s2)" using un ic by (simp add: rusty_unloaded_def init_rqs_fresh)
  have m2: "masks_ready ?s2" using ic m1 by simp
  have "doms_done env {||} ?s2" using ic un by (simp add: doms_done_def rusty_unloaded_def)
  from init_doms_done [OF ok k, of ?P, OF _ this] obtain D t where
    t: "init_doms env ?P {||} ?s2 = Inr (True, t)" and D: "doms_done env D t"
    and PD: "set ?P \<subseteq> fset D" and kt: "kern t = kern ?s2" and ht: "heap t = heap ?s2"
    and mt: "r_all_cpumask t = r_all_cpumask ?s2" "r_direct_greedy t = r_direct_greedy ?s2"
      "r_kick_greedy t = r_kick_greedy ?s2"
    by auto
  have "fset D = set ?P" using D PD by (auto simp: doms_done_def)
  then have DP: "D = fset_of_list ?P" by (metis fset_inject fset_of_list.rep_eq)
  have "?P \<noteq> []" using ok by (simp add: domains_ok_def)
  then obtain c where c: "c |\<in>| D" using PD by (cases ?P) auto
  have n0: "0 < r_nr_doms t" using D c by (fastforce simp: doms_done_def)
  have "unat (rc_dom_id (cores t e)) < r_nr_doms t" for e
    using D n0 unfolding doms_done_def by (cases "e |\<in>| D") auto
  moreover have "r_dom_data t d \<noteq> None" if d: "d < r_nr_doms t" for d
  proof -
    from D d obtain e where "e |\<in>| D" "unat (rc_dom_id (cores t e)) = d"
      by (auto simp: doms_done_def)
    then show ?thesis using D by (fastforce simp: doms_done_def)
  qed
  moreover have "masks_ready t" using m2 mt by (simp add: masks_ready_def)
  ultimately have "rusty_loaded t" using doms_done_bound [OF ok D] by (simp add: rusty_loaded_def)
  then have "rusty_inv t" using fresh_policy_current [OF fr] kt by (simp add: rusty_inv_def)
  moreover have "init_sched api env res s m = Inr (res, t,
      m\<lparr>tuner_running := True, policy_allocated := (res = 0), policy_registered := (res = 0)\<rparr>)"
    using k t by (simp add: init_sched_def Let_def)
  moreover have "heap t = heap s" using ht ic by simp
  moreover have "fresh_kernel (kern t)" using kt fr by simp
  moreover have "k_cpu (kern t) = k_cpu (kern s)" using kt ic by (simp add: init_rqs_cpu)
  ultimately show ?thesis using D DP by blast
qed

end

end
