(* ===== verification/Rusty_Props.thy ===== *)
theory Rusty_Props
  imports Rusty_Init
begin

text \<open>
  The properties of modules/rusty_saakm/rusty_saakm.c: its faults, the FIFO order of its
  cores, the loop that picks an idle cpu, the range of the cpu a thread is given, the
  domains of a thread, the tuner, the tick, the loading code and the idle masks.
\<close>

section \<open>A concrete machine\<close>

text \<open>Three cpus in two domains, with the lowest cpu as the kernel's choice.\<close>

definition no_times :: cpu_times where
  "no_times = \<lparr>ct_user = 0, ct_nice = 0, ct_system = 0, ct_idle = 0, ct_iowait = 0, ct_irq = 0,
     ct_softirq = 0, ct_steal = 0\<rparr>"

definition demo_level :: "cpu \<Rightarrow> topology_level option" where
  "demo_level c = (if c = 0 \<or> c = 2 then Some \<lparr>topo_cores = {|0, 2|}, domain_numa = False\<rparr>
     else if c = 3 then Some \<lparr>topo_cores = {|3|}, domain_numa = False\<rparr> else None)"

definition demo_env :: "bool \<Rightarrow> rusty_env" where
  "demo_env smt = \<lparr>smp_processor_id = 0, smt_active = smt, cpus_ptr = (\<lambda>_. {|0, 2, 3|}),
     nr_cpus_allowed = (\<lambda>_. 3), pf_exiting = False, kcpustat_cpu = (\<lambda>_. no_times),
     user_tick_ns = 10000000, exec_start = (\<lambda>_. 0), topology_levels = demo_level,
     possible_cpus = [0, 2, 3], kzalloc_ok = True, kzalloc_small_ok = True,
     any_and_distribute = (\<lambda>n a b. first_cpu 4 (a |\<inter>| b)), any_distribute = (\<lambda>n. first_cpu 4)\<rparr>"

definition rusty_demo :: rusty_sys where
  "rusty_demo = \<lparr>kern = idle_kernel,
     cores = (\<lambda>c. \<lparr>rc_state = IPANEMA_ACTIVE_CORE, rc_id = c, rc_dom_rr_cur = 0, rc_dom_id = 0,
       rc_times = no_times\<rparr>),
     heap = (\<lambda>_. None), trace = [], r_idle_cpu = {||}, r_idle_smt = {||},
     r_direct_greedy = None, r_kick_greedy = None, r_all_cpumask = None, r_nr_doms = 0,
     r_dom_data = (\<lambda>_. None), r_leaked = 0, r_picks = 0\<rparr>"

definition rusty_off :: rusty_module where
  "rusty_off = \<lparr>policy_allocated = False, policy_registered = False, proc_entry = False,
     tuner_running = False\<rparr>"

lemma demo_sel [simp]:
  "smp_processor_id (demo_env b) = 0" "smt_active (demo_env b) = b" "kzalloc_ok (demo_env b)"
  "kzalloc_small_ok (demo_env b)"
  "cpus_ptr (demo_env b) p = {|0, 2, 3|}" "topology_levels (demo_env b) = demo_level"
  "possible_cpus (demo_env b) = [0, 2, 3]" "exec_start (demo_env b) p = 0"
  "nr_cpus_allowed (demo_env b) p = 3"
  "any_and_distribute (demo_env b) n x y = first_cpu 4 (x |\<inter>| y)"
  "any_distribute (demo_env b) n x = first_cpu 4 x"
  by (simp_all add: demo_env_def)

lemma demo_distribute: "distribute_ok ref_api (demo_env b)"
  using first_cpu_mem [of "_ |\<inter>| _" 4] first_cpu_mem [of _ 4]
  by (auto simp: distribute_ok_def) (simp_all add: first_cpu_def)

lemma demo_env_ok: "env_ok ref_api (demo_env b)"
  by (simp add: env_ok_def platform_ok_def demo_distribute demo_level_def mask_fits_def mask_bits_def)

lemma demo_platform: "platform_ok ref_api (demo_env b)" "prepare_fault ref_api (demo_env b) = None"
  using demo_env_ok [of b] by (simp_all add: env_ok_prepare)

lemma demo_topology: "topology_ok (demo_env b)"
  by (auto simp: topology_ok_def demo_level_def)

lemma demo_domains: "domains_ok (demo_env b)"
proof -
  have "demo_level ` {0, 2, 3} = {demo_level 0, demo_level 3}" by (auto simp: demo_level_def)
  then have "card (demo_level ` {0, 2, 3}) \<le> 2" by (simp add: card_insert_le_m1)
  then have "card (demo_level ` {0, 2, 3}) \<le> MAX_DOMS" by (simp add: MAX_DOMS_def)
  then show ?thesis using demo_topology by (auto simp: domains_ok_def) (auto simp: demo_level_def)
qed

lemma demo_unloaded: "rusty_unloaded rusty_demo"
  by (simp add: rusty_unloaded_def rusty_demo_def)

text \<open>The machine once the module is loaded.\<close>

definition rusty_up :: "bool \<Rightarrow> rusty_sys" where
  "rusty_up b = fst (snd (projr (init_sched ref_api (demo_env b) 0 rusty_demo rusty_off)))"

lemma rusty_up:
  "init_sched ref_api (demo_env b) 0 rusty_demo rusty_off =
     Inr (0, rusty_up b, rusty_off\<lparr>tuner_running := True, policy_allocated := True,
       policy_registered := True\<rparr>)"
  "rusty_inv (rusty_up b)" "fresh_kernel (kern (rusty_up b))" "heap (rusty_up b) = (\<lambda>_. None)"
  "k_cpu (kern (rusty_up b)) p = 0"
proof -
  obtain t where t: "init_sched ref_api (demo_env b) 0 rusty_demo rusty_off = Inr (0, t,
      rusty_off\<lparr>tuner_running := True, policy_allocated := True, policy_registered := True\<rparr>)"
    "rusty_inv t" "fresh_kernel (kern t)" "k_cpu (kern t) = k_cpu (kern rusty_demo)" "heap t = heap rusty_demo"
    using ref.init_sched_effect [OF demo_domains _ demo_unloaded, of b 0 rusty_off] by auto
  then have "rusty_up b = t" by (simp add: rusty_up_def)
  with t show "init_sched ref_api (demo_env b) 0 rusty_demo rusty_off =
     Inr (0, rusty_up b, rusty_off\<lparr>tuner_running := True, policy_allocated := True,
       policy_registered := True\<rparr>)"
    "rusty_inv (rusty_up b)" "fresh_kernel (kern (rusty_up b))" "heap (rusty_up b) = (\<lambda>_. None)"
    "k_cpu (kern (rusty_up b)) p = 0"
    by (simp_all add: rusty_demo_def idle_kernel_def)
qed

lemma rusty_up_prepare: "rusty_en ref_api (Event (demo_env b) (NewPrepare 7 8 (Some 100) 3)) (rusty_up b)"
  using rusty_up(3,4) [of b] demo_platform [of b] by (simp add: rusty_en_def fresh_kernel_def)

section \<open>Faults\<close>

text \<open>An allocation that fails leaves the platform as it is.\<close>

lemma platform_no_memory:
  "platform_ok api (env\<lparr>kzalloc_ok := b\<rparr>) = platform_ok api env"
  "platform_ok api (env\<lparr>kzalloc_small_ok := b\<rparr>) = platform_ok api env"
  by (simp_all add: platform_ok_def distribute_ok_def)

text \<open>C14 rusty_saakm.c loaded on a complete topology with at most 64 domains, whatever allocations fail
  afterwards: in every state that calls which returned can reach, every event the framework delivers and
  every step of the tuner thread returns, the retry loop of \<open>pick_idle_cpu\<close> included, with these exceptions.
  A core exit whose idle counter is not the number of a bit of \<open>all_cpumask\<close> writes outside the mask.
  Creating a thread dereferences a null pointer when one of its two masks is not allocated, and writes
  outside them when 4 bytes are given too little room for a mask. Without memory for the
  tuner's mask a tuner step, and the wakeup or creation of a thread, which begin with one, dereference a null
  pointer. And the wakeup of a thread that may run on every cpu may, where it gets to the cpus of other
  domains, do to its small mask what the creation of a thread does.\<close>

theorem rusty_only_fault:
  assumes fw: "saakm_framework api" and ok: "domains_ok env" "kzalloc_ok env"
    and un: "rusty_unloaded s0" and load: "init_sched api env res s0 m = Inr (r, s1, m1)"
    and reach: "reachable (rusty_routines api) (rusty_protocol api) s1 s"
    and ev: "rusty_protocol api e s"
  shows "case must_fault api e s of
      Some f \<Rightarrow> rusty_routines api e s = Inl f
    | None \<Rightarrow> (\<exists>t. rusty_routines api e s = Inr t) \<or>
        (\<exists>f \<in> may_faults api e s. rusty_routines api e s = Inl f)"
proof -
  have "rusty_inv s1"
    using saakm_framework.init_sched_effect [OF fw ok un, of res m] load by auto
  then have "rusty_inv s" by (rule saakm_framework.rusty_protocol_reachable [OF fw reach])
  from saakm_framework.rusty_outcome [OF fw this ev] show ?thesis by (auto split: option.splits)
qed

text \<open>
  A thread is created; and the same when there is no memory for its masks, and when there is none for
  the mask of the tuner.
\<close>

theorem rusty_only_fault_witness:
  "(\<exists>t. rusty_routines ref_api (Event (demo_env True) (NewPrepare 7 8 (Some 100) 3)) (rusty_up True) = Inr t) \<and>
   rusty_routines ref_api (Event ((demo_env True)\<lparr>kzalloc_small_ok := False\<rparr>) (NewPrepare 7 8 (Some 100) 3))
     (rusty_up True) = Inl NullDeref \<and>
   rusty_routines ref_api (TunerStep ((demo_env True)\<lparr>kzalloc_ok := False\<rparr>)) (rusty_up True) = Inl NullDeref"
proof -
  note fact = rusty_only_fault [OF ref.saakm_framework_axioms demo_domains _ demo_unloaded rusty_up(1)
      reachable.start, of True]
  have p: "protocol (NewPrepare 7 8 (Some 100) 3) (rusty_up True)"
    using rusty_up_prepare [of True] by (simp add: rusty_en_def)
  have pl: "platform_ok ref_api ((demo_env True)\<lparr>kzalloc_small_ok := False\<rparr>)"
    "platform_ok ref_api ((demo_env True)\<lparr>kzalloc_ok := False\<rparr>)"
    using demo_platform(1) [of True] by (simp_all only: platform_no_memory)
  show ?thesis
    using fact [of "Event (demo_env True) (NewPrepare 7 8 (Some 100) 3)"]
      fact [of "Event ((demo_env True)\<lparr>kzalloc_small_ok := False\<rparr>) (NewPrepare 7 8 (Some 100) 3)"]
      fact [of "TunerStep ((demo_env True)\<lparr>kzalloc_ok := False\<rparr>)"] p pl demo_platform [of True]
    by (simp add: prepare_fault_def)
qed

section \<open>Order of the cores\<close>

text \<open>C13 rusty_saakm.c: every run of events, the tuner's steps included, is a run of the
  abstract scheduler with one FIFO queue per core: a placed thread enters the queue of its
  cpu at the tail, a used-up slice or a yield sends the running thread of the core there,
  and a core elects its head.\<close>

theorem rusty_run_is_fifo:
  assumes fw: "saakm_framework api" and ok: "domains_ok env" "kzalloc_ok env"
    and un: "rusty_unloaded s0" and load: "init_sched api env res s0 m = Inr (r, s, m1)"
    and adm: "admissible (rusty_routines api) (rusty_en api) es s"
  shows "\<exists>t. run (rusty_routines api) es s = Inr t \<and>
    abs_fifo (kern t) = fold a_step (ops_of (rusty_routines api) rusty_op es s) (abs_fifo (kern s))"
proof -
  have "rusty_inv s"
    using saakm_framework.init_sched_effect [OF fw ok un, of res m] load by auto
  from saakm_framework.rusty_run_refines [OF fw this adm] show ?thesis by blast
qed

definition demo_run :: "bool \<Rightarrow> rusty_event list" where
  "demo_run b = [Event (demo_env b) (NewPrepare 7 8 (Some 100) 3), Event (demo_env b) (NewPlace 7),
     Event (demo_env b) (Schedule 0 0), TunerStep (demo_env b)]"

text \<open>A thread is created, placed on cpu 0 and scheduled there, then the tuner runs.\<close>

lemma demo_run_steps:
  "admissible (rusty_routines ref_api) (rusty_en ref_api) (demo_run b) (rusty_up b) \<and>
   ops_of (rusty_routines ref_api) rusty_op (demo_run b) (rusty_up b) = [Skip, Place 7 0, Elect 0, Skip]"
proof -
  let ?s = "rusty_up b" and ?e = "demo_env b"
  note up = rusty_up(2-5) [of b]
  have fresh: "k_state (kern ?s) q = IPANEMA_NOT_QUEUED" "k_meta (kern ?s) q = None"
    "k_queue (kern ?s) x = []" for q x using up(2) by (simp_all add: fresh_kernel_def)
  obtain cpu t1 where t1: "sched_new_prepare ref_api ?e 7 8 (Some 100) ?s = Inr (cpu, t1)" "rusty_inv t1"
    "kern t1 = (kern ?s)\<lparr>k_meta := (k_meta (kern ?s))(7 \<mapsto> 100)\<rparr>"
    using rusty_new_prepare [OF up(1) demo_env_ok [of b], where p = 7 and flags = 8 and al = "Some 100" and n = 3]
      rusty_up_prepare [of b]
    by (auto simp: rusty_en_def)
  have att: "attached (kern t1) 7" using t1(3) fresh by (simp add: attached_def)
  obtain t2 where t2: "sched_new_place ref_api 7 t1 = Inr t2" "rusty_inv t2"
    using ref.rusty_place(1) [OF t1(2) att] by blast
  obtain t3 where t3: "sched_schedule ref_api 0 t2 = Inr t3" "rusty_inv t3"
    using ref.rusty_schedule [OF t2(2)] by blast
  obtain t4 where t4: "tuner_step ?e t3 = Inr t4" using rusty_tuner [OF t3(2) demo_platform(1) [of b]] by auto
  have "k_cpu (kern t1) 7 = 0" using t1(3) up(4) by simp
  then show ?thesis
    using t1 att t2 t3 t4 rusty_up_prepare [of b] demo_platform [of b] fresh
    by (simp add: demo_run_def rusty_en_def)
qed

theorem rusty_run_is_fifo_witness:
  "\<exists>t. run (rusty_routines ref_api) (demo_run True) (rusty_up True) = Inr t \<and>
    k_current (kern t) 0 = Some 7 \<and> k_queue (kern t) (LocalRq 0) = []"
proof -
  obtain t where t: "run (rusty_routines ref_api) (demo_run True) (rusty_up True) = Inr t"
    "abs_fifo (kern t) = fold a_step [Skip, Place 7 0, Elect 0, Skip] (abs_fifo (kern (rusty_up True)))"
    using rusty_run_is_fifo [OF ref.saakm_framework_axioms demo_domains _ demo_unloaded rusty_up(1),
        of True "demo_run True"] demo_run_steps [of True] by auto
  have "k_queue (kern (rusty_up True)) x = []" for x
    using rusty_up(3) [of True] by (simp add: fresh_kernel_def)
  with t show ?thesis by (simp add: abs_fifo_def fun_eq_iff)
qed

section \<open>Idle cpus\<close>

text \<open>C3 The retry loop of \<open>pick_idle_cpu\<close> (rusty_saakm.c) terminates: it returns -EBUSY or a
  cpu of the given mask that was idle and is claimed, that is idle no more, and beyond
  that it only removes cpus from the idle masks.\<close>

theorem rusty_pick_idle_cpu_terminates:
  assumes "distribute_ok api env"
  shows "\<exists>cpu t. pick_idle_cpu api env m flags s = Some (cpu, t) \<and>
    (cpu = - EBUSY \<or> (\<exists>c. cpu = int c \<and> c |\<in>| m \<and> c < nr_cpu_ids api \<and> c |\<in>| r_idle_cpu s \<and>
       c |\<notin>| r_idle_cpu t)) \<and>
    r_idle_cpu t |\<subseteq>| r_idle_cpu s \<and> r_idle_smt t |\<subseteq>| r_idle_smt s \<and>
    kern t = kern s \<and> heap t = heap s \<and> cores t = cores s"
  using pick_idle_cpu_returns [OF assms, of m flags s] unfolding idle_frame_def by blast

theorem rusty_pick_idle_cpu_terminates_witness:
  "\<exists>cpu t. pick_idle_cpu ref_api (demo_env True) {|2, 3|} 0
      (rusty_demo\<lparr>r_idle_smt := {|2, 3|}, r_idle_cpu := {|3|}\<rparr>) = Some (cpu, t) \<and>
    (cpu = -16 \<or> cpu = 3)"
proof -
  let ?s = "rusty_demo\<lparr>r_idle_smt := {|2, 3|}, r_idle_cpu := {|3|}\<rparr>"
  obtain cpu t where "pick_idle_cpu ref_api (demo_env True) {|2, 3|} 0 ?s = Some (cpu, t)"
    "cpu = - EBUSY \<or> (\<exists>c. cpu = int c \<and> c |\<in>| {|2, 3|} \<and> c < nr_cpu_ids ref_api \<and>
       c |\<in>| r_idle_cpu ?s \<and> c |\<notin>| r_idle_cpu t)"
    using rusty_pick_idle_cpu_terminates [OF demo_distribute, of True "{|2, 3|}" 0 ?s] by blast
  then show ?thesis by (auto simp: EBUSY_def)
qed

fun smt_event :: "rusty_event \<Rightarrow> bool" where
  "smt_event (Event env e) = smt_active env"
| "smt_event (TunerStep env) = True"

lemma place_idle_cpu:
  "sched_new_place api p s = Inr t \<Longrightarrow> r_idle_cpu t = r_idle_cpu s"
  "sched_unblock_place api p s = Inr t \<Longrightarrow> r_idle_cpu t = r_idle_cpu s"
  "sched_yield api p s = Inr t \<Longrightarrow> r_idle_cpu t = r_idle_cpu s"
  "rusty_sched_tick api env p now s = Inr t \<Longrightarrow> r_idle_cpu t = r_idle_cpu s"
proof -
  have fails: "policy_metadata p s = Inl e \<Longrightarrow> rusty_sched_tick api env p now s = Inl e \<and>
      sched_new_place api p s = Inl e \<and> sched_unblock_place api p s = Inl e \<and> sched_yield api p s = Inl e"
    for e by (simp add: rusty_sched_tick_def sched_new_place_def sched_unblock_place_def sched_yield_def)
  have ok: "heap s a = Some rp" if "policy_metadata p s = Inr (a, rp)" for a rp
    using that by (simp add: policy_metadata_Inr)
  show "sched_new_place api p s = Inr t \<Longrightarrow> r_idle_cpu t = r_idle_cpu s"
    using fails ok by (cases "policy_metadata p s")
      (auto simp: sched_new_place_def rusty_enqueue_task_def sys_defs Let_def)
  show "sched_unblock_place api p s = Inr t \<Longrightarrow> r_idle_cpu t = r_idle_cpu s"
    using fails ok by (cases "policy_metadata p s")
      (auto simp: sched_unblock_place_def rusty_enqueue_task_def sys_defs Let_def)
  show "sched_yield api p s = Inr t \<Longrightarrow> r_idle_cpu t = r_idle_cpu s"
    using fails ok by (cases "policy_metadata p s")
      (auto simp: sched_yield_def rusty_enqueue_task_def sys_defs Let_def)
  show "rusty_sched_tick api env p now s = Inr t \<Longrightarrow> r_idle_cpu t = r_idle_cpu s"
    using fails ok by (cases "policy_metadata p s")
      (auto simp: rusty_sched_tick_def rusty_enqueue_task_def sys_defs Let_def split: if_splits)
qed

lemma leave_idle_cpu:
  "sched_block api p s = Inr t \<Longrightarrow> r_idle_cpu t = r_idle_cpu s"
  "sched_terminate api p s = Inr t \<Longrightarrow> r_idle_cpu t = r_idle_cpu s"
  by (cases "policy_metadata p s"; auto simp: sched_block_def sched_terminate_def sys_defs Let_def)+

lemma schedule_idle_cpu: "sched_schedule api c s = Inr t \<Longrightarrow> r_idle_cpu t = r_idle_cpu s"
  by (auto simp: sched_schedule_def res_bind_eq_Inr sys_defs Let_def split: option.splits)

lemma smt_core_idle_cpu:
  assumes "smt_active env"
  shows "sched_core_entry env c s = Inr t \<Longrightarrow> r_idle_cpu t = r_idle_cpu s"
    and "sched_core_exit api env c s = Inr t \<Longrightarrow> r_idle_cpu t = r_idle_cpu s"
    and "r_idle_cpu (sched_enter_idle env c s) = r_idle_cpu s"
    and "r_idle_cpu (sched_exit_idle env c s) = r_idle_cpu s"
  using assms by (auto simp: sched_core_entry_def sched_core_exit_def sched_enter_idle_def
      sched_exit_idle_def clear_idle_cpu_def upd_core_def Let_def split: option.splits if_splits)

lemma smt_step_shrinks:
  assumes inv: "rusty_inv s" and en: "rusty_protocol api e s" and smt: "smt_event e"
    and t: "rusty_routines api e s = Inr t"
  shows "r_idle_cpu t |\<subseteq>| r_idle_cpu s"
proof (cases e)
  case (TunerStep env)
  from TunerStep t have "kzalloc_ok env" by (auto simp: tuner_step_def split: if_splits)
  moreover have "masks_ready s" using inv by (simp add: rusty_inv_def rusty_loaded_def)
  ultimately show ?thesis using tuner_step_effect [of env s] TunerStep en t
    by (fastforce simp: platform_ok_def masks_ready_def tuner_frame_def)
next
  case (Event env ev)
  with en smt have env: "platform_ok api env" "smt_active env" and pr: "protocol ev s"
    by (cases ev; simp)+
  show ?thesis
  proof (cases ev)
    case (NewPrepare p flags al n)
    have "al \<noteq> None \<Longrightarrow> env_ok api env"
    proof -
      assume "al \<noteq> None"
      then obtain a where "al = Some a" by blast
      with rusty_new_prepare_fault [OF inv, of p flags a n api env] pr t Event NewPrepare env(1)
      show "env_ok api env" by (cases "prepare_fault api env") (auto simp: env_ok_prepare)
    qed
    with rusty_new_prepare [OF inv, of al api env p flags n] pr Event NewPrepare t show ?thesis by auto
  next
    case (UnblockPrepare p flags n)
    with en Event have "attached (kern s) p" by simp
    then obtain a rp where "k_meta (kern s) p = Some a" "heap s a = Some rp"
      using rusty_object [OF inv] by blast
    from rusty_unblock_prepare [OF inv env(1) this] UnblockPrepare Event t show ?thesis
      by (auto split: if_splits)
  qed (use Event t env(2) in \<open>auto simp: smt_core_idle_cpu sched_newly_idle_def
      sched_balancing_select_def sched_new_end_def sched_unblock_end_def set_task_cpu_def
      dest: place_idle_cpu leave_idle_cpu schedule_idle_cpu
        smt_core_idle_cpu(1,2)\<close>)
qed

text \<open>C29 rusty_saakm.c while the machine runs with SMT: no event and no tuner step ever puts a
  cpu back into the mask of idle cpus, whatever allocations fail, so a cpu that is not in it is never picked again,
  however often it goes idle.\<close>

theorem rusty_smt_cpu_mask_drains:
  assumes fw: "saakm_framework api" and inv: "rusty_inv s"
    and reach: "reachable (rusty_routines api) (\<lambda>e s. rusty_protocol api e s \<and> smt_event e) s t"
    and out: "c |\<notin>| r_idle_cpu s" and env: "distribute_ok api env"
  shows "c |\<notin>| r_idle_cpu t \<and> pick_idle_cpu api env m flags t \<noteq> Some (int c, u)"
proof -
  from reach have "rusty_inv t \<and> r_idle_cpu t |\<subseteq>| r_idle_cpu s"
  proof (induction rule: reachable.induct)
    case start
    then show ?case using inv by simp
  next
    case (step t e u)
    then have t: "rusty_inv t" "rusty_protocol api e t" "smt_event e" "rusty_routines api e t = Inr u" by simp_all
    from saakm_framework.rusty_returns_inv [OF fw t(1,2,4)] have "rusty_inv u" .
    with smt_step_shrinks [OF t] step show ?case by auto
  qed
  with out have "c |\<notin>| r_idle_cpu t" by auto
  then show ?thesis using pick_idle_cpu_returns [OF env, of m flags t] by (auto simp: EBUSY_def)
qed

text \<open>Cpu 2 has been claimed, then goes idle, and is not found.\<close>

theorem rusty_smt_cpu_mask_drains_witness:
  "\<nexists>u. pick_idle_cpu ref_api (demo_env True) {|2|} 0
      (sched_enter_idle (demo_env True) 2 ((rusty_up True)\<lparr>r_idle_cpu := {|0, 3|}\<rparr>)) = Some (2, u)"
proof -
  let ?s = "(rusty_up True)\<lparr>r_idle_cpu := {|0, 3|}\<rparr>"
  have inv: "rusty_inv ?s" by (rule rusty_inv_masks [OF rusty_up(2) [of True]])
    (use rusty_up(2) [of True] in \<open>simp_all add: rusty_inv_def\<close>)
  have "reachable (rusty_routines ref_api) (\<lambda>e s. rusty_protocol ref_api e s \<and> smt_event e) ?s
      (sched_enter_idle (demo_env True) 2 ?s)"
    by (rule reachable.step [OF reachable.start, of _ "Event (demo_env True) (EnterIdle 2)"])
      (simp_all add: demo_platform)
  from rusty_smt_cpu_mask_drains [OF ref.saakm_framework_axioms inv this _ demo_distribute [of True],
      where c = 2 and m = "{|2|}" and flags = 0]
  show ?thesis by simp
qed

section \<open>The cpu a thread is given\<close>

text \<open>C28 \<open>rusty_select_cpu\<close> (rusty_saakm.c), with memory for the tuner's mask, always returns, or the thread
  may run on every cpu and its small mask is not allocated (a null pointer is dereferenced) or too small (the
  search writes outside it). The result is the cpu the thread was
  on, a cpu of the mask of its domain, the waking cpu for a synchronous wakeup of a thread
  allowed there, or -EBUSY, and that only when the thread's previous cpu is foreign and no
  cpu of its mask exists. The part that looks for idle cpus in other domains finds none.\<close>

theorem rusty_select_cpu_range:
  assumes "platform_ok api env" and "kzalloc_ok env" and "rusty_loaded s" and "heap s a = Some rp"
  shows "(\<exists>cpu t. rusty_select_cpu api env a p prev flags s = Inr (cpu, t) \<and> kern t = kern s \<and>
      (cpu = int prev \<or> (\<exists>c. cpu = int c \<and> c |\<in>| rp_cpumask rp) \<or>
       (flags AND WF_SYNC api \<noteq> 0 \<and> cpu = int (smp_processor_id env) \<and>
          smp_processor_id env |\<in>| cpus_ptr env p) \<or>
       (cpu = - EBUSY \<and> prev |\<notin>| rp_cpumask rp \<and>
          (rp_cpumask rp = {||} \<or> (\<exists>c. c |\<in>| rp_cpumask rp \<and> nr_cpu_ids api \<le> c))))) \<or>
    rp_all_cpus rp \<and> (\<not> kzalloc_small_ok env \<or> \<not> mask_fits api) \<and>
      rusty_select_cpu api env a p prev flags s = Inl (if kzalloc_small_ok env then OutOfBounds else NullDeref)"
proof -
  from rusty_select_cpu_outcome [OF assms, of p prev flags]
  consider cpu t where "rusty_select_cpu api env a p prev flags s = Inr (cpu, t)" "sel_frame a s t"
      "select_range api env p (rp_cpumask rp) prev flags cpu \<or> cpu = - EBUSY \<and>
        prev |\<notin>| rp_cpumask rp \<and>
        ((\<forall>c. c |\<in>| rp_cpumask rp \<longrightarrow> c < nr_cpu_ids api) \<longrightarrow> rp_cpumask rp = {||})"
    | f where "f \<in> greedy_faults api env rp" "rusty_select_cpu api env a p prev flags s = Inl f"
    by blast
  then show ?thesis
  proof cases
    case (1 cpu t)
    from 1(2) have "kern t = kern s" by (simp add: sel_frame_def)
    with 1(1,3) show ?thesis unfolding select_range_def by (metis not_less)
  qed (auto simp: greedy_faults_def split: if_splits)
qed

theorem rusty_select_cpu_range_witness:
  "\<exists>cpu t. rusty_select_cpu ref_api (demo_env True) 100 7 2 0
      (put_proc 100 (new_process 7) (rusty_up True)) = Inr (cpu, t) \<and> (cpu = 2 \<or> cpu = -16)"
proof -
  have "rusty_loaded (put_proc 100 (new_process 7) (rusty_up True))"
    using rusty_up(2) [of True] by (simp add: rusty_inv_def)
  from rusty_select_cpu_range [OF demo_platform(1) _ this, of True 100 "new_process 7" 7 2 0]
  show ?thesis by (auto simp: put_proc_def new_process_def EBUSY_def)
qed

text \<open>C8 \<open>task_pick_domain\<close> (rusty_saakm.c): the loop visits every domain once, starting after the
  round-robin counter of the executing cpu. \<open>dom_mask\<close> ends up with exactly the domains that
  share a cpu with the thread's affinity; \<open>dom_id\<close> is the first of them and \<open>cpumask\<close> the
  allowed cpus of the last one, so with two or more disjoint domains \<open>cpumask\<close> has no cpu of
  the domain \<open>dom_id\<close>.\<close>

theorem rusty_pick_domain_exact:
  assumes "rusty_loaded s"
  shows "\<exists>rp' t. task_pick_domain env p rp s = Inr (rp', t) \<and>
    set (visit (r_nr_doms s) (first_turn (r_nr_doms s) (rc_dom_rr_cur (cores s (smp_processor_id env)))))
      = {..<r_nr_doms s} \<and>
    (\<forall>d. bit (rp_dom_mask rp') d \<longleftrightarrow>
       d < r_nr_doms s \<and> cpumask_intersects (cpus_ptr env p) (dom_mask_of s d)) \<and>
    (case pick_hits env p s of
       [] \<Rightarrow> rp_cpumask rp' = rp_cpumask rp \<and> rp_dom_id rp' = rp_dom_id rp
     | h # hs \<Rightarrow> rp_dom_id rp' = int h \<and>
         rp_cpumask rp' = dom_mask_of s (last (h # hs)) |\<inter>| cpus_ptr env p \<and>
         (hs \<noteq> [] \<and> dom_mask_of s h |\<inter>| dom_mask_of s (last (h # hs)) = {||} \<longrightarrow>
            rp_cpumask rp' |\<inter>| dom_mask_of s h = {||})) \<and>
    rc_dom_rr_cur (cores t (smp_processor_id env)) = rc_dom_rr_cur (cores s (smp_processor_id env)) + 1"
proof -
  let ?hs = "pick_hits env p s"
  let ?rp = "pick_domain_spec (cpus_ptr env p) s (-1) (rp\<lparr>rp_dom_mask := 0\<rparr>) ?hs"
  have n: "0 < r_nr_doms s" "r_nr_doms s \<le> 64"
    using loaded_nonempty [OF assms] assms by (simp_all add: rusty_loaded_def MAX_DOMS_def)
  have set: "set ?hs = {d. d < r_nr_doms s \<and> cpumask_intersects (cpus_ptr env p) (dom_mask_of s d)}"
    by (auto simp: pick_hits_def hits_def visit_set [OF n(1)])
  have lt: "d < 64" if "d \<in> set ?hs" for d
  proof -
    from that have "d < r_nr_doms s" unfolding set by simp
    with n(2) show ?thesis by linarith
  qed
  have "bit (rp_dom_mask ?rp) d \<longleftrightarrow> d \<in> set ?hs" for d
  proof (cases "?hs = []")
    case True
    then show ?thesis by (simp add: pick_domain_spec_def)
  next
    case False
    from pick_domain_spec_mask [OF this] lt show ?thesis by blast
  qed
  then have "bit (rp_dom_mask ?rp) d \<longleftrightarrow>
      d < r_nr_doms s \<and> cpumask_intersects (cpus_ptr env p) (dom_mask_of s d)" for d
    by (simp add: set)
  moreover have "case ?hs of
       [] \<Rightarrow> rp_cpumask ?rp = rp_cpumask rp \<and> rp_dom_id ?rp = rp_dom_id rp
     | h # hs \<Rightarrow> rp_dom_id ?rp = int h \<and>
         rp_cpumask ?rp = dom_mask_of s (last (h # hs)) |\<inter>| cpus_ptr env p \<and>
         (hs \<noteq> [] \<and> dom_mask_of s h |\<inter>| dom_mask_of s (last (h # hs)) = {||} \<longrightarrow>
            rp_cpumask ?rp |\<inter>| dom_mask_of s h = {||})"
  proof (cases ?hs)
    case Nil
    then show ?thesis by (simp add: pick_domain_spec_def)
  next
    case (Cons h hs)
    then have "rp_dom_id ?rp = int h" "rp_cpumask ?rp = dom_mask_of s (last (h # hs)) |\<inter>| cpus_ptr env p"
      by (simp_all add: pick_domain_spec_def)
    with Cons show ?thesis by (simp only: list.case) blast
  qed
  ultimately show ?thesis
    by (intro exI conjI) (rule task_pick_domain_spec [OF assms], rule visit_set [OF n(1)],
        simp_all only: simp_thms, simp add: upd_core_def)
qed

text \<open>Cpu 0 starts its visit with the second domain: \<open>dom_id\<close> is 1, \<open>cpumask\<close> is the first domain.\<close>

definition two_doms :: rusty_sys where
  "two_doms = rusty_demo\<lparr>r_direct_greedy := Some {||}, r_kick_greedy := Some {||},
     r_all_cpumask := Some {|0, 2, 3|}, r_nr_doms := 2,
     r_dom_data := (\<lambda>d. if d = 0 then Some \<lparr>dom_ctx_id = 0,
         dom_topology = \<lparr>topo_cores = {|0, 2|}, domain_numa = False\<rparr>\<rparr>
       else Some \<lparr>dom_ctx_id = 1, dom_topology = \<lparr>topo_cores = {|3|}, domain_numa = False\<rparr>\<rparr>)\<rparr>"

lemma two_doms_loaded: "rusty_loaded two_doms"
  by (simp add: rusty_loaded_def masks_ready_def two_doms_def rusty_demo_def MAX_DOMS_def)

theorem rusty_pick_domain_exact_witness:
  "\<exists>rp' t. task_pick_domain (demo_env False) 7 (new_process 7) two_doms = Inr (rp', t) \<and>
     rp_dom_id rp' = 1 \<and> rp_cpumask rp' = {|0, 2|}"
proof -
  have "pick_hits (demo_env False) 7 two_doms = [1, 0]"
    by (simp add: pick_hits_def hits_def visit_def first_turn_def dom_mask_of_def two_doms_def
        rusty_demo_def upt_rec)
  with rusty_pick_domain_exact [OF two_doms_loaded, of "demo_env False" 7 "new_process 7"]
  show ?thesis by (auto simp: dom_mask_of_def two_doms_def)
qed

section \<open>The tuner\<close>

text \<open>\<open>tuner_step\<close> (rusty_saakm.c) on a complete topology: whatever the load, both greedy masks
  gain every possible cpu, so they do not single out domains that are little used; the
  threads, the objects and the idle masks are untouched, and every step loses one
  allocation.\<close>

theorem rusty_tuner_marks_all:
  assumes "topology_ok env" and "kzalloc_ok env"
    and "r_direct_greedy s = Some dg" and "r_kick_greedy s = Some kg"
  shows "\<exists>t. tuner_step env s = Inr t \<and>
    r_direct_greedy t = Some (dg |\<union>| fset_of_list (possible_cpus env)) \<and>
    r_kick_greedy t = Some (kg |\<union>| fset_of_list (possible_cpus env)) \<and>
    r_leaked t = r_leaked s + 1 \<and> kern t = kern s \<and> heap t = heap s \<and>
    r_idle_cpu t = r_idle_cpu s \<and> r_idle_smt t = r_idle_smt s"
proof -
  have "\<forall>c \<in> set (possible_cpus env). topology_levels env c \<noteq> None"
    using topology_okD [OF assms(1)] by auto
  moreover have "visited env (possible_cpus env) {||} = fset_of_list (possible_cpus env)"
    using visited_possible_cpus [OF assms(1)] by (metis fset_inject fset_of_list.rep_eq)
  ultimately show ?thesis
    using tuner_step_effect [OF assms(2) _ assms(3,4)] by (auto simp: tuner_frame_def)
qed

theorem rusty_tuner_marks_all_witness:
  "\<exists>t. tuner_step (demo_env False) (rusty_demo\<lparr>r_direct_greedy := Some {||}, r_kick_greedy := Some {|5|}\<rparr>)
      = Inr t \<and> r_direct_greedy t = Some {|0, 2, 3|} \<and> r_kick_greedy t = Some {|0, 2, 3, 5|} \<and>
    r_leaked t = 1"
proof -
  let ?s = "rusty_demo\<lparr>r_direct_greedy := Some {||}, r_kick_greedy := Some {|5|}\<rparr>"
  have "{|5|} |\<union>| {|0, 2, 3|} = {|0, 2, 3, 5 :: nat|}" by auto
  moreover have "r_leaked ?s = 0" by (simp add: rusty_demo_def)
  ultimately show ?thesis
    using rusty_tuner_marks_all [OF demo_topology, of False ?s "{||}" "{|5|}"] by auto
qed

section \<open>The tick\<close>

lemma scast_slice:
  fixes w :: "32 word"
  assumes "unat w < 2 ^ 31"
  shows "unat (scast w :: u64) = unat w"
proof -
  have "int (unat w) < int (2 ^ 31)" using assms by (simp only: of_nat_less_iff)
  then have "int (unat w) < 2 ^ 31" by simp
  then have "uint w < 2 ^ 31" by (simp only: uint_nat)
  then have "sint w = int (unat w)" by (simp only: sint_small uint_nat)
  then have "(scast w :: u64) = of_nat (unat w)" by (simp add: scast_eq)
  then show ?thesis using assms
    by (simp add: unsigned_of_nat unsigned_ucast_eq take_bit_nat_eq_self)
qed

lemma slice_left_exact:
  assumes "unat slc < 2 ^ 31"
  shows "unat (slice_left slc d) = unat slc - unat d"
proof -
  note s = scast_slice [OF assms]
  show ?thesis
  proof (cases "(scast slc :: u64) < d")
    case True
    then have "unat slc < unat d" using s by (simp add: word_less_nat_alt)
    with True show ?thesis by (simp add: slice_left_def)
  next
    case False
    then have le: "unat (scast slc - d) = unat slc - unat d"
      using s by (simp add: unat_sub word_le_nat_alt not_less)
    have "unat slc - unat d < 2 ^ 32" using assms by simp
    with False le show ?thesis
      by (simp add: slice_left_def unsigned_ucast_eq take_bit_nat_eq_self)
  qed
qed

text \<open>C35 \<open>rusty_sched_tick\<close> (rusty_saakm.c): with a slice that is not negative and a start time that is
  not in the future, the slice shrinks by exactly the time since the start, never below 0,
  despite the mixed 32 and 64 bit arithmetic; the thread goes back to the tail of its core's
  queue exactly when the time reaches the slice, and otherwise the framework is not called.\<close>

theorem rusty_tick_exact:
  assumes fw: "saakm_framework api" and md: "policy_metadata p s = Inr (a, rp)" "rp_task rp = p"
    and pos: "unat (rp_slice rp) < 2 ^ 31" and past: "exec_start env p \<le> now"
  shows "\<exists>t rp'. rusty_sched_tick api env p now s = Inr t \<and> heap t a = Some rp' \<and>
    unat (rp_slice rp') = unat (rp_slice rp) - (unat now - unat (exec_start env p)) \<and>
    kern t = (if unat (rp_slice rp) \<le> unat now - unat (exec_start env p)
      then change_state api p IPANEMA_READY_TICK (k_cpu (kern s) p)
             (Some (LocalRq (k_cpu (kern s) p))) (kern s)
      else kern s)"
proof -
  let ?d = "now - exec_start env p"
  have d: "unat ?d = unat now - unat (exec_start env p)" using past by (simp add: unat_sub)
  have zero: "slice_left (rp_slice rp) ?d = 0 \<longleftrightarrow> unat (rp_slice rp) \<le> unat now - unat (exec_start env p)"
    using slice_left_exact [OF pos, of ?d] by (simp add: d unat_eq_zero [symmetric] del: unat_eq_zero)
  show ?thesis
    using md slice_left_exact [OF pos, of ?d] zero
    by (cases "slice_left (rp_slice rp) ?d = 0")
      (simp_all add: rusty_sched_tick_def rusty_enqueue_task_def sys_defs Let_def d)
qed

theorem rusty_tick_exact_witness:
  "\<exists>t. rusty_sched_tick ref_api (demo_env False) 7 20000001
      (set_metadata 7 100 (put_proc 100 ((new_process 7)\<lparr>rp_slice := 20000000\<rparr>) rusty_demo)) = Inr t \<and>
    k_queue (kern t) (LocalRq 0) = [7]"
proof -
  let ?s = "set_metadata 7 100 (put_proc 100 ((new_process 7)\<lparr>rp_slice := 20000000\<rparr>) rusty_demo)"
  have "policy_metadata 7 ?s = Inr (100, (new_process 7)\<lparr>rp_slice := 20000000\<rparr>)"
    by (simp add: policy_metadata_def sys_defs)
  from rusty_tick_exact [OF ref.saakm_framework_axioms this, of "demo_env False" 20000001]
  obtain t where "rusty_sched_tick ref_api (demo_env False) 7 20000001 ?s = Inr t"
    "kern t = ref_change_state 7 IPANEMA_READY_TICK 0 (Some (LocalRq 0)) (kern ?s)"
    by (auto simp: new_process_def rusty_demo_def idle_kernel_def sys_defs)
  then show ?thesis
    by (simp add: ref_change_state_def rusty_demo_def idle_kernel_def sys_defs)
qed

section \<open>Loading\<close>

text \<open>C12 \<open>init_sched\<close> (rusty_saakm.c) on a complete topology of at most 64 domains: the cpus are
  partitioned, every possible cpu gets the number of the one domain whose cores contain it,
  and two cpus share a number exactly when they share a topology level; the result is the
  framework's, and when it refuses the policy the tuner thread is left running while the
  policy object is freed.\<close>

theorem rusty_init_partitions:
  assumes fw: "saakm_framework api" and ok: "domains_ok env" "kzalloc_ok env"
    and un: "rusty_unloaded s"
  shows "\<exists>t m'. init_sched api env res s m = Inr (res, t, m') \<and>
    (\<forall>c d. c \<in> set (possible_cpus env) \<and> d \<in> set (possible_cpus env) \<longrightarrow>
       unat (rc_dom_id (cores t c)) < r_nr_doms t \<and>
       c |\<in>| dom_mask_of t (unat (rc_dom_id (cores t c))) \<and>
       (rc_dom_id (cores t c) = rc_dom_id (cores t d) \<longleftrightarrow>
          topology_levels env c = topology_levels env d)) \<and>
    r_nr_doms t \<le> 64 \<and> tuner_running m' \<and> policy_allocated m' = (res = 0)"
proof -
  let ?P = "fset_of_list (possible_cpus env)"
  obtain t where t: "init_sched api env res s m = Inr (res, t,
      m\<lparr>tuner_running := True, policy_allocated := (res = 0), policy_registered := (res = 0)\<rparr>)"
    "rusty_inv t" "doms_done env ?P t"
    using saakm_framework.init_sched_effect [OF fw ok un, of res m] by blast
  have dom: "unat (rc_dom_id (cores t c)) < r_nr_doms t \<and>
      (\<exists>x. r_dom_data t (unat (rc_dom_id (cores t c))) = Some x \<and>
           topology_levels env c = Some (dom_topology x))" if "c \<in> set (possible_cpus env)" for c
  proof -
    have "c |\<in>| ?P" using that by (simp add: fset_of_list.rep_eq)
    with t(3) show ?thesis unfolding doms_done_def by blast
  qed
  have mask: "c |\<in>| dom_mask_of t (unat (rc_dom_id (cores t c)))" if c: "c \<in> set (possible_cpus env)" for c
    using dom [OF c] domains_okD [OF ok(1) c] by (auto simp: dom_mask_of_def)
  have same: "rc_dom_id (cores t c) = rc_dom_id (cores t d) \<longleftrightarrow>
      topology_levels env c = topology_levels env d"
    if c: "c \<in> set (possible_cpus env)" and d: "d \<in> set (possible_cpus env)" for c d
    using dom [OF c] dom [OF d] doms_done_same [OF t(3), of c d] c d
    by (auto simp: fset_of_list.rep_eq)
  have "r_nr_doms t \<le> 64" using t(2) by (simp add: rusty_inv_def rusty_loaded_def MAX_DOMS_def)
  with t(1) dom mask same show ?thesis by (intro exI conjI allI impI) auto
qed

theorem rusty_init_partitions_witness:
  "\<exists>t m'. init_sched ref_api (demo_env True) (-17) rusty_demo rusty_off = Inr (-17, t, m') \<and>
     rc_dom_id (cores t 0) = rc_dom_id (cores t 2) \<and> rc_dom_id (cores t 0) \<noteq> rc_dom_id (cores t 3) \<and>
     tuner_running m' \<and> \<not> policy_allocated m'"
proof -
  obtain t m' where i: "init_sched ref_api (demo_env True) (-17) rusty_demo rusty_off = Inr (-17, t, m')"
    "tuner_running m'" "\<not> policy_allocated m'"
    and p: "\<And>c d. c \<in> {0, 2, 3} \<Longrightarrow> d \<in> {0, 2, 3} \<Longrightarrow>
      rc_dom_id (cores t c) = rc_dom_id (cores t d) \<longleftrightarrow> demo_level c = demo_level d"
    using rusty_init_partitions [OF ref.saakm_framework_axioms demo_domains _ demo_unloaded,
        of True "-17" rusty_off] by auto
  have "{|0, 2|} \<noteq> {|3 :: nat|}" by auto
  then have "demo_level 0 = demo_level 2" "demo_level 0 \<noteq> demo_level 3" by (auto simp: demo_level_def)
  with i p [of 0 2] p [of 0 3] show ?thesis by simp
qed

end
