(* ===== verification/Scx.thy ===== *)
theory Scx
  imports Prelude
begin

text \<open>
  The sched_ext side of the repository: scx_scheds/fifo/scx_simple.bpf.c, its copy
  modules/rusty_saakm/scx_simple.bpf.c, and the loader scx_scheds/fifo/scx_simple.c. The
  kernel's dispatch queues are a parameter: the record \<open>scx_api\<close> holds the calls the BPF
  programs make, the locale \<open>scx_framework\<close> what is documented of them.
\<close>

unbundle bit_operations_syntax

section \<open>What the programs call\<close>

type_synonym stask = nat
type_synonym scpu = nat

text \<open>A dispatch queue: the local one of the task's cpu, or a numbered one.\<close>

datatype dsq = SCX_DSQ_LOCAL | Dsq u64

record 'd scx_api =
  scx_bpf_dsq_insert :: "stask \<Rightarrow> dsq \<Rightarrow> u64 \<Rightarrow> u64 \<Rightarrow> 'd \<Rightarrow> 'd"
  scx_bpf_dsq_insert_vtime :: "stask \<Rightarrow> dsq \<Rightarrow> u64 \<Rightarrow> u64 \<Rightarrow> u64 \<Rightarrow> 'd \<Rightarrow> 'd"
  scx_bpf_create_dsq :: "dsq \<Rightarrow> int \<Rightarrow> 'd \<Rightarrow> int \<times> 'd"
  time_before :: "u64 \<Rightarrow> u64 \<Rightarrow> bool"
  SCX_SLICE_DFL :: u64
  SCX_ENQ_HEAD :: u64

section \<open>State\<close>

definition SHARED_DSQ :: dsq where
  "SHARED_DSQ = Dsq 0"

text \<open>The fields of \<open>task_struct\<close> the programs use.\<close>

record scx_task =
  t_pid :: u32
  dsq_vtime :: u64
  t_slice :: u64
  t_weight :: u32

text \<open>
  \<open>stats\<close> is a per-cpu array with two counters; \<open>uei\<close> records why the scheduler exited;
  \<open>dsqs\<close> is the state of the kernel's dispatch queues.
\<close>

record 'd scx_sys =
  tasks :: "stask \<Rightarrow> scx_task"
  fifo_sched :: bool
  vtime_now :: u64
  scx_stats :: "scpu \<Rightarrow> u32 \<Rightarrow> u64"
  uei :: "int option"
  dsqs :: 'd

section \<open>The callbacks\<close>

text \<open>\<open>bpf_map_lookup_elem\<close> returns null for an index past \<open>max_entries\<close>.\<close>

definition stat_inc :: "scpu \<Rightarrow> u32 \<Rightarrow> 'd scx_sys \<Rightarrow> 'd scx_sys" where
  "stat_inc cpu idx s =
     (if idx < 2
      then s\<lparr>scx_stats := (scx_stats s)(cpu := (scx_stats s cpu)(idx := scx_stats s cpu idx + 1))\<rparr>
      else s)"

definition simple_select_cpu :: "stask \<Rightarrow> int \<Rightarrow> u64 \<Rightarrow> 'd scx_sys \<Rightarrow> int" where
  "simple_select_cpu p prev_cpu wake_flags s = sint (t_pid (tasks s p) mod 8)"

text \<open>The copy beside rusty_saakm.c differs in the number.\<close>

definition simple_select_cpu_20 :: "stask \<Rightarrow> int \<Rightarrow> u64 \<Rightarrow> 'd scx_sys \<Rightarrow> int" where
  "simple_select_cpu_20 p prev_cpu wake_flags s = sint (t_pid (tasks s p) mod 20)"

definition simple_enqueue ::
    "'d scx_api \<Rightarrow> scpu \<Rightarrow> stask \<Rightarrow> u64 \<Rightarrow> 'd scx_sys \<Rightarrow> 'd scx_sys" where
  "simple_enqueue api this_cpu p enq_flags s =
     (let s1 = stat_inc this_cpu 1 s
      in if fifo_sched s1 then
           s1\<lparr>dsqs := scx_bpf_dsq_insert api p SCX_DSQ_LOCAL (SCX_SLICE_DFL api) enq_flags (dsqs s1)\<rparr>
         else
           let vtime = dsq_vtime (tasks s1 p);
               vtime = (if time_before api vtime (vtime_now s1 - SCX_SLICE_DFL api)
                        then vtime_now s1 - SCX_SLICE_DFL api else vtime)
           in s1\<lparr>dsqs := scx_bpf_dsq_insert_vtime api p SHARED_DSQ (SCX_SLICE_DFL api) vtime enq_flags
                          (dsqs s1)\<rparr>)"

definition simple_running :: "'d scx_api \<Rightarrow> stask \<Rightarrow> 'd scx_sys \<Rightarrow> 'd scx_sys" where
  "simple_running api p s =
     (if fifo_sched s then s
      else if time_before api (vtime_now s) (dsq_vtime (tasks s p))
      then s\<lparr>vtime_now := dsq_vtime (tasks s p)\<rparr> else s)"

text \<open>\<open>weight\<close> is converted to \<open>u64\<close>; a BPF division by 0 gives 0, as it does on words.\<close>

definition vtime_charge :: "u64 \<Rightarrow> u64 \<Rightarrow> u32 \<Rightarrow> u64" where
  "vtime_charge slice_dfl slc w = (slice_dfl - slc) * 100 div ucast w"

definition upd_task :: "stask \<Rightarrow> (scx_task \<Rightarrow> scx_task) \<Rightarrow> 'd scx_sys \<Rightarrow> 'd scx_sys" where
  "upd_task p f s = s\<lparr>tasks := (tasks s)(p := f (tasks s p))\<rparr>"

definition simple_stopping :: "'d scx_api \<Rightarrow> stask \<Rightarrow> bool \<Rightarrow> 'd scx_sys \<Rightarrow> 'd scx_sys" where
  "simple_stopping api p runnable s =
     (if fifo_sched s then s
      else upd_task p (\<lambda>t. t\<lparr>dsq_vtime := dsq_vtime t +
             vtime_charge (SCX_SLICE_DFL api) (t_slice t) (t_weight t)\<rparr>) s)"

definition simple_enable :: "stask \<Rightarrow> 'd scx_sys \<Rightarrow> 'd scx_sys" where
  "simple_enable p s = upd_task p (\<lambda>t. t\<lparr>dsq_vtime := vtime_now s\<rparr>) s"

definition simple_init :: "'d scx_sys \<Rightarrow> int \<times> 'd scx_sys" where
  "simple_init s = (0, s)"

text \<open>The copy beside rusty_saakm.c creates the shared queue.\<close>

definition simple_init_dsq :: "'d scx_api \<Rightarrow> 'd scx_sys \<Rightarrow> int \<times> 'd scx_sys" where
  "simple_init_dsq api s =
     (let (r, d) = scx_bpf_create_dsq api SHARED_DSQ (-1) (dsqs s) in (r, s\<lparr>dsqs := d\<rparr>))"

definition simple_exit :: "int \<Rightarrow> 'd scx_sys \<Rightarrow> 'd scx_sys" where
  "simple_exit ei s = s\<lparr>uei := Some ei\<rparr>"

definition simple_update_idle :: "scpu \<Rightarrow> bool \<Rightarrow> 'd scx_sys \<Rightarrow> 'd scx_sys" where
  "simple_update_idle cpu idle s = s"

definition simple_dequeue :: "stask \<Rightarrow> u64 \<Rightarrow> 'd scx_sys \<Rightarrow> 'd scx_sys" where
  "simple_dequeue p deq_flags s = s"

definition simple_dispatch :: "scpu \<Rightarrow> stask \<Rightarrow> 'd scx_sys \<Rightarrow> 'd scx_sys" where
  "simple_dispatch cpu p s = s"

section \<open>The operations table\<close>

text \<open>
  The calls of the kernel while the scheduler is attached. \<open>Consume cpu\<close> is the kernel's
  own step between them: a core takes the head of its local queue.
\<close>

datatype scx_event =
    Enqueue scpu stask u64
  | Dequeue stask u64
  | Dispatch scpu stask
  | Running stask
  | Stopping stask bool
  | Enable stask
  | UpdateIdle scpu bool
  | Exit int
  | SetSlice stask u64
  | Consume scpu

fun simple_ops ::
    "'d scx_api \<Rightarrow> (scpu \<Rightarrow> 'd \<Rightarrow> 'd) \<Rightarrow> scx_event \<Rightarrow> 'd scx_sys \<Rightarrow> 'd scx_sys" where
  "simple_ops api consume (Enqueue cpu p fl) s = simple_enqueue api cpu p fl s"
| "simple_ops api consume (Dequeue p fl) s = simple_dequeue p fl s"
| "simple_ops api consume (Dispatch cpu p) s = simple_dispatch cpu p s"
| "simple_ops api consume (Running p) s = simple_running api p s"
| "simple_ops api consume (Stopping p r) s = simple_stopping api p r s"
| "simple_ops api consume (Enable p) s = simple_enable p s"
| "simple_ops api consume (UpdateIdle cpu i) s = simple_update_idle cpu i s"
| "simple_ops api consume (Exit ei) s = simple_exit ei s"
| "simple_ops api consume (SetSlice p sl) s = upd_task p (\<lambda>t. t\<lparr>t_slice := sl\<rparr>) s"
| "simple_ops api consume (Consume cpu) s = s\<lparr>dsqs := consume cpu (dsqs s)\<rparr>"

section \<open>The loader\<close>

text \<open>What the loader keeps of the skeleton: the read-only flag and the partial-switch flag.\<close>

record scx_skel =
  sk_fifo_sched :: bool
  sk_switch_partial :: bool

definition open_skel :: scx_skel where
  "open_skel = \<lparr>sk_fifo_sched = False, sk_switch_partial = False\<rparr>"

text \<open>
  \<open>getopt\<close> hands out the options of the command line one after the other and -1 from then
  on: \<open>opts\<close> are those not handed out yet. \<open>Inl r\<close>: the loader prints its help and returns
  \<open>r\<close>.
\<close>

fun parse_opts :: "char list \<Rightarrow> scx_skel \<times> bool \<Rightarrow> int + scx_skel \<times> bool" where
  "parse_opts [] (skel, verbose) = Inr (skel, verbose)"
| "parse_opts (opt # opts) (skel, verbose) =
     (if opt = CHR ''f'' then parse_opts opts (skel\<lparr>sk_fifo_sched := True\<rparr>, verbose)
      else if opt = CHR ''v'' then parse_opts opts (skel, True)
      else Inl (if opt \<noteq> CHR ''h'' then 1 else 0))"

text \<open>
  \<open>lookup_ok idx\<close>: the read of the counter \<open>idx\<close> of all cpus succeeded.
\<close>

definition read_stat :: "nat \<Rightarrow> (u32 \<Rightarrow> bool) \<Rightarrow> (scpu \<Rightarrow> u32 \<Rightarrow> u64) \<Rightarrow> u32 \<Rightarrow> u64" where
  "read_stat nr_cpus lookup_ok cnts idx =
     (if lookup_ok idx then fold (\<lambda>cpu acc. acc + cnts cpu idx) [0..<nr_cpus] 0 else 0)"

definition read_stats :: "nat \<Rightarrow> (u32 \<Rightarrow> bool) \<Rightarrow> (scpu \<Rightarrow> u32 \<Rightarrow> u64) \<Rightarrow> u64 \<times> u64" where
  "read_stats nr_cpus lookup_ok cnts =
     (read_stat nr_cpus lookup_ok cnts 0, read_stat nr_cpus lookup_ok cnts 1)"

text \<open>
  \<open>main\<close> over the times the scheduler gets attached: each entry of \<open>restarts\<close> says whether
  the scheduler's exit asks for a restart. The result is the skeletons that were attached,
  in order, and the return value.
\<close>

fun scx_main :: "char list \<Rightarrow> bool \<Rightarrow> bool list \<Rightarrow> scx_skel list \<times> int" where
  "scx_main opts verbose [] = ([], 0)"
| "scx_main opts verbose (restart # restarts) =
     (case parse_opts opts (open_skel, verbose) of
        Inl r \<Rightarrow> ([], r)
      | Inr (skel, verbose1) \<Rightarrow>
          let skel1 = skel\<lparr>sk_switch_partial := True\<rparr>
          in if restart then
               (let (skels, r) = scx_main [] verbose1 restarts in (skel1 # skels, r))
             else ([skel1], 0))"

end
