(* ===== verification/Scx_Correct.thy ===== *)
theory Scx_Correct
  imports Scx "HOL-Library.Multiset"
begin

text \<open>
  scx_simple.bpf.c and its loader: what the documented dispatch queues make of the
  callbacks. The interface is a locale; a concrete set of queues interprets it.
\<close>

section \<open>What a step does to the queues\<close>

text \<open>The virtual time a thread is queued with: at most one slice behind.\<close>

definition queue_vtime :: "'d scx_api \<Rightarrow> stask \<Rightarrow> 'd scx_sys \<Rightarrow> u64" where
  "queue_vtime api p s =
     (if time_before api (dsq_vtime (tasks s p)) (vtime_now s - SCX_SLICE_DFL api)
      then vtime_now s - SCX_SLICE_DFL api else dsq_vtime (tasks s p))"

fun step_dsqs :: "'d scx_api \<Rightarrow> (scpu \<Rightarrow> 'd \<Rightarrow> 'd) \<Rightarrow> scx_event \<Rightarrow> 'd scx_sys \<Rightarrow> 'd" where
  "step_dsqs api consume (Enqueue this p fl) s =
     (if fifo_sched s then scx_bpf_dsq_insert api p SCX_DSQ_LOCAL (SCX_SLICE_DFL api) fl (dsqs s)
      else scx_bpf_dsq_insert_vtime api p SHARED_DSQ (SCX_SLICE_DFL api) (queue_vtime api p s) fl (dsqs s))"
| "step_dsqs api consume (Consume c) s = consume c (dsqs s)"
| "step_dsqs api consume _ s = dsqs s"

lemma step_dsqs: "dsqs (simple_ops api consume e s) = step_dsqs api consume e s"
  by (cases e) (simp_all add: simple_enqueue_def queue_vtime_def simple_running_def
      simple_stopping_def simple_enable_def simple_exit_def simple_dequeue_def
      simple_dispatch_def simple_update_idle_def stat_inc_def upd_task_def Let_def)

lemma step_mode: "fifo_sched (simple_ops api consume e s) = fifo_sched s"
  by (cases e) (simp_all add: simple_enqueue_def simple_running_def simple_stopping_def
      simple_enable_def simple_exit_def simple_dequeue_def simple_dispatch_def
      simple_update_idle_def stat_inc_def upd_task_def Let_def)

section \<open>The dispatch queues\<close>

text \<open>
  A priority queue by virtual time: an entry goes behind all entries that it is not before.
\<close>

definition vinsert :: "'d scx_api \<Rightarrow> u64 \<Rightarrow> stask \<Rightarrow> (u64 \<times> stask) list \<Rightarrow> (u64 \<times> stask) list" where
  "vinsert api v p q =
     takeWhile (\<lambda>(w, _). \<not> time_before api v w) q @ (v, p) # dropWhile (\<lambda>(w, _). \<not> time_before api v w) q"

text \<open>The threads a run enqueues.\<close>

fun enqueued :: "scx_event list \<Rightarrow> stask list" where
  "enqueued [] = []"
| "enqueued (Enqueue this p fl # es) = p # enqueued es"
| "enqueued (_ # es) = enqueued es"

lemma mset_vinsert: "mset (map snd (vinsert api v p q)) = add_mset p (mset (map snd q))"
proof -
  let ?P = "\<lambda>(w, _ :: stask). \<not> time_before api v w"
  have "mset (map snd q) = mset (map snd (takeWhile ?P q)) + mset (map snd (dropWhile ?P q))"
    by (metis map_append mset_append takeWhile_dropWhile_id)
  then show ?thesis by (simp add: vinsert_def del: mset_map)
qed

text \<open>
  Documented in linux/sched/ext.h and the scx headers: an insertion into the local queue is
  at its end unless the flags ask for its head; an insertion by virtual time puts the thread into
  the named queue, if it exists, and never into a local one; the kernel takes work for a core from the
  head of its local queue; a queue is created empty, or not at all and a negative number is returned;
  virtual times are compared by the sign of their difference.
\<close>

locale scx_framework =
  fixes api :: "'d scx_api"
    and local_q :: "'d \<Rightarrow> scpu \<Rightarrow> stask list"
    and shared_q :: "'d \<Rightarrow> (u64 \<times> stask) list option"
    and cpu_of :: "stask \<Rightarrow> scpu"
    and consume :: "scpu \<Rightarrow> 'd \<Rightarrow> 'd"
  assumes insert_local: "fl AND SCX_ENQ_HEAD api = 0 \<Longrightarrow>
        local_q (scx_bpf_dsq_insert api p SCX_DSQ_LOCAL sl fl d) =
          (local_q d)(cpu_of p := local_q d (cpu_of p) @ [p])"
    and insert_local_shared: "shared_q (scx_bpf_dsq_insert api p SCX_DSQ_LOCAL sl fl d) = shared_q d"
    and insert_vtime_local: "local_q (scx_bpf_dsq_insert_vtime api p SHARED_DSQ sl v fl d) = local_q d"
    and insert_vtime_shared: "shared_q (scx_bpf_dsq_insert_vtime api p SHARED_DSQ sl v fl d) =
        map_option (vinsert api v p) (shared_q d)"
    and consume_local: "local_q (consume c d) = (local_q d)(c := tl (local_q d c))"
    and consume_shared: "shared_q (consume c d) = shared_q d"
    and create_dsq: "shared_q d = None \<Longrightarrow>
        fst (scx_bpf_create_dsq api SHARED_DSQ n d) = 0 \<and>
          shared_q (snd (scx_bpf_create_dsq api SHARED_DSQ n d)) = Some [] \<or>
        fst (scx_bpf_create_dsq api SHARED_DSQ n d) < 0 \<and>
          shared_q (snd (scx_bpf_create_dsq api SHARED_DSQ n d)) = None"
    and create_local: "local_q (snd (scx_bpf_create_dsq api SHARED_DSQ n d)) = local_q d"
    and time_before: "time_before api a b \<longleftrightarrow> sint (a - b) < 0"
begin

text \<open>
  A run in the virtual time mode only ever adds to the shared queue, and nothing to the
  local ones.
\<close>

lemma vtime_step:
  assumes "\<not> fifo_sched s"
  shows "local_q (dsqs s) = (\<lambda>_. []) \<Longrightarrow> local_q (dsqs (simple_ops api consume e s)) = (\<lambda>_. [])"
    and "shared_q (dsqs s) = Some q \<Longrightarrow>
      \<exists>q'. shared_q (dsqs (simple_ops api consume e s)) = Some q' \<and>
        mset (map snd q') = mset (map snd q) + mset (enqueued [e])"
    and "shared_q (dsqs s) = None \<Longrightarrow> shared_q (dsqs (simple_ops api consume e s)) = None"
proof -
  show "local_q (dsqs s) = (\<lambda>_. []) \<Longrightarrow> local_q (dsqs (simple_ops api consume e s)) = (\<lambda>_. [])"
    using assms unfolding step_dsqs by (cases e) (simp_all add: fun_eq_iff consume_local insert_vtime_local)
  show "shared_q (dsqs s) = Some q \<Longrightarrow>
      \<exists>q'. shared_q (dsqs (simple_ops api consume e s)) = Some q' \<and>
        mset (map snd q') = mset (map snd q) + mset (enqueued [e])"
    using assms unfolding step_dsqs
    by (cases e) (auto simp: consume_shared insert_vtime_shared mset_vinsert simp del: mset_map)
  show "shared_q (dsqs s) = None \<Longrightarrow> shared_q (dsqs (simple_ops api consume e s)) = None"
    using assms unfolding step_dsqs by (cases e) (simp_all add: consume_shared insert_vtime_shared)
qed

lemma vtime_run:
  assumes "\<not> fifo_sched s"
  shows "(local_q (dsqs s) = (\<lambda>_. []) \<longrightarrow>
      local_q (dsqs (fold (simple_ops api consume) es s)) = (\<lambda>_. [])) \<and>
    (shared_q (dsqs s) = None \<longrightarrow> shared_q (dsqs (fold (simple_ops api consume) es s)) = None) \<and>
    (\<forall>q. shared_q (dsqs s) = Some q \<longrightarrow>
       (\<exists>q'. shared_q (dsqs (fold (simple_ops api consume) es s)) = Some q' \<and>
         mset (map snd q') = mset (map snd q) + mset (enqueued es)))"
  using assms
proof (induction es arbitrary: s)
  case Nil
  then show ?case by simp
next
  case (Cons e es)
  let ?t = "simple_ops api consume e s"
  have m: "\<not> fifo_sched ?t" using Cons.prems by (simp add: step_mode)
  have n: "mset (enqueued (e # es)) = mset (enqueued [e]) + mset (enqueued es)" by (cases e) simp_all
  have "\<exists>q'. shared_q (dsqs (fold (simple_ops api consume) es ?t)) = Some q' \<and>
      mset (map snd q') = mset (map snd q) + mset (enqueued (e # es))" if q: "shared_q (dsqs s) = Some q" for q
  proof -
    obtain q1 where q1: "shared_q (dsqs ?t) = Some q1" "mset (map snd q1) = mset (map snd q) + mset (enqueued [e])"
      using vtime_step(2) [OF Cons.prems q] by blast
    then obtain q2 where "shared_q (dsqs (fold (simple_ops api consume) es ?t)) = Some q2"
      "mset (map snd q2) = mset (map snd q1) + mset (enqueued es)"
      using Cons.IH [OF m] by blast
    then show ?thesis unfolding q1(2) n by (auto simp only: add.assoc)
  qed
  with Cons.IH [OF m] vtime_step(1,3) [OF Cons.prems] show ?case by (simp del: simple_ops.simps)
qed

end

section \<open>First in, first out\<close>

text \<open>The threads a run enqueues for a core, in order.\<close>

fun placed_on :: "(stask \<Rightarrow> scpu) \<Rightarrow> scpu \<Rightarrow> scx_event list \<Rightarrow> stask list" where
  "placed_on cpu_of c [] = []"
| "placed_on cpu_of c (Enqueue this p fl # es) =
     (if cpu_of p = c then p # placed_on cpu_of c es else placed_on cpu_of c es)"
| "placed_on cpu_of c (_ # es) = placed_on cpu_of c es"

fun tail_event :: "'d scx_api \<Rightarrow> scx_event \<Rightarrow> bool" where
  "tail_event api (Enqueue this p fl) = (fl AND SCX_ENQ_HEAD api = 0)"
| "tail_event api e = True"

text \<open>The threads a core takes from its queue in a run, in order.\<close>

fun served ::
    "'d scx_api \<Rightarrow> (scpu \<Rightarrow> 'd \<Rightarrow> 'd) \<Rightarrow> ('d \<Rightarrow> scpu \<Rightarrow> stask list) \<Rightarrow> scpu \<Rightarrow> scx_event list \<Rightarrow> 'd scx_sys \<Rightarrow> stask list"
  where
  "served api consume lq c [] s = []"
| "served api consume lq c (e # es) s =
     (if e = Consume c then take 1 (lq (dsqs s) c) else []) @ served api consume lq c es (simple_ops api consume e s)"

context scx_framework
begin

lemma fifo_step:
  assumes "fifo_sched s" and "tail_event api e"
  shows "(if e = Consume c then take 1 (local_q (dsqs s) c) else []) @ local_q (dsqs (simple_ops api consume e s)) c =
      local_q (dsqs s) c @ placed_on cpu_of c [e]"
    and "shared_q (dsqs (simple_ops api consume e s)) = shared_q (dsqs s)"
proof -
  have tk: "take (Suc 0) xs @ tl xs = xs" for xs :: "stask list" by (cases xs) simp_all
  show "(if e = Consume c then take 1 (local_q (dsqs s) c) else []) @ local_q (dsqs (simple_ops api consume e s)) c =
      local_q (dsqs s) c @ placed_on cpu_of c [e]"
    using assms unfolding step_dsqs by (cases e) (simp_all add: insert_local consume_local tk)
  show "shared_q (dsqs (simple_ops api consume e s)) = shared_q (dsqs s)"
    using assms unfolding step_dsqs by (cases e) (simp_all add: insert_local_shared consume_shared)
qed

lemma fifo_run:
  assumes "fifo_sched s" and "list_all (tail_event api) es"
  shows "served api consume local_q c es s @ local_q (dsqs (fold (simple_ops api consume) es s)) c =
      local_q (dsqs s) c @ placed_on cpu_of c es \<and>
    shared_q (dsqs (fold (simple_ops api consume) es s)) = shared_q (dsqs s)"
  using assms
proof (induction es arbitrary: s)
  case (Cons e es)
  let ?t = "simple_ops api consume e s"
  have "fifo_sched ?t" using Cons.prems by (simp add: step_mode)
  with Cons have "served api consume local_q c es ?t @ local_q (dsqs (fold (simple_ops api consume) es ?t)) c =
      local_q (dsqs ?t) c @ placed_on cpu_of c es"
    and "shared_q (dsqs (fold (simple_ops api consume) es ?t)) = shared_q (dsqs ?t)" by simp_all
  moreover have "placed_on cpu_of c (e # es) = placed_on cpu_of c [e] @ placed_on cpu_of c es" by (cases e) simp_all
  moreover have "(if e = Consume c then take 1 (local_q (dsqs s) c) else []) @ local_q (dsqs ?t) c =
      local_q (dsqs s) c @ placed_on cpu_of c [e]" and "shared_q (dsqs ?t) = shared_q (dsqs s)"
    by (rule fifo_step; use Cons.prems in simp)+
  ultimately show ?case by (metis append.assoc fold_simps(2) served.simps(2))
qed simp

end

section \<open>Errors\<close>

text \<open>
  What the kernel does on an error of the scheduler: an insertion into a queue that does not exist is
  reported (\<open>failed\<close>), which ejects the scheduler, and the thread goes to the kernel's global queue, from which
  cores that have no other work take; an insertion into an existing queue and the creation of one do
  neither.
\<close>

locale scx_errors = scx_framework api local_q shared_q cpu_of consume
  for api :: "'d scx_api" and local_q shared_q cpu_of consume +
  fixes global_q :: "'d \<Rightarrow> stask list"
    and failed :: "'d \<Rightarrow> bool"
  assumes insert_missing: "shared_q d = None \<Longrightarrow>
        failed (scx_bpf_dsq_insert_vtime api p SHARED_DSQ sl v fl d) \<and>
        mset (global_q (scx_bpf_dsq_insert_vtime api p SHARED_DSQ sl v fl d)) = add_mset p (mset (global_q d))"
    and insert_present: "shared_q d \<noteq> None \<Longrightarrow>
        failed (scx_bpf_dsq_insert_vtime api p SHARED_DSQ sl v fl d) = failed d \<and>
        global_q (scx_bpf_dsq_insert_vtime api p SHARED_DSQ sl v fl d) = global_q d"
    and consume_failed: "failed (consume c d) = failed d"
    and consume_global: "mset (global_q (consume c d)) \<subseteq># mset (global_q d)"
    and create_keeps: "failed (snd (scx_bpf_create_dsq api SHARED_DSQ n d)) = failed d"
        "global_q (snd (scx_bpf_create_dsq api SHARED_DSQ n d)) = global_q d"
begin

lemma missing_step:
  assumes "\<not> fifo_sched s" and "shared_q (dsqs s) = None"
  shows "failed (dsqs (simple_ops api consume e s)) \<longleftrightarrow> failed (dsqs s) \<or> enqueued [e] \<noteq> []"
    and "mset (global_q (dsqs (simple_ops api consume e s))) \<subseteq># mset (global_q (dsqs s)) + mset (enqueued [e])"
  using assms unfolding step_dsqs
  by (cases e; simp add: insert_missing consume_failed consume_global)+

lemma present_step:
  assumes "\<not> fifo_sched s" and "shared_q (dsqs s) \<noteq> None"
  shows "failed (dsqs (simple_ops api consume e s)) = failed (dsqs s)"
    and "mset (global_q (dsqs (simple_ops api consume e s))) \<subseteq># mset (global_q (dsqs s))"
  using assms unfolding step_dsqs
  by (cases e; simp add: insert_present consume_failed consume_global)+

lemma missing_run:
  assumes "\<not> fifo_sched s" and "shared_q (dsqs s) = None"
  shows "(failed (dsqs (fold (simple_ops api consume) es s)) \<longleftrightarrow> failed (dsqs s) \<or> enqueued es \<noteq> []) \<and>
    mset (global_q (dsqs (fold (simple_ops api consume) es s))) \<subseteq># mset (global_q (dsqs s)) + mset (enqueued es)"
  using assms
proof (induction es arbitrary: s)
  case (Cons e es)
  let ?t = "simple_ops api consume e s"
  have t: "\<not> fifo_sched ?t" "shared_q (dsqs ?t) = None"
    using Cons.prems vtime_step(3) [OF Cons.prems] by (simp_all add: step_mode)
  have n: "enqueued (e # es) = enqueued [e] @ enqueued es" by (cases e) simp_all
  have "mset (global_q (dsqs (fold (simple_ops api consume) es ?t))) \<subseteq>#
      (mset (global_q (dsqs s)) + mset (enqueued [e])) + mset (enqueued es)"
    using Cons.IH [OF t] missing_step(2) [OF Cons.prems, of e]
    by (meson subset_mset.add_right_mono subset_mset.order_trans)
  with Cons.IH [OF t] missing_step(1) [OF Cons.prems, of e] show ?case
    unfolding n by (simp del: simple_ops.simps enqueued.simps add: add.assoc)
qed simp

lemma present_run:
  assumes "\<not> fifo_sched s" and "shared_q (dsqs s) \<noteq> None"
  shows "failed (dsqs (fold (simple_ops api consume) es s)) = failed (dsqs s) \<and>
    mset (global_q (dsqs (fold (simple_ops api consume) es s))) \<subseteq># mset (global_q (dsqs s))"
  using assms
proof (induction es arbitrary: s)
  case (Cons e es)
  let ?t = "simple_ops api consume e s"
  obtain q where "shared_q (dsqs s) = Some q" using Cons.prems by blast
  then have t: "\<not> fifo_sched ?t" "shared_q (dsqs ?t) \<noteq> None"
    using Cons.prems vtime_step(2) [OF Cons.prems(1)] by (auto simp: step_mode)
  from Cons.IH [OF t] present_step [OF Cons.prems, of e] show ?case
    by (metis fold_simps(2) subset_mset.order_trans)
qed simp

end

section \<open>Concrete queues\<close>

type_synonym ref_dsqs = "(scpu \<Rightarrow> stask list) \<times> (u64 \<times> stask) list option"

definition ref_before :: "u64 \<Rightarrow> u64 \<Rightarrow> bool" where
  "ref_before a b \<longleftrightarrow> sint (a - b) < 0"

definition ref_vinsert :: "u64 \<Rightarrow> stask \<Rightarrow> (u64 \<times> stask) list \<Rightarrow> (u64 \<times> stask) list" where
  "ref_vinsert v p q =
     takeWhile (\<lambda>(w, _). \<not> ref_before v w) q @ (v, p) # dropWhile (\<lambda>(w, _). \<not> ref_before v w) q"

definition ref_scx :: "ref_dsqs scx_api" where
  "ref_scx = \<lparr>
     scx_bpf_dsq_insert = (\<lambda>p q sl fl (l, sh).
       (l(p mod 4 := (if fl AND 1 = 0 then l (p mod 4) @ [p] else p # l (p mod 4))), sh)),
     scx_bpf_dsq_insert_vtime = (\<lambda>p q sl v fl (l, sh). (l, map_option (ref_vinsert v p) sh)),
     scx_bpf_create_dsq = (\<lambda>q n (l, sh). case sh of None \<Rightarrow> (0, l, Some []) | Some x \<Rightarrow> (-17, l, sh)),
     time_before = ref_before, SCX_SLICE_DFL = 20000000, SCX_ENQ_HEAD = 1\<rparr>"

definition ref_consume :: "scpu \<Rightarrow> ref_dsqs \<Rightarrow> ref_dsqs" where
  "ref_consume c = (\<lambda>(l, sh). (l(c := tl (l c)), sh))"

interpretation ref_scx: scx_framework ref_scx fst snd "\<lambda>p. p mod 4" ref_consume
proof unfold_locales
  fix p sl v fl d
  have "vinsert ref_scx = ref_vinsert"
    by (simp add: fun_eq_iff vinsert_def ref_vinsert_def ref_scx_def)
  then show "snd (scx_bpf_dsq_insert_vtime ref_scx p SHARED_DSQ sl v fl d) =
      map_option (vinsert ref_scx v p) (snd d)"
    by (simp add: ref_scx_def split: prod.splits)
qed (auto simp: ref_scx_def ref_consume_def ref_before_def split: prod.splits option.splits)

text \<open>The same with the kernel's global queue and whether an error was reported.\<close>

type_synonym err_dsqs = "ref_dsqs \<times> stask list \<times> bool"

definition err_scx :: "err_dsqs scx_api" where
  "err_scx = \<lparr>
     scx_bpf_dsq_insert = (\<lambda>p q sl fl (d, x). (scx_bpf_dsq_insert ref_scx p q sl fl d, x)),
     scx_bpf_dsq_insert_vtime = (\<lambda>p q sl v fl (d, g, f).
       (scx_bpf_dsq_insert_vtime ref_scx p q sl v fl d, if snd d = None then (g @ [p], True) else (g, f))),
     scx_bpf_create_dsq = (\<lambda>q n (d, x). let (r, d') = scx_bpf_create_dsq ref_scx q n d in (r, d', x)),
     time_before = ref_before, SCX_SLICE_DFL = 20000000, SCX_ENQ_HEAD = 1\<rparr>"

definition err_consume :: "scpu \<Rightarrow> err_dsqs \<Rightarrow> err_dsqs" where
  "err_consume c = (\<lambda>(d, g, f). (ref_consume c d, if fst d c = [] then tl g else g, f))"

interpretation err_scx: scx_errors err_scx "\<lambda>d. fst (fst d)" "\<lambda>d. snd (fst d)" "\<lambda>p. p mod 4" err_consume
    "\<lambda>d. fst (snd d)" "\<lambda>d. snd (snd d)"
proof unfold_locales
  fix p sl v fl and d :: err_dsqs
  have v: "vinsert err_scx = vinsert ref_scx"
    by (simp add: fun_eq_iff vinsert_def err_scx_def ref_scx_def)
  show "snd (fst (scx_bpf_dsq_insert_vtime err_scx p SHARED_DSQ sl v fl d)) =
      map_option (vinsert err_scx v p) (snd (fst d))"
    unfolding v ref_scx.insert_vtime_shared [where p = p and sl = sl and v = v and fl = fl and d = "fst d", symmetric]
    by (simp add: err_scx_def split: prod.splits)
next
  fix c and d :: err_dsqs
  have "mset (tl xs) \<subseteq># mset xs" for xs :: "stask list" by (cases xs) simp_all
  then show "mset (fst (snd (err_consume c d))) \<subseteq># mset (fst (snd d))"
    by (simp add: err_consume_def split: prod.splits)
qed (auto simp: err_scx_def err_consume_def ref_scx_def ref_consume_def ref_before_def split: prod.splits option.splits)

definition err_demo :: "err_dsqs scx_sys" where
  "err_demo = \<lparr>tasks = (\<lambda>p. \<lparr>t_pid = of_nat p, dsq_vtime = 0, t_slice = 0, t_weight = 100\<rparr>),
     fifo_sched = False, vtime_now = 50000000, scx_stats = (\<lambda>_ _. 0), uei = None,
     dsqs = ((\<lambda>_. [], None), [], False)\<rparr>"

definition scx_demo :: "bool \<Rightarrow> ref_dsqs scx_sys" where
  "scx_demo fifo = \<lparr>tasks = (\<lambda>p. \<lparr>t_pid = of_nat p, dsq_vtime = 0, t_slice = 0, t_weight = 100\<rparr>),
     fifo_sched = fifo, vtime_now = 50000000, scx_stats = (\<lambda>_ _. 0), uei = None,
     dsqs = (\<lambda>_. [], None)\<rparr>"

end
