(* ===== verification/Scx_Props.thy ===== *)
theory Scx_Props
  imports Scx_Correct
begin

text \<open>
  The properties of scx_simple.bpf.c (both copies) and of its loader: the order of the
  shared queue across the wrap of the virtual time, the charge of a thread, the fate of the
  threads in the shared queue, the FIFO mode, the statistics from the BPF counters to the
  loader's output, and the restart of the loader.
\<close>

section \<open>Helpers: the counters and the loader\<close>

lemma read_stat_sum: "read_stat nr (\<lambda>_. True) cnts i = (\<Sum>cpu<nr. cnts cpu i)"
proof -
  have "fold (\<lambda>cpu acc. acc + cnts cpu i) [0..<nr] 0 = (\<Sum>cpu<nr. cnts cpu i)"
    by (induction nr) simp_all
  then show ?thesis by (simp add: read_stat_def)
qed

fun stats_after :: "scx_event \<Rightarrow> (scpu \<Rightarrow> u32 \<Rightarrow> u64) \<Rightarrow> scpu \<Rightarrow> u32 \<Rightarrow> u64" where
  "stats_after (Enqueue this p fl) cnts = cnts(this := (cnts this)(1 := cnts this 1 + 1))"
| "stats_after _ cnts = cnts"

lemma stats_step: "scx_stats (simple_ops api consume e s) = stats_after e (scx_stats s)"
  by (cases e) (simp_all add: simple_enqueue_def simple_running_def simple_stopping_def
      simple_enable_def simple_exit_def simple_dequeue_def simple_dispatch_def
      simple_update_idle_def stat_inc_def upd_task_def Let_def)

lemma stats_after_sum:
  assumes "case e of Enqueue cpu p fl \<Rightarrow> cpu < nr | _ \<Rightarrow> True"
  shows "(\<Sum>cpu<nr. stats_after e cnts cpu 0) = (\<Sum>cpu<nr. cnts cpu 0)"
    and "(\<Sum>cpu<nr. stats_after e cnts cpu 1) = (\<Sum>cpu<nr. cnts cpu 1) + of_nat (length (enqueued [e]))"
proof -
  show "(\<Sum>cpu<nr. stats_after e cnts cpu 0) = (\<Sum>cpu<nr. cnts cpu 0)"
    by (cases e) (auto intro: sum.cong)
  show "(\<Sum>cpu<nr. stats_after e cnts cpu 1) = (\<Sum>cpu<nr. cnts cpu 1) + of_nat (length (enqueued [e]))"
  proof (cases e)
    case (Enqueue this p fl)
    then have "this < nr" using assms by simp
    then have "(\<Sum>cpu<nr. cnts cpu 1 + (if cpu = this then 1 else 0)) = (\<Sum>cpu<nr. cnts cpu 1) + 1"
      by (simp add: sum.distrib sum.delta)
    moreover have "stats_after e cnts cpu 1 = cnts cpu 1 + (if cpu = this then 1 else 0)" for cpu
      using Enqueue by simp
    ultimately show ?thesis using Enqueue by simp
  qed simp_all
qed

lemma stats_run:
  assumes "list_all (\<lambda>e. case e of Enqueue cpu p fl \<Rightarrow> cpu < nr | _ \<Rightarrow> True) es"
  shows "(\<Sum>cpu<nr. scx_stats (fold (simple_ops api consume) es s) cpu 0) = (\<Sum>cpu<nr. scx_stats s cpu 0) \<and>
    (\<Sum>cpu<nr. scx_stats (fold (simple_ops api consume) es s) cpu 1) =
      (\<Sum>cpu<nr. scx_stats s cpu 1) + of_nat (length (enqueued es))"
  using assms
proof (induction es arbitrary: s)
  case Nil
  then show ?case by simp
next
  case (Cons e es)
  let ?t = "simple_ops api consume e s"
  from Cons.prems have e: "case e of Enqueue cpu p fl \<Rightarrow> cpu < nr | _ \<Rightarrow> True" by simp
  have IH: "(\<Sum>cpu<nr. scx_stats (fold (simple_ops api consume) es ?t) cpu 0) = (\<Sum>cpu<nr. scx_stats ?t cpu 0)"
    "(\<Sum>cpu<nr. scx_stats (fold (simple_ops api consume) es ?t) cpu 1) =
      (\<Sum>cpu<nr. scx_stats ?t cpu 1) + of_nat (length (enqueued es))"
    using Cons.IH Cons.prems by simp_all
  have "length (enqueued (e # es)) = length (enqueued [e]) + length (enqueued es)" by (cases e) simp_all
  then have n: "of_nat (length (enqueued (e # es))) =
      of_nat (length (enqueued [e])) + (of_nat (length (enqueued es)) :: u64)" by simp
  show ?case
    unfolding fold_simps IH stats_step stats_after_sum [OF e] n by (simp only: add.assoc)
qed

lemma parse_opts_fifo:
  "parse_opts opts (skel, v) = Inr (skel', v') \<Longrightarrow>
    (sk_fifo_sched skel' \<longleftrightarrow> sk_fifo_sched skel \<or> CHR ''f'' \<in> set opts)"
  by (induction opts "(skel, v)" arbitrary: skel v rule: parse_opts.induct) (auto split: if_splits)

lemma scx_main_skels:
  "list_all sk_switch_partial (fst (scx_main opts v restarts)) \<and>
   list_all (\<lambda>sk. \<not> sk_fifo_sched sk) (tl (fst (scx_main opts v restarts))) \<and>
   (fst (scx_main opts v restarts) \<noteq> [] \<longrightarrow> snd (scx_main opts v restarts) = 0 \<and>
      (sk_fifo_sched (hd (fst (scx_main opts v restarts))) \<longleftrightarrow> CHR ''f'' \<in> set opts)) \<and>
   (opts = [] \<longrightarrow> snd (scx_main opts v restarts) = 0)"
proof (induction restarts arbitrary: opts v)
  case Nil
  then show ?case by simp
next
  case (Cons restart restarts)
  show ?case
  proof (cases "parse_opts opts (open_skel, v)")
    case (Inl r)
    then show ?thesis by (cases opts) simp_all
  next
    case (Inr x)
    obtain skel v1 where x: "x = (skel, v1)" by force
    have f: "sk_fifo_sched skel \<longleftrightarrow> CHR ''f'' \<in> set opts"
      using parse_opts_fifo Inr x by (fastforce simp: open_skel_def)
    obtain skels r where m: "scx_main [] v1 restarts = (skels, r)" by force
    have "list_all (\<lambda>sk. \<not> sk_fifo_sched sk) skels \<and> list_all sk_switch_partial skels \<and> r = 0"
      using Cons.IH [of "[]" v1] m by (cases skels) auto
    then show ?thesis using Inr x f m by (auto simp: Let_def)
  qed
qed

section \<open>Virtual time across its wrap\<close>

lemma sint_diff_window:
  fixes x y :: u64
  assumes "unat x < 2 ^ 63" and "unat y < 2 ^ 63"
  shows "sint (x - y) = int (unat x) - int (unat y)"
proof -
  have "int (unat x) < 2 ^ 63" "int (unat y) < 2 ^ 63"
    using assms by (metis of_nat_less_iff of_nat_numeral of_nat_power)+
  then have b: "- (2 ^ 63) \<le> int (unat x) - int (unat y)" "int (unat x) - int (unat y) < 2 ^ 63"
    by linarith+
  have "sint (of_int k :: u64) = signed_take_bit 63 k" for k by (simp add: signed_of_int)
  moreover have "of_int (int (unat x) - int (unat y)) = x - y" by simp
  ultimately have "sint (x - y) = signed_take_bit 63 (int (unat x) - int (unat y))" by metis
  also have "\<dots> = int (unat x) - int (unat y)" using b by (rule signed_take_bit_int_eq_self)
  finally show ?thesis .
qed

text \<open>
  Virtual times that lie less than half the range ahead of \<open>base\<close> are compared as numbers.
\<close>

definition ahead :: "u64 \<Rightarrow> u64 \<Rightarrow> nat" where
  "ahead base v = unat (v - base)"

definition within :: "u64 \<Rightarrow> u64 \<Rightarrow> bool" where
  "within base v \<longleftrightarrow> ahead base v < 2 ^ 63"

lemma window_before:
  assumes "within base v" and "within base w"
  shows "sint (v - w) < 0 \<longleftrightarrow> ahead base v < ahead base w"
proof -
  have "sint ((v - base) - (w - base)) = int (ahead base v) - int (ahead base w)"
    unfolding ahead_def by (rule sint_diff_window) (use assms in \<open>simp_all add: within_def ahead_def\<close>)
  moreover have "(v - base) - (w - base) = v - w" by simp
  ultimately have "sint (v - w) = int (ahead base v) - int (ahead base w)" by metis
  then show ?thesis by linarith
qed

lemma set_around: "set (takeWhile P xs @ x # dropWhile P xs) = insert x (set xs)"
proof -
  have "set xs = set (takeWhile P xs) \<union> set (dropWhile P xs)"
    by (metis set_append takeWhile_dropWhile_id)
  then show ?thesis by simp
qed

lemma sorted_around:
  fixes k :: "'a \<Rightarrow> nat"
  assumes "sorted (map k xs)"
  shows "sorted (map k (takeWhile (\<lambda>y. k y \<le> k x) xs @ x # dropWhile (\<lambda>y. k y \<le> k x) xs))"
  using assms
proof (induction xs)
  case Nil
  then show ?case by simp
next
  case (Cons y ys)
  let ?zs = "takeWhile (\<lambda>y. k y \<le> k x) ys @ x # dropWhile (\<lambda>y. k y \<le> k x) ys"
  from Cons.prems have y: "\<forall>z \<in> set ys. k y \<le> k z" "sorted (map k ys)" by auto
  show ?case
  proof (cases "k y \<le> k x")
    case True
    have "\<forall>z \<in> set ?zs. k y \<le> k z" unfolding set_around using y(1) True by simp
    then have "\<forall>z \<in> set (map k ?zs). k y \<le> z" by auto
    with Cons.IH [OF y(2)] have "sorted (k y # map k ?zs)" by (simp only: sorted_simps ball_simps simp_thms)
    then show ?thesis using True by simp
  next
    case False
    then have "k x \<le> k z" if "z \<in> set ys" for z using y(1) that by fastforce
    with False Cons.prems show ?thesis by auto
  qed
qed

text \<open>The shared queue is in the order of the virtual times, seen from \<open>base\<close>.\<close>

definition vsorted :: "u64 \<Rightarrow> (u64 \<times> stask) list \<Rightarrow> bool" where
  "vsorted base q \<longleftrightarrow> sorted (map (\<lambda>(v, _). ahead base v) q) \<and> list_all (\<lambda>(v, _). within base v) q"

lemma set_vinsert: "set (vinsert api v p q) = insert (v, p) (set q)"
  by (simp only: vinsert_def set_around)

lemma vinsert_sorted:
  assumes before: "\<And>a b. time_before api a b \<longleftrightarrow> sint (a - b) < 0"
    and q: "vsorted base q" and v: "within base v"
  shows "vsorted base (vinsert api v p q)"
proof -
  let ?k = "\<lambda>(v, _ :: stask). ahead base v"
  have eq: "\<not> time_before api v w \<longleftrightarrow> ahead base w \<le> ahead base v" if "(w, r) \<in> set q" for w r
  proof -
    have "within base w" using q that by (auto simp: vsorted_def list_all_iff)
    then show ?thesis using window_before [OF v, of w] by (simp add: before not_less)
  qed
  have tw: "takeWhile (\<lambda>(w, _). \<not> time_before api v w) q = takeWhile (\<lambda>y. ?k y \<le> ?k (v, p)) q"
    by (rule takeWhile_cong) (use eq in auto)
  have dw: "dropWhile (\<lambda>(w, _). \<not> time_before api v w) q = dropWhile (\<lambda>y. ?k y \<le> ?k (v, p)) q"
    by (rule dropWhile_cong) (use eq in auto)
  have "sorted (map ?k (vinsert api v p q))"
    unfolding vinsert_def tw dw using sorted_around [of ?k q "(v, p)"] q by (simp add: vsorted_def)
  moreover have "list_all (\<lambda>(v, _). within base v) (vinsert api v p q)"
    using q v by (auto simp: vsorted_def list_all_iff set_vinsert)
  ultimately show ?thesis by (simp add: vsorted_def)
qed

text \<open>C10 \<open>simple_enqueue\<close> (scx_simple.bpf.c) in virtual time mode: the thread is queued once, with
  its own virtual time or, if that is more than one slice behind \<open>vtime_now\<close>, with the time
  one slice behind; and the shared queue stays in the order of virtual time, also when the
  64-bit clock wraps, as long as all queued times lie within half of its range.\<close>

theorem scx_enqueue_sorted:
  assumes fw: "scx_framework api local_q shared_q cpu_of consume" and mode: "\<not> fifo_sched s"
    and q: "shared_q (dsqs s) = Some q" "vsorted base q"
    and win: "within base (dsq_vtime (tasks s p))" "within base (vtime_now s - SCX_SLICE_DFL api)"
  shows "\<exists>v q'. shared_q (dsqs (simple_enqueue api this p fl s)) = Some q' \<and> vsorted base q' \<and>
    mset q' = add_mset (v, p) (mset q) \<and>
    ahead base v = max (ahead base (dsq_vtime (tasks s p))) (ahead base (vtime_now s - SCX_SLICE_DFL api))"
proof -
  have before: "time_before api a b \<longleftrightarrow> sint (a - b) < 0" for a b
    by (rule scx_framework.time_before [OF fw])
  let ?v = "queue_vtime api p s"
  have "shared_q (dsqs (simple_ops api consume (Enqueue this p fl) s)) = Some (vinsert api ?v p q)"
    unfolding step_dsqs using mode q(1) by (simp add: scx_framework.insert_vtime_shared [OF fw])
  then have e: "shared_q (dsqs (simple_enqueue api this p fl s)) = Some (vinsert api ?v p q)" by simp
  have v: "within base ?v" "ahead base ?v =
      max (ahead base (dsq_vtime (tasks s p))) (ahead base (vtime_now s - SCX_SLICE_DFL api))"
    using win window_before [OF win] by (auto simp: queue_vtime_def before)
  have "mset (takeWhile P q @ (?v, p) # dropWhile P q) = add_mset (?v, p) (mset q)" for P
    by simp (metis mset_append takeWhile_dropWhile_id)
  then have "mset (vinsert api ?v p q) = add_mset (?v, p) (mset q)" unfolding vinsert_def by blast
  with e v vinsert_sorted [OF before q(2) v(1)] show ?thesis by blast
qed

text \<open>The clock has just wrapped: \<open>vtime_now\<close> is 5 ms, the thread's time far behind it.\<close>

theorem scx_enqueue_sorted_witness:
  "\<exists>v q'. snd (dsqs (simple_enqueue ref_scx 0 7 0
      ((scx_demo False)\<lparr>vtime_now := 5000000, tasks := (\<lambda>_. \<lparr>t_pid = 7, dsq_vtime = - 100000000,
          t_slice = 0, t_weight = 100\<rparr>), dsqs := (\<lambda>_. [], Some [(3, 8)])\<rparr>))) = Some q' \<and>
    mset q' = {#(v, 7), (3, 8)#} \<and> v = - 15000000"
proof -
  let ?s = "(scx_demo False)\<lparr>vtime_now := 5000000, tasks := (\<lambda>_. \<lparr>t_pid = 7, dsq_vtime = - 100000000,
          t_slice = 0, t_weight = 100\<rparr>), dsqs := (\<lambda>_. [], Some [(3, 8)])\<rparr>"
  let ?b = "- 200000000 :: u64"
  have w: "vsorted ?b [(3, 8)]" "within ?b (- 100000000)" "within ?b (- 15000000)"
    "ahead ?b (- 100000000) = 100000000" "ahead ?b (- 15000000) = 185000000"
    by (simp_all add: vsorted_def within_def ahead_def)
  obtain v q' where q': "snd (dsqs (simple_enqueue ref_scx 0 7 0 ?s)) = Some q'"
    "mset q' = add_mset (v, 7) (mset [(3, 8)])" "ahead ?b v = 185000000"
    using scx_enqueue_sorted [OF ref_scx.scx_framework_axioms, of ?s "[(3, 8)]" ?b 7 0 0] w
    by (auto simp: scx_demo_def ref_scx_def)
  have "v - ?b = - 15000000 - ?b"
    using q'(3) w(5) unfolding ahead_def by (metis unsigned_word_eqI)
  then have "v = - 15000000" by (metis diff_add_cancel)
  with q' show ?thesis by auto
qed

section \<open>The charge of a thread\<close>

text \<open>\<open>simple_stopping\<close> (scx_simple.bpf.c): the thread's virtual time moves forward by exactly
  (time used) * 100 / weight, rounded down, when the product fits 64 bits. (At the default
  weight 100 that is the time used.)\<close>

theorem scx_charge_exact:
  assumes mode: "\<not> fifo_sched s" and used: "t_slice (tasks s p) \<le> SCX_SLICE_DFL api"
    and fits: "unat (SCX_SLICE_DFL api) * 100 < 2 ^ 64" and w: "w = t_weight (tasks s p)" "0 < w"
  shows "unat (dsq_vtime (tasks (simple_stopping api p r s) p) - dsq_vtime (tasks s p)) =
      (unat (SCX_SLICE_DFL api) - unat (t_slice (tasks s p))) * 100 div unat w"
proof -
  let ?d = "SCX_SLICE_DFL api - t_slice (tasks s p)"
  have d: "unat ?d = unat (SCX_SLICE_DFL api) - unat (t_slice (tasks s p))"
    using used by (rule unat_sub)
  then have "unat ?d * unat (100 :: u64) < 2 ^ LENGTH(64)" using fits by simp
  then have m: "unat (?d * 100) = unat ?d * 100" by (subst (asm) unat_mult_lem) simp
  have "unat w < 2 ^ 32" using unsigned_less [of w] by simp
  then have "unat (ucast w :: u64) = unat w" by (simp add: unsigned_ucast_eq take_bit_nat_eq_self)
  then have "unat (vtime_charge (SCX_SLICE_DFL api) (t_slice (tasks s p)) w) =
      (unat (SCX_SLICE_DFL api) - unat (t_slice (tasks s p))) * 100 div unat w"
    by (simp only: vtime_charge_def unat_div m d)
  then show ?thesis using mode w by (simp add: simple_stopping_def upd_task_def)
qed

theorem scx_charge_exact_witness:
  "unat (dsq_vtime (tasks (simple_stopping ref_scx 7 True (scx_demo False)) 7) -
      dsq_vtime (tasks (scx_demo False) 7)) = 20000000"
proof -
  have d: "\<not> fifo_sched (scx_demo False)" "t_slice (tasks (scx_demo False) 7) = 0"
    "t_weight (tasks (scx_demo False) 7) = 100" "SCX_SLICE_DFL ref_scx = 20000000"
    by (simp_all add: scx_demo_def ref_scx_def)
  then show ?thesis using scx_charge_exact [of "scx_demo False" 7 ref_scx 100 True] by simp
qed

section \<open>The fate of the queued threads\<close>

text \<open>C31 In virtual time mode scx_simple.bpf.c gives no core a thread. With the \<open>simple_init\<close> that creates
  the shared queue (the copy beside rusty_saakm.c), if the creation succeeds: after any sequence of
  callbacks and of takes by the cores all enqueued threads are in that queue, since
  \<open>simple_dispatch\<close> moves nothing, the local queues and the kernel's global queue, from which the cores
  take, are empty, and no error is reported. With the other \<open>simple_init\<close> (scx_scheds/fifo), which succeeds
  without creating it: an error is reported, and so the scheduler ejected, as soon as a thread
  is enqueued and not before; that thread is put on the global queue, the local queues stay empty, and
  the global queue holds enqueued threads only: a thread runs only because the kernel rescues it.\<close>

theorem scx_shared_never_runs:
  assumes fw: "scx_errors api local_q shared_q cpu_of consume global_q failed" and mode: "\<not> fifo_sched s"
    and fresh: "shared_q (dsqs s) = None" "local_q (dsqs s) = (\<lambda>_. [])" "global_q (dsqs s) = []" "\<not> failed (dsqs s)"
    and t: "t = fold (simple_ops api consume) es (snd (simple_init_dsq api s))"
    and u: "u = fold (simple_ops api consume) es (snd (simple_init s))"
  shows "(fst (simple_init_dsq api s) = 0 \<longrightarrow>
      (\<exists>q. shared_q (dsqs t) = Some q \<and> mset (map snd q) = mset (enqueued es)) \<and>
      local_q (dsqs t) = (\<lambda>_. []) \<and> global_q (dsqs t) = [] \<and> \<not> failed (dsqs t)) \<and>
    fst (simple_init s) = 0 \<and> shared_q (dsqs u) = None \<and> local_q (dsqs u) = (\<lambda>_. []) \<and>
    (failed (dsqs u) \<longleftrightarrow> enqueued es \<noteq> []) \<and> mset (global_q (dsqs u)) \<subseteq># mset (enqueued es) \<and>
    (\<forall>this p fl. p \<in> set (global_q (dsqs (simple_enqueue api this p fl u))) \<and>
      failed (dsqs (simple_enqueue api this p fl u)))"
proof -
  note sf = scx_errors.axioms(1) [OF fw]
  let ?s1 = "snd (simple_init_dsq api s)"
  have A: "(\<exists>q. shared_q (dsqs t) = Some q \<and> mset (map snd q) = mset (enqueued es)) \<and>
      local_q (dsqs t) = (\<lambda>_. []) \<and> global_q (dsqs t) = [] \<and> \<not> failed (dsqs t)"
    if r: "fst (simple_init_dsq api s) = 0"
  proof -
    have s1: "shared_q (dsqs ?s1) = Some []" "local_q (dsqs ?s1) = (\<lambda>_. [])" "\<not> fifo_sched ?s1"
      "global_q (dsqs ?s1) = []" "\<not> failed (dsqs ?s1)"
      using r scx_framework.create_dsq [OF sf fresh(1), of "-1"] scx_framework.create_local [OF sf, of "-1" "dsqs s"]
        scx_errors.create_keeps [OF fw, of "-1" "dsqs s"] fresh mode
      by (auto simp: simple_init_dsq_def split: prod.splits)
    then show ?thesis
      using scx_framework.vtime_run [OF sf s1(3), of es] scx_errors.present_run [OF fw s1(3), of es] by (simp add: t)
  qed
  have s0: "snd (simple_init s) = s" by (simp add: simple_init_def)
  have B: "shared_q (dsqs u) = None" "local_q (dsqs u) = (\<lambda>_. [])" "failed (dsqs u) \<longleftrightarrow> enqueued es \<noteq> []"
    "mset (global_q (dsqs u)) \<subseteq># mset (enqueued es)"
    using scx_framework.vtime_run [OF sf mode, of es] scx_errors.missing_run [OF fw mode fresh(1), of es] fresh
    by (simp_all add: u s0)
  have m: "\<not> fifo_sched u" unfolding u s0 using mode by (induction es arbitrary: s) (simp_all add: step_mode)
  have C: "p \<in> set (global_q (dsqs (simple_enqueue api this p fl u))) \<and> failed (dsqs (simple_enqueue api this p fl u))"
    for this p fl
  proof -
    have "dsqs (simple_enqueue api this p fl u) = scx_bpf_dsq_insert_vtime api p SHARED_DSQ (SCX_SLICE_DFL api)
        (queue_vtime api p u) fl (dsqs u)"
      using step_dsqs [of api consume "Enqueue this p fl" u] m by simp
    with scx_errors.insert_missing [OF fw B(1)] show ?thesis by (metis set_mset_mset union_single_eq_member)
  qed
  show ?thesis using A B C by (simp add: simple_init_def)
qed

theorem scx_shared_never_runs_witness:
  "(\<exists>q. snd (fst (dsqs (fold (simple_ops err_scx err_consume)
      [Enable 7, Enqueue 0 7 0, Dispatch 3 7, Consume 3] (snd (simple_init_dsq err_scx err_demo))))) = Some q \<and>
    mset (map snd q) = {#7#}) \<and>
   snd (snd (dsqs (fold (simple_ops err_scx err_consume)
      [Enable 7, Enqueue 0 7 0, Dispatch 3 7, Consume 3] (snd (simple_init err_demo)))))"
proof -
  have "fst (simple_init_dsq err_scx err_demo) = 0"
    by (simp add: simple_init_dsq_def err_scx_def ref_scx_def err_demo_def)
  with scx_shared_never_runs [OF err_scx.scx_errors_axioms, of err_demo, OF _ _ _ _ _ refl refl,
      of "[Enable 7, Enqueue 0 7 0, Dispatch 3 7, Consume 3]"]
  show ?thesis by (auto simp: err_demo_def simp del: simple_ops.simps fold_simps)
qed

text \<open>C33 In FIFO mode every core takes its threads in the order they were enqueued for it: in any
  run without head insertions, the threads the core took, followed by those still in its local
  queue, are those that were there at first followed by those the run enqueued for it, and the
  shared queue is unused.\<close>

theorem scx_fifo_order:
  assumes fw: "scx_framework api local_q shared_q cpu_of consume" and mode: "fifo_sched s"
    and tails: "list_all (tail_event api) es"
  shows "served api consume local_q c es s @ local_q (dsqs (fold (simple_ops api consume) es s)) c =
      local_q (dsqs s) c @ placed_on cpu_of c es \<and>
    shared_q (dsqs (fold (simple_ops api consume) es s)) = shared_q (dsqs s)"
  using mode tails by (rule scx_framework.fifo_run [OF fw])

theorem scx_fifo_order_witness:
  "served ref_scx ref_consume fst 3 [Enqueue 0 7 0, Consume 3, Enqueue 2 11 0, Enqueue 2 6 0] (scx_demo True) @
     fst (dsqs (fold (simple_ops ref_scx ref_consume)
       [Enqueue 0 7 0, Consume 3, Enqueue 2 11 0, Enqueue 2 6 0] (scx_demo True))) 3 = [7, 11] \<and>
   snd (dsqs (fold (simple_ops ref_scx ref_consume)
      [Enqueue 0 7 0, Consume 3, Enqueue 2 11 0, Enqueue 2 6 0] (scx_demo True))) = None"
  using scx_fifo_order [OF ref_scx.scx_framework_axioms, where s = "scx_demo True" and c = 3
      and es = "[Enqueue 0 7 0, Consume 3, Enqueue 2 11 0, Enqueue 2 6 0]"]
  by (simp add: scx_demo_def ref_scx_def del: simple_ops.simps served.simps)

section \<open>Statistics and restart\<close>

text \<open>The numbers the loader prints: after any run from zeroed counters, \<open>read_stats\<close> gives
  "local" 0, since no callback counts it, and "global" the number of enqueued threads of
  both modes, modulo 2 to the power of 64, if the calls were made on cpus below \<open>nr_cpus\<close>.\<close>

theorem scx_stats_count:
  assumes "scx_stats s = (\<lambda>_ _. 0)" and "list_all (\<lambda>e. case e of Enqueue cpu p fl \<Rightarrow> cpu < nr | _ \<Rightarrow> True) es"
  shows "read_stats nr (\<lambda>_. True) (scx_stats (fold (simple_ops api consume) es s)) =
    (0, of_nat (length (enqueued es)))"
  using stats_run [OF assms(2), of api consume s] assms(1) by (simp add: read_stats_def read_stat_sum)

theorem scx_stats_count_witness:
  "read_stats 4 (\<lambda>_. True) (scx_stats (fold (simple_ops ref_scx ref_consume)
      [Enqueue 0 7 0, Consume 3, Enqueue 2 11 0] (scx_demo True))) = (0, 2)"
  using scx_stats_count [of "scx_demo True" 4 "[Enqueue 0 7 0, Consume 3, Enqueue 2 11 0]" ref_scx ref_consume]
  by (simp add: scx_demo_def del: simple_ops.simps)

text \<open>The loader (scx_simple.c) does not keep its options over a restart: \<open>getopt\<close> has no options
  left, so whatever the command line asked for, every scheduler attached after the first one
  is in virtual time mode, while all of them switch partially.\<close>

theorem scx_loader_restart:
  "case scx_main opts verbose restarts of (skels, r) \<Rightarrow>
     list_all (\<lambda>sk. sk_switch_partial sk) skels \<and> list_all (\<lambda>sk. \<not> sk_fifo_sched sk) (tl skels) \<and>
     (skels \<noteq> [] \<longrightarrow> r = 0 \<and> (sk_fifo_sched (hd skels) \<longleftrightarrow> CHR ''f'' \<in> set opts))"
  using scx_main_skels [of opts verbose restarts] by (simp add: case_prod_beta)

theorem scx_loader_restart_witness:
  "snd (scx_main ''vf'' False [True, False]) = 0 \<and>
   map sk_fifo_sched (fst (scx_main ''vf'' False [True, False])) = [True, False]"
proof -
  have "length (fst (scx_main ''vf'' False [True, False])) = 2" by (simp add: Let_def)
  then obtain a b where "fst (scx_main ''vf'' False [True, False]) = [a, b]"
    by (auto simp only: length_Suc_conv numeral_2_eq_2 length_0_conv)
  then show ?thesis using scx_loader_restart [of "''vf''" False "[True, False]"] by (simp add: case_prod_beta)
qed

end
