(* ===== verification/FifoPlain.thy ===== *)
theory FifoPlain
  imports Saakm
begin

text \<open>
  modules/fifo/fifo.c: the first version of the per-core FIFO policy, without statistics, with
  a quantum of 2 s and one more nanosecond charged per tick. Four lines of the file are damaged
  (105-108): the handler of the end of idleness, the function that chooses a cpu, the first
  balancing handler and the head of the enqueue helper are missing. What the rest calls or
  uses of them is the parameter \<open>plain_lost\<close>.
\<close>

section \<open>Structures\<close>

definition PLAIN_QUANTUM_NS :: ulong where
  "PLAIN_QUANTUM_NS = 2000000000"

record plain_process =
  pp_state :: int
  pp_task :: task
  pp_rq :: "rqid option"
  pp_quantum_ns :: ulong
  pp_last_sched_ns :: ulong

record plain_core =
  pc_state :: core_state
  pc_id :: nat
  pc_current :: "addr option"

record plain_sys = "(plain_core, plain_process) sys" +
  plain_online :: cpumask

text \<open>
  The missing code: the choice of a cpu (applied to the thread, its cpu, the wake flags and the
  number of online cpus), the handler of the end of idleness, and the core structure \<open>fc\<close> points
  to in the enqueue helper.
\<close>

record plain_lost =
  lost_select_cpu :: "kapi \<Rightarrow> kernel \<Rightarrow> task \<Rightarrow> cpu \<Rightarrow> u32 \<Rightarrow> u32 \<Rightarrow> int res"
  lost_exit_idle :: "cpu \<Rightarrow> plain_sys \<Rightarrow> plain_sys"
  lost_fc :: "kernel \<Rightarrow> plain_process \<Rightarrow> cpu"

section \<open>Handlers of core events\<close>

definition plain_get_core_state :: "cpu \<Rightarrow> plain_sys \<Rightarrow> core_state" where
  "plain_get_core_state target s = pc_state (cores s target)"

definition plain_core_entry :: "cpu \<Rightarrow> plain_sys \<Rightarrow> plain_sys" where
  "plain_core_entry target s =
     (let s1 = upd_core target (\<lambda>c. c\<lparr>pc_state := IPANEMA_ACTIVE_CORE\<rparr>) s
      in s1\<lparr>plain_online := cpumask_set_cpu (pc_id (cores s1 target)) (plain_online s1)\<rparr>)"

definition plain_core_exit :: "cpu \<Rightarrow> plain_sys \<Rightarrow> plain_sys" where
  "plain_core_exit target s =
     (let s1 = upd_core target (\<lambda>c. c\<lparr>pc_state := IPANEMA_IDLE_CORE\<rparr>) s
      in s1\<lparr>plain_online := cpumask_clear_cpu (pc_id (cores s1 target)) (plain_online s1)\<rparr>)"

definition plain_newly_idle :: "cpu \<Rightarrow> plain_sys \<Rightarrow> plain_sys" where
  "plain_newly_idle target s = s"

definition plain_enter_idle :: "cpu \<Rightarrow> plain_sys \<Rightarrow> plain_sys" where
  "plain_enter_idle target s = upd_core target (\<lambda>c. c\<lparr>pc_state := IPANEMA_IDLE_CORE\<rparr>) s"

section \<open>Handlers of thread events\<close>

definition plain_enqueue_task ::
    "plain_lost \<Rightarrow> kapi \<Rightarrow> addr \<Rightarrow> rqid option \<Rightarrow> ipanema_state \<Rightarrow> plain_sys \<Rightarrow> plain_sys res" where
  "plain_enqueue_task lost api a next_rq st s =
     (case heap s a of
        None \<Rightarrow> Inl UseAfterFree
      | Some fp \<Rightarrow>
          let fc = lost_fc lost (kern s) fp;
              s1 = (if st = IPANEMA_READY_TICK
                    then upd_core fc (\<lambda>c. c\<lparr>pc_current := None\<rparr>) s else s);
              s2 = put_proc a (fp\<lparr>pp_state := state_code st, pp_rq := next_rq\<rparr>) s1
          in Inr (call_change_state api (pp_task fp) st (k_cpu (kern s2) (pp_task fp)) next_rq s2))"

text \<open>Unlike the later version this one asks for a cpu without the flags of the event.\<close>

definition plain_new_prepare ::
    "plain_lost \<Rightarrow> kapi \<Rightarrow> task \<Rightarrow> addr option \<Rightarrow> u32 \<Rightarrow> plain_sys \<Rightarrow> (int \<times> plain_sys) res" where
  "plain_new_prepare lost api p alloc num_online s =
     (case alloc of
        None \<Rightarrow> Inr (-1, s)
      | Some a \<Rightarrow>
          let fp = \<lparr>pp_state = 0, pp_task = p, pp_rq = None, pp_quantum_ns = 0, pp_last_sched_ns = 0\<rparr>;
              s1 = set_metadata p a (put_proc a fp s)
          in res_map (\<lambda>r. (r, s1))
               (lost_select_cpu lost api (kern s1) p (k_cpu (kern s1) p) 0 num_online))"

definition plain_new_place :: "plain_lost \<Rightarrow> kapi \<Rightarrow> task \<Rightarrow> plain_sys \<Rightarrow> plain_sys res" where
  "plain_new_place lost api p s =
     res_bind (policy_metadata p s) (\<lambda>(a, fp).
       let cpu_dst = k_cpu (kern s) (pp_task fp)
       in plain_enqueue_task lost api a (Some (LocalRq cpu_dst)) IPANEMA_READY s)"

definition plain_new_end :: "task \<Rightarrow> plain_sys \<Rightarrow> plain_sys" where
  "plain_new_end p s = s"

definition plain_tick :: "plain_lost \<Rightarrow> kapi \<Rightarrow> task \<Rightarrow> u64 \<Rightarrow> plain_sys \<Rightarrow> plain_sys res" where
  "plain_tick lost api p now s =
     res_bind (policy_metadata p s) (\<lambda>(a, fp).
       let fp1 = fp\<lparr>pp_quantum_ns := pp_quantum_ns fp + (now - pp_last_sched_ns fp)\<rparr>;
           fp2 = fp1\<lparr>pp_quantum_ns := pp_quantum_ns fp1 + 1\<rparr>;
           s1 = put_proc a fp2 s
       in if pp_quantum_ns fp2 \<ge> PLAIN_QUANTUM_NS then
            let fp3 = fp2\<lparr>pp_quantum_ns := 0, pp_last_sched_ns := 0\<rparr>;
                s2 = put_proc a fp3 s1
            in plain_enqueue_task lost api a (Some (LocalRq (k_cpu (kern s2) (pp_task fp3))))
                 IPANEMA_READY_TICK s2
          else Inr s1)"

definition plain_yield :: "plain_lost \<Rightarrow> kapi \<Rightarrow> task \<Rightarrow> plain_sys \<Rightarrow> plain_sys res" where
  "plain_yield lost api p s =
     res_bind (policy_metadata p s) (\<lambda>(a, fp).
       plain_enqueue_task lost api a (Some (LocalRq (k_cpu (kern s) (pp_task fp)))) IPANEMA_READY s)"

definition plain_block :: "kapi \<Rightarrow> task \<Rightarrow> plain_sys \<Rightarrow> plain_sys res" where
  "plain_block api p s =
     res_bind (policy_metadata p s) (\<lambda>(a, fp).
       let c = k_cpu (kern s) (pp_task fp);
           s1 = put_proc a (fp\<lparr>pp_state := state_code IPANEMA_BLOCKED, pp_rq := None\<rparr>) s;
           s2 = upd_core c (\<lambda>fc. fc\<lparr>pc_current := None\<rparr>) s1
       in Inr (call_change_state api (pp_task fp) IPANEMA_BLOCKED
                 (k_cpu (kern s2) (pp_task fp)) None s2))"

definition plain_unblock_prepare ::
    "plain_lost \<Rightarrow> kapi \<Rightarrow> task \<Rightarrow> u32 \<Rightarrow> plain_sys \<Rightarrow> (int \<times> plain_sys) res" where
  "plain_unblock_prepare lost api p num_online s =
     res_map (\<lambda>r. (r, s)) (lost_select_cpu lost api (kern s) p (k_cpu (kern s) p) 0 num_online)"

definition plain_unblock_place :: "plain_lost \<Rightarrow> kapi \<Rightarrow> task \<Rightarrow> plain_sys \<Rightarrow> plain_sys res" where
  "plain_unblock_place lost api p s =
     res_bind (policy_metadata p s) (\<lambda>(a, fp).
       let cpu_dst = k_cpu (kern s) (pp_task fp)
       in plain_enqueue_task lost api a (Some (LocalRq cpu_dst)) IPANEMA_READY s)"

definition plain_unblock_end :: "task \<Rightarrow> plain_sys \<Rightarrow> plain_sys" where
  "plain_unblock_end p s = s"

definition plain_terminate :: "kapi \<Rightarrow> task \<Rightarrow> plain_sys \<Rightarrow> plain_sys res" where
  "plain_terminate api p s =
     res_bind (policy_metadata p s) (\<lambda>(a, fp).
       let c = k_cpu (kern s) (pp_task fp);
           s1 = (if pp_state fp = state_code IPANEMA_RUNNING
                 then upd_core c (\<lambda>fc. fc\<lparr>pc_current := None\<rparr>) s else s);
           s2 = put_proc a (fp\<lparr>pp_state := state_code IPANEMA_TERMINATED, pp_rq := None\<rparr>) s1;
           s3 = call_change_state api (pp_task fp) IPANEMA_TERMINATED
                  (k_cpu (kern s2) (pp_task fp)) None s2
       in Inr (kfree a s3))"

definition plain_schedule :: "kapi \<Rightarrow> cpu \<Rightarrow> u64 \<Rightarrow> plain_sys \<Rightarrow> plain_sys res" where
  "plain_schedule api cpu now s =
     (case first_task api (kern s) (LocalRq cpu) of
        None \<Rightarrow> Inr s
      | Some nxt \<Rightarrow>
          res_bind (policy_metadata nxt s) (\<lambda>(a, fp).
            let fp1 = fp\<lparr>pp_state := state_code IPANEMA_RUNNING, pp_rq := None,
                         pp_quantum_ns := 0, pp_last_sched_ns := now\<rparr>;
                s1 = put_proc a fp1 s;
                s2 = upd_core cpu (\<lambda>fc. fc\<lparr>pc_current := Some a\<rparr>) s1
            in Inr (call_change_state api (pp_task fp1) IPANEMA_RUNNING
                      (k_cpu (kern s2) (pp_task fp1)) None s2)))"

definition plain_load_balance :: "cpu \<Rightarrow> plain_sys \<Rightarrow> plain_sys" where
  "plain_load_balance c s = s"

section \<open>The routine table\<close>

text \<open>
  \<open>balancing_select\<close> is given twice in the table: the last one, \<open>fifo_load_balance\<close>, counts.
\<close>

fun plain_routines :: "plain_lost \<Rightarrow> kapi \<Rightarrow> kevent \<Rightarrow> plain_sys \<Rightarrow> plain_sys res" where
  "plain_routines lost api (NewPrepare p flags al n) s = res_map snd (plain_new_prepare lost api p al n s)"
| "plain_routines lost api (NewPlace p) s = plain_new_place lost api p s"
| "plain_routines lost api (NewEnd p) s = Inr (plain_new_end p s)"
| "plain_routines lost api (Tick p c now) s = plain_tick lost api p now s"
| "plain_routines lost api (Yield p) s = plain_yield lost api p s"
| "plain_routines lost api (Block p c) s = plain_block api p s"
| "plain_routines lost api (UnblockPrepare p flags n) s = res_map snd (plain_unblock_prepare lost api p n s)"
| "plain_routines lost api (UnblockPlace p) s = plain_unblock_place lost api p s"
| "plain_routines lost api (UnblockEnd p) s = Inr (plain_unblock_end p s)"
| "plain_routines lost api (Terminate p) s = plain_terminate api p s"
| "plain_routines lost api (Schedule c now) s = plain_schedule api c now s"
| "plain_routines lost api (CoreEntry c) s = Inr (plain_core_entry c s)"
| "plain_routines lost api (CoreExit c) s = Inr (plain_core_exit c s)"
| "plain_routines lost api (NewlyIdle c) s = Inr (plain_newly_idle c s)"
| "plain_routines lost api (EnterIdle c) s = Inr (plain_enter_idle c s)"
| "plain_routines lost api (ExitIdle c) s = Inr (lost_exit_idle lost c s)"
| "plain_routines lost api (BalancingSelect c) s = Inr (plain_load_balance c s)"
| "plain_routines lost api (SetTaskCpu p c) s = Inr (set_task_cpu p c s)"

section \<open>Loading and unloading the module\<close>

definition plain_init :: int where
  "plain_init = 0"

definition plain_free_metadata :: "addr option \<Rightarrow> plain_sys \<Rightarrow> int \<times> plain_sys" where
  "plain_free_metadata policy_data s =
     (case policy_data of None \<Rightarrow> (0, s) | Some a \<Rightarrow> (0, kfree a s))"

definition plain_can_be_default :: int where
  "plain_can_be_default = 1"

definition plain_attach :: "task \<Rightarrow> string \<Rightarrow> bool" where
  "plain_attach p command = True"

definition plain_init_core :: "kapi \<Rightarrow> cpu \<Rightarrow> plain_sys \<Rightarrow> plain_sys" where
  "plain_init_core api cpu s =
     (let s1 = upd_core cpu (\<lambda>c. c\<lparr>pc_id := cpu, pc_state := IPANEMA_ACTIVE_CORE\<rparr>) s;
          s2 = s1\<lparr>kern := init_rq api (LocalRq cpu) (kern s1)\<rparr>
      in s2\<lparr>plain_online := cpumask_set_cpu cpu (plain_online s2)\<rparr>)"

definition plain_mod_init ::
    "kapi \<Rightarrow> cpu list \<Rightarrow> bool \<Rightarrow> int \<Rightarrow> plain_sys \<Rightarrow> module \<Rightarrow> int \<times> plain_sys \<times> module" where
  "plain_mod_init api possible_cpus policy_ok add_res s m =
     (let s1 = fold (plain_init_core api) possible_cpus s
      in if \<not> policy_ok then (- ENOMEM, s1, m)
         else
           let m1 = m\<lparr>policy_allocated := True, policy_registered := (add_res = 0)\<rparr>;
               m2 = (if add_res \<noteq> 0 then m1\<lparr>policy_allocated := False\<rparr> else m1);
               m3 = m2\<lparr>proc_entry := True\<rparr>
           in (add_res, s1, m3))"

definition plain_exit :: "module \<Rightarrow> module" where
  "plain_exit m = m\<lparr>policy_registered := False, policy_allocated := False, proc_entry := False\<rparr>"

lemmas plain_defs =
  plain_core_entry_def plain_core_exit_def plain_newly_idle_def plain_enter_idle_def
  plain_enqueue_task_def plain_new_prepare_def plain_new_place_def plain_new_end_def
  plain_tick_def plain_yield_def plain_block_def plain_unblock_prepare_def
  plain_unblock_place_def plain_unblock_end_def plain_terminate_def plain_schedule_def
  plain_load_balance_def

end
