(* ===== verification/FifoPlain_Correct.thy ===== *)
theory FifoPlain_Correct
  imports FifoPlain Shared_Inv Fifo_Refine
begin

text \<open>
  modules/fifo/fifo.c: the invariant of the policy, what each handler does to the kernel, and the
  refinement of the abstract scheduler with one FIFO queue per core, whatever the damaged lines of the file
  did, as long as the missing functions return and leave the kernel and the objects alone.
\<close>

section \<open>The invariant\<close>

text \<open>No handler reads \<open>curr\<close> of a core, which the missing head of the enqueue helper writes.\<close>

definition plain_inv :: "plain_sys \<Rightarrow> bool" where
  "plain_inv s \<longleftrightarrow> policy_inv pp_state pp_task pp_rq (kern s) (heap s) \<and> current_ok (kern s)"

lemma plain_inv_parts:
  assumes "plain_inv s"
  shows "policy_inv pp_state pp_task pp_rq (kern s) (heap s)" "current_ok (kern s)" "kernel_wf (kern s)"
  using assms by (auto simp: plain_inv_def dest: policy_inv_wf)

text \<open>It is about the kernel and the objects only.\<close>

lemma plain_inv_same: "plain_inv s \<Longrightarrow> kern t = kern s \<Longrightarrow> heap t = heap s \<Longrightarrow> plain_inv t"
  by (simp add: plain_inv_def)

lemma plain_object:
  assumes "plain_inv s" and "attached (kern s) p"
  shows "\<exists>a fp. k_meta (kern s) p = Some a \<and> heap s a = Some fp \<and>
    policy_metadata p s = Inr (a, fp) \<and> pp_task fp = p"
  using attached_object [of pp_state pp_task pp_rq "kern s" "heap s" p] assms
  by (fastforce simp: plain_inv_def policy_metadata_Inr)

lemma plain_current:
  assumes "plain_inv s" and "k_current (kern s) c = Some p"
  shows "attached (kern s) p" and "k_state (kern s) p = IPANEMA_RUNNING" and "k_cpu (kern s) p = c"
  using assms by (auto simp: plain_inv_def dest: current_okD)

lemma plain_inv_put:
  assumes "plain_inv s" and "heap s a = Some fp" and "pp_task fp' = pp_task fp"
    and "pp_state fp' = pp_state fp" and "pp_rq fp' = pp_rq fp"
  shows "plain_inv (put_proc a fp' s)"
  using assms by (auto simp: plain_inv_def intro: policy_inv_update)

section \<open>Every handler keeps it\<close>

text \<open>
  A tick ends the quantum of a thread when the time since its election and one nanosecond more, added to
  what has been charged, reach 2 s.
\<close>

definition quantum_over :: "task \<Rightarrow> u64 \<Rightarrow> plain_sys \<Rightarrow> bool" where
  "quantum_over p now s = (case policy_metadata p s of
     Inl _ \<Rightarrow> False
   | Inr (a, fp) \<Rightarrow> PLAIN_QUANTUM_NS \<le> pp_quantum_ns fp + (now - pp_last_sched_ns fp) + 1)"

context saakm_framework
begin

text \<open>What the enqueue helper does to the kernel, wherever \<open>fc\<close> points.\<close>

lemma plain_enqueue:
  assumes inv: "plain_inv s" and att: "attached (kern s) p" and meta: "k_meta (kern s) p = Some a"
    and st: "norm_state st = IPANEMA_READY"
  shows "\<exists>t. plain_enqueue_task lost api a (Some (LocalRq (k_cpu (kern s) p))) st s = Inr t \<and>
    plain_inv t \<and>
    kern t = change_state api p st (k_cpu (kern s) p) (Some (LocalRq (k_cpu (kern s) p))) (kern s)"
proof -
  obtain fp where fp: "heap s a = Some fp" "pp_task fp = p" using plain_object [OF inv att] meta by auto
  let ?r = "Some (LocalRq (k_cpu (kern s) p))"
  let ?h = "(heap s)(a \<mapsto> fp\<lparr>pp_state := state_code st, pp_rq := ?r\<rparr>)"
  have live: "st \<noteq> IPANEMA_TERMINATED" "st \<noteq> IPANEMA_RUNNING" using st by auto
  have "policy_inv pp_state pp_task pp_rq (change_state api p st (k_cpu (kern s) p) ?r (kern s)) ?h"
    by (rule policy_inv_change_state [OF plain_inv_parts(1) [OF inv] att meta]) (simp_all add: fp live st)
  moreover have "current_ok (change_state api p st (k_cpu (kern s) p) ?r (kern s))"
    by (rule current_ok_leave [OF plain_inv_parts(2) [OF inv] live(2)])
  ultimately show ?thesis using fp by (auto simp: plain_enqueue_task_def plain_inv_def sys_defs Let_def)
qed

lemma plain_place:
  assumes inv: "plain_inv s" and att: "attached (kern s) p"
  defines "k' \<equiv> change_state api p IPANEMA_READY (k_cpu (kern s) p) (Some (LocalRq (k_cpu (kern s) p))) (kern s)"
  shows "\<exists>t. plain_new_place lost api p s = Inr t \<and> plain_inv t \<and> kern t = k'"
    and "\<exists>t. plain_unblock_place lost api p s = Inr t \<and> plain_inv t \<and> kern t = k'"
    and "\<exists>t. plain_yield lost api p s = Inr t \<and> plain_inv t \<and> kern t = k'"
proof -
  obtain a fp where a: "k_meta (kern s) p = Some a" "policy_metadata p s = Inr (a, fp)" "pp_task fp = p"
    using plain_object [OF inv att] by blast
  have "\<exists>t. plain_enqueue_task lost api a (Some (LocalRq (k_cpu (kern s) p))) IPANEMA_READY s = Inr t \<and>
      plain_inv t \<and> kern t = k'"
    using plain_enqueue [OF inv att a(1), of IPANEMA_READY] by (simp add: k'_def)
  with a show "\<exists>t. plain_new_place lost api p s = Inr t \<and> plain_inv t \<and> kern t = k'"
    and "\<exists>t. plain_unblock_place lost api p s = Inr t \<and> plain_inv t \<and> kern t = k'"
    and "\<exists>t. plain_yield lost api p s = Inr t \<and> plain_inv t \<and> kern t = k'"
    by (simp_all add: plain_new_place_def plain_unblock_place_def plain_yield_def)
qed

lemma plain_tick_effect:
  assumes inv: "plain_inv s" and att: "attached (kern s) p"
  shows "\<exists>t. plain_tick lost api p now s = Inr t \<and> plain_inv t \<and> kern t =
    (if quantum_over p now s
     then change_state api p IPANEMA_READY_TICK (k_cpu (kern s) p)
            (Some (LocalRq (k_cpu (kern s) p))) (kern s)
     else kern s)"
proof -
  obtain a fp where a: "k_meta (kern s) p = Some a" "heap s a = Some fp"
    "policy_metadata p s = Inr (a, fp)" "pp_task fp = p"
    using plain_object [OF inv att] by blast
  let ?fp = "fp\<lparr>pp_quantum_ns := pp_quantum_ns fp + (now - pp_last_sched_ns fp) + 1\<rparr>"
  let ?s = "put_proc a ?fp s" and ?z = "put_proc a (?fp\<lparr>pp_quantum_ns := 0, pp_last_sched_ns := 0\<rparr>) (put_proc a ?fp s)"
  have inv1: "plain_inv ?s" by (rule plain_inv_put [OF inv a(2)]) simp_all
  have inv2: "plain_inv ?z" by (rule plain_inv_put [OF inv1, of a ?fp]) simp_all
  from plain_enqueue [OF inv2, of p a IPANEMA_READY_TICK lost] att a inv1
  show ?thesis by (auto simp: plain_tick_def quantum_over_def Let_def)
qed

lemma plain_block_effect:
  assumes inv: "plain_inv s" and att: "attached (kern s) p"
  shows "\<exists>t. plain_block api p s = Inr t \<and> plain_inv t \<and>
    kern t = change_state api p IPANEMA_BLOCKED (k_cpu (kern s) p) None (kern s)"
proof -
  obtain a fp where a: "k_meta (kern s) p = Some a" "heap s a = Some fp"
    "policy_metadata p s = Inr (a, fp)" "pp_task fp = p"
    using plain_object [OF inv att] by blast
  let ?h = "(heap s)(a \<mapsto> fp\<lparr>pp_state := state_code IPANEMA_BLOCKED, pp_rq := None\<rparr>)"
  have "policy_inv pp_state pp_task pp_rq
      (change_state api p IPANEMA_BLOCKED (k_cpu (kern s) p) None (kern s)) ?h"
    by (rule policy_inv_change_state [OF plain_inv_parts(1) [OF inv] att a(1)]) (simp_all add: a)
  moreover have "current_ok (change_state api p IPANEMA_BLOCKED (k_cpu (kern s) p) None (kern s))"
    by (rule current_ok_leave [OF plain_inv_parts(2) [OF inv]]) simp
  ultimately show ?thesis using a by (simp add: plain_block_def plain_inv_def sys_defs Let_def)
qed

lemma plain_terminate_effect:
  assumes inv: "plain_inv s" and att: "attached (kern s) p"
  shows "\<exists>t. plain_terminate api p s = Inr t \<and> plain_inv t \<and>
    kern t = change_state api p IPANEMA_TERMINATED (k_cpu (kern s) p) None (kern s)"
proof -
  obtain a fp where a: "k_meta (kern s) p = Some a" "heap s a = Some fp"
    "policy_metadata p s = Inr (a, fp)" "pp_task fp = p"
    using plain_object [OF inv att] by blast
  have "policy_inv pp_state pp_task pp_rq
      (change_state api p IPANEMA_TERMINATED (k_cpu (kern s) p) None (kern s)) ((heap s)(a := None))"
    by (rule policy_inv_terminate [OF plain_inv_parts(1) [OF inv] att a(1)]) simp
  moreover have "current_ok (change_state api p IPANEMA_TERMINATED (k_cpu (kern s) p) None (kern s))"
    by (rule current_ok_leave [OF plain_inv_parts(2) [OF inv]]) simp
  ultimately show ?thesis using a by (simp add: plain_terminate_def plain_inv_def sys_defs Let_def)
qed

lemma plain_schedule_effect:
  assumes inv: "plain_inv s"
  shows "\<exists>t. plain_schedule api c now s = Inr t \<and> plain_inv t \<and>
    kern t = (case k_queue (kern s) (LocalRq c) of
        [] \<Rightarrow> kern s
      | p # ps \<Rightarrow> change_state api p IPANEMA_RUNNING c None (kern s))"
proof (cases "k_queue (kern s) (LocalRq c)")
  case Nil
  with inv show ?thesis by (simp add: plain_schedule_def first_task)
next
  case (Cons p ps)
  note pol = plain_inv_parts(1) [OF inv]
  have q: "p \<in> set (k_queue (kern s) (LocalRq c))" using Cons by simp
  note pq = policy_inv_queued [OF pol q]
  have cpu: "k_cpu (kern s) p = c" using pq(2) by simp
  obtain a fp where a: "k_meta (kern s) p = Some a" "heap s a = Some fp"
    "policy_metadata p s = Inr (a, fp)" "pp_task fp = p"
    using plain_object [OF inv pq(1)] by blast
  let ?fp = "fp\<lparr>pp_state := state_code IPANEMA_RUNNING, pp_rq := None, pp_quantum_ns := 0, pp_last_sched_ns := now\<rparr>"
  have "policy_inv pp_state pp_task pp_rq
      (change_state api p IPANEMA_RUNNING (k_cpu (kern s) p) None (kern s)) ((heap s)(a \<mapsto> ?fp))"
    by (rule policy_inv_change_state [OF pol pq(1) a(1)]) (simp_all add: a)
  moreover have "current_ok (change_state api p IPANEMA_RUNNING c None (kern s))"
    by (rule current_ok_start [OF plain_inv_parts(2) [OF inv]]) (use a pq cpu in auto)
  ultimately show ?thesis
    using Cons a cpu by (simp add: plain_schedule_def first_task plain_inv_def sys_defs Let_def)
qed

end

lemma plain_set_cpu:
  assumes inv: "plain_inv s" and pr: "protocol (SetTaskCpu p c) s"
  shows "plain_inv (set_task_cpu p c s)"
proof -
  have "policy_inv pp_state pp_task pp_rq ((kern s)\<lparr>k_cpu := (k_cpu (kern s))(p := c)\<rparr>) (heap s)"
    by (rule policy_inv_set_cpu [OF plain_inv_parts(1) [OF inv]]) (use pr in simp)
  moreover have "current_ok ((kern s)\<lparr>k_cpu := (k_cpu (kern s))(p := c)\<rparr>)"
    using plain_inv_parts(2) [OF inv] pr by (auto simp: current_ok_def)
  ultimately show ?thesis by (simp add: plain_inv_def set_task_cpu_def)
qed

section \<open>The missing functions\<close>

text \<open>What the missing choice of a cpu answers when it is called for an event: the fault it has, if any.\<close>

definition fault_of :: "'a res \<Rightarrow> fault option" where
  "fault_of r = (case r of Inl f \<Rightarrow> Some f | Inr _ \<Rightarrow> None)"

fun lost_fault :: "plain_lost \<Rightarrow> kapi \<Rightarrow> kevent \<Rightarrow> plain_sys \<Rightarrow> fault option" where
  "lost_fault lost api (NewPrepare p flags al n) s =
     (case al of None \<Rightarrow> None
      | Some a \<Rightarrow> fault_of (lost_select_cpu lost api ((kern s)\<lparr>k_meta := (k_meta (kern s))(p \<mapsto> a)\<rparr>) p
          (k_cpu (kern s) p) 0 n))"
| "lost_fault lost api (UnblockPrepare p flags n) s =
     fault_of (lost_select_cpu lost api (kern s) p (k_cpu (kern s) p) 0 n)"
| "lost_fault lost api e s = None"

text \<open>
  The events the framework delivers; the missing handler of the end of idleness leaves the threads and their
  objects alone.
\<close>

fun plain_protocol :: "plain_lost \<Rightarrow> kevent \<Rightarrow> plain_sys \<Rightarrow> bool" where
  "plain_protocol lost (ExitIdle c) s =
     (kern (lost_exit_idle lost c s) = kern s \<and> heap (lost_exit_idle lost c s) = heap s)"
| "plain_protocol lost e s = protocol e s"

lemma plain_protocol_protocol: "plain_protocol lost e s \<Longrightarrow> protocol e s"
  by (cases e) simp_all

definition plain_en :: "plain_lost \<Rightarrow> kapi \<Rightarrow> kevent \<Rightarrow> plain_sys \<Rightarrow> bool" where
  "plain_en lost api e s \<longleftrightarrow> plain_protocol lost e s \<and> lost_fault lost api e s = None"

lemma plain_unblock_prepare_outcome:
  "case lost_fault lost api (UnblockPrepare p flags n) s of
     Some f \<Rightarrow> plain_unblock_prepare lost api p n s = Inl f
   | None \<Rightarrow> \<exists>r. plain_unblock_prepare lost api p n s = Inr (r, s)"
  by (auto simp: plain_unblock_prepare_def fault_of_def split: sum.splits)

lemma plain_new_prepare_outcome:
  assumes inv: "plain_inv s" and pr: "protocol (NewPrepare p flags al n) s"
  shows "case lost_fault lost api (NewPrepare p flags al n) s of
     Some f \<Rightarrow> plain_new_prepare lost api p al n s = Inl f
   | None \<Rightarrow> \<exists>r t. plain_new_prepare lost api p al n s = Inr (r, t) \<and> plain_inv t \<and>
       kern t = (case al of None \<Rightarrow> kern s | Some a \<Rightarrow> (kern s)\<lparr>k_meta := (k_meta (kern s))(p \<mapsto> a)\<rparr>)"
proof (cases al)
  case None
  with inv show ?thesis by (simp add: plain_new_prepare_def)
next
  case (Some a)
  let ?fp = "\<lparr>pp_state = 0, pp_task = p, pp_rq = None, pp_quantum_ns = 0, pp_last_sched_ns = 0\<rparr>"
  let ?k = "(kern s)\<lparr>k_meta := (k_meta (kern s))(p \<mapsto> a)\<rparr>"
  have "policy_inv pp_state pp_task pp_rq ?k ((heap s)(a \<mapsto> ?fp))"
    by (rule policy_inv_attach [OF plain_inv_parts(1) [OF inv]]) (use pr Some in simp_all)
  moreover have "current_ok ?k" using plain_inv_parts(2) [OF inv] by (auto simp: current_ok_def)
  ultimately have "plain_inv (set_metadata p a (put_proc a ?fp s))" by (simp add: plain_inv_def sys_defs)
  with Some show ?thesis
    by (auto simp: plain_new_prepare_def fault_of_def sys_defs Let_def split: sum.splits)
qed

section \<open>The policy refines the scheduler with one queue per core\<close>

fun plain_op :: "kevent \<Rightarrow> plain_sys \<Rightarrow> aop" where
  "plain_op (NewPlace p) s = Place p (k_cpu (kern s) p)"
| "plain_op (UnblockPlace p) s = Place p (k_cpu (kern s) p)"
| "plain_op (Tick p c now) s = (if quantum_over p now s then Preempt p c else Skip)"
| "plain_op (Yield p) s = Preempt p (k_cpu (kern s) p)"
| "plain_op (Block p c) s = Leave p"
| "plain_op (Terminate p) s = Leave p"
| "plain_op (Schedule c now) s = Elect c"
| "plain_op _ s = Skip"

lemma plain_unqueued:
  "plain_inv s \<Longrightarrow> norm_state (k_state (kern s) p) \<noteq> IPANEMA_READY \<Longrightarrow> k_rq (kern s) p = None"
  by (cases "k_rq (kern s) p") (auto simp: plain_inv_def policy_inv_def queue_ok_def)

context saakm_framework
begin

lemma plain_abs_place:
  assumes inv: "plain_inv s"
    and st: "k_state (kern s) p = IPANEMA_NOT_QUEUED \<or> k_state (kern s) p = IPANEMA_BLOCKED"
  shows "abs_fifo (change_state api p IPANEMA_READY (k_cpu (kern s) p) (Some (LocalRq (k_cpu (kern s) p))) (kern s))
    = a_step (Place p (k_cpu (kern s) p)) (abs_fifo (kern s))"
proof (rule abs_place [OF plain_inv_parts(3) [OF inv]])
  show "k_rq (kern s) p = None" by (rule plain_unqueued [OF inv]) (use st in auto)
  show "k_current (kern s) d \<noteq> Some p" for d using st plain_current(2) [OF inv, of d p] by auto
qed simp

lemma plain_abs_preempt:
  assumes inv: "plain_inv s" and cur: "k_current (kern s) c = Some p" and st: "st \<noteq> IPANEMA_RUNNING"
  shows "abs_fifo (change_state api p st (k_cpu (kern s) p) (Some (LocalRq (k_cpu (kern s) p))) (kern s))
    = a_step (Preempt p c) (abs_fifo (kern s))"
proof -
  have cpu: "k_cpu (kern s) p = c" using plain_current(3) [OF inv cur] .
  have "k_rq (kern s) p = None" by (rule plain_unqueued [OF inv]) (use plain_current(2) [OF inv cur] in simp)
  moreover have "k_current (kern s) d = Some p \<longleftrightarrow> d = c" for d
    using plain_current(3) [OF inv, of d p] cpu cur by auto
  ultimately show ?thesis using abs_preempt [OF plain_inv_parts(3) [OF inv], of p c st] st cpu by simp
qed

text \<open>Every event: it returns, or it has the fault of the missing function it calls.\<close>

lemma plain_outcome:
  assumes inv: "plain_inv s" and prot: "plain_protocol lost e s"
  shows "case lost_fault lost api e s of
     Some f \<Rightarrow> plain_routines lost api e s = Inl f
   | None \<Rightarrow> \<exists>t. plain_routines lost api e s = Inr t \<and> plain_inv t \<and>
       abs_fifo (kern t) = a_step (plain_op e s) (abs_fifo (kern s))"
proof -
  note pr = plain_protocol_protocol [OF prot] and wf = plain_inv_parts(3) [OF inv]
  show ?thesis
  proof (cases e)
    case (NewPrepare p flags al n)
    with pr plain_new_prepare_outcome [OF inv, of p flags al n lost api] show ?thesis
      by (auto simp: abs_fifo_def split: option.splits)
  next
    case (NewPlace p)
    with pr plain_place(1) [OF inv, of p lost] plain_abs_place [OF inv, of p] show ?thesis by fastforce
  next
    case (UnblockPlace p)
    with pr plain_place(2) [OF inv, of p lost] plain_abs_place [OF inv, of p] show ?thesis by fastforce
  next
    case (Yield p)
    with pr have cur: "k_current (kern s) (k_cpu (kern s) p) = Some p" by simp
    from plain_place(3) [OF inv plain_current(1) [OF inv cur], of lost]
      plain_abs_preempt [OF inv cur, of IPANEMA_READY] Yield
    show ?thesis by fastforce
  next
    case (Tick p c now)
    with pr have cur: "k_current (kern s) c = Some p" by auto
    obtain t where "plain_tick lost api p now s = Inr t" "plain_inv t"
      "kern t = (if quantum_over p now s then change_state api p IPANEMA_READY_TICK (k_cpu (kern s) p)
        (Some (LocalRq (k_cpu (kern s) p))) (kern s) else kern s)"
      using plain_tick_effect [OF inv plain_current(1) [OF inv cur], of lost now] by blast
    with plain_abs_preempt [OF inv cur, of IPANEMA_READY_TICK] Tick show ?thesis by simp
  next
    case (Block p c)
    with pr have cur: "k_current (kern s) c = Some p" by auto
    from plain_block_effect [OF inv plain_current(1) [OF inv cur]] abs_leave [OF wf, of IPANEMA_BLOCKED] Block
    show ?thesis by fastforce
  next
    case (UnblockPrepare p flags n)
    with inv plain_unblock_prepare_outcome [where lost = lost and api = api and p = p and flags = flags and n = n and s = s] show ?thesis
      by (auto split: option.splits)
  next
    case (Terminate p)
    with pr plain_terminate_effect [OF inv, of p] abs_leave [OF wf, of IPANEMA_TERMINATED]
    show ?thesis by fastforce
  next
    case (Schedule c now)
    obtain t where t: "plain_schedule api c now s = Inr t" "plain_inv t"
      "kern t = (case k_queue (kern s) (LocalRq c) of [] \<Rightarrow> kern s
        | p # ps \<Rightarrow> change_state api p IPANEMA_RUNNING c None (kern s))"
      using plain_schedule_effect [OF inv] by blast
    show ?thesis
    proof (cases "k_queue (kern s) (LocalRq c)")
      case Nil
      with t Schedule show ?thesis by (simp add: abs_fifo_def)
    next
      case (Cons p ps)
      with t Schedule abs_elect [OF wf Cons] show ?thesis by simp
    qed
  next
    case (ExitIdle c)
    with prot have "kern (lost_exit_idle lost c s) = kern s" "heap (lost_exit_idle lost c s) = heap s" by simp_all
    with plain_inv_same [OF inv, of "lost_exit_idle lost c s"] ExitIdle show ?thesis by simp
  next
    case (SetTaskCpu p c)
    with plain_set_cpu [OF inv] pr show ?thesis by (simp add: abs_fifo_def set_task_cpu_def)
  qed (use inv in \<open>auto simp: plain_defs upd_core_def Let_def intro: plain_inv_same\<close>)
qed

lemma plain_step:
  assumes "plain_inv s" and "plain_en lost api e s"
  shows "\<exists>t. plain_routines lost api e s = Inr t \<and> plain_inv t \<and>
    abs_fifo (kern t) = a_step (plain_op e s) (abs_fifo (kern s))"
  using plain_outcome [OF assms(1), of lost e] assms(2) by (simp add: plain_en_def)

text \<open>Loading.\<close>

lemma plain_init_inv:
  assumes "fresh_kernel (kern s0)" and "plain_mod_init api cpus ok res s0 m = (r, s, m1)"
  shows "plain_inv s"
proof -
  have "fresh_kernel (kern u) \<Longrightarrow> fresh_kernel (kern (fold (plain_init_core api) cpus u))" for u
    by (induction cpus arbitrary: u) (simp_all add: plain_init_core_def upd_core_def fresh_init_rq Let_def)
  with assms have f: "fresh_kernel (kern s)" by (auto simp: plain_mod_init_def Let_def split: if_splits)
  then have "current_ok (kern s)" by (simp add: current_ok_def fresh_kernel_def)
  with fresh_policy_inv [OF f] show ?thesis by (simp add: plain_inv_def)
qed

end

sublocale saakm_framework \<subseteq> plain: refining_policy "plain_routines lost api" "plain_en lost api" plain_inv
    "\<lambda>s. abs_fifo (kern s)" plain_op a_step for lost
proof unfold_locales
  fix s e assume "plain_inv s" and "plain_en lost api e s"
  then show "\<exists>t. plain_routines lost api e s = Inr t \<and> plain_inv t" using plain_step by blast
next
  fix s e t assume "plain_inv s" and "plain_en lost api e s" and "plain_routines lost api e s = Inr t"
  then show "abs_fifo (kern t) = a_step (plain_op e s) (abs_fifo (kern s))"
    using plain_step [of s lost e] by auto
qed

context saakm_framework
begin

lemma plain_run_refines:
  "plain_inv s \<Longrightarrow> admissible (plain_routines lost api) (plain_en lost api) es s \<Longrightarrow>
    \<exists>t. run (plain_routines lost api) es s = Inr t \<and> plain_inv t \<and>
      abs_fifo (kern t) = fold a_step (ops_of (plain_routines lost api) plain_op es s) (abs_fifo (kern s))"
  by (rule plain.run_refines)

end

end
