(* ===== verification/FifoPlain_Props.thy ===== *)
theory FifoPlain_Props
  imports FifoPlain_Correct
begin

text \<open>
  The properties of modules/fifo/fifo.c: its cores are first in, first out, and when its quantum ends.
\<close>

section \<open>Order of the cores\<close>

text \<open>C9 modules/fifo/fifo.c, whatever the missing lines of the file do, as long as the missing choice of a
  cpu returns without touching the state and the missing handler of the end of idleness leaves the threads
  and their objects alone: loaded into a fresh kernel, no run of events that the framework delivers faults,
  and every such run is a run of the scheduler with one FIFO queue per core. A placed thread enters the
  queue of its cpu at the tail; a yield sends the running thread there, and so does a tick, exactly when
  the charge of the thread, the time since its election and one nanosecond reach 2 s together; block
  and terminate take the thread away; and a core elects the head of its queue.\<close>

theorem plain_run_is_fifo:
  assumes fw: "saakm_framework api" and fresh: "fresh_kernel (kern s0)"
    and init: "plain_mod_init api cpus ok res s0 m = (r, s, m1)"
    and run: "admissible (plain_routines lost api) (plain_en lost api) es s"
  shows "\<exists>t. run (plain_routines lost api) es s = Inr t \<and>
    abs_fifo (kern t) = fold a_step (ops_of (plain_routines lost api) plain_op es s) (abs_fifo (kern s))"
  using saakm_framework.plain_run_refines [OF fw saakm_framework.plain_init_inv [OF fw fresh init] run] by blast

section \<open>A run\<close>

text \<open>Missing functions that do what those of modules/fifo_benchs/fifo.c do.\<close>

definition plain_ref_lost :: plain_lost where
  "plain_ref_lost = \<lparr>lost_select_cpu = select_cpu,
     lost_exit_idle = (\<lambda>c. upd_core c (\<lambda>x. x\<lparr>pc_state := IPANEMA_ACTIVE_CORE\<rparr>)),
     lost_fc = (\<lambda>k fp. k_cpu k (pp_task fp))\<rparr>"

definition plain_demo :: plain_sys where
  "plain_demo = \<lparr>kern = idle_kernel,
     cores = (\<lambda>c. \<lparr>pc_state = IPANEMA_IDLE_CORE, pc_id = 0, pc_current = None\<rparr>),
     heap = (\<lambda>_. None), trace = [], plain_online = {||}\<rparr>"

definition plain_script :: "kevent list" where
  "plain_script = [NewPrepare 7 0 (Some 100) 4, SetTaskCpu 7 3, NewPlace 7, Schedule 3 0, Tick 7 3 3000000000]"

lemmas plain_eval = plain_demo_def plain_script_def plain_ref_lost_def idle_kernel_def plain_mod_init_def
  plain_init_core_def sys_defs ref_change_state_def ref_first_task_def ref_remove_task_def
  ref_init_rq_def Let_def attached_def policy_metadata_def plain_defs select_cpu_def PLAIN_QUANTUM_NS_def

text \<open>A thread is created, sent to cpu 3, placed and elected there, and preempted after 3 s.\<close>

theorem plain_run_is_fifo_witness:
  "\<exists>t. run (plain_routines plain_ref_lost ref_api) plain_script
      (fst (snd (plain_mod_init ref_api [0, 2, 3] True 0 plain_demo no_module))) = Inr t \<and>
    k_queue (kern t) (LocalRq 3) = [7] \<and> k_current (kern t) 3 = None"
proof -
  let ?i = "plain_mod_init ref_api [0, 2, 3] True 0 plain_demo no_module"
  let ?s = "fst (snd ?i)" and ?step = "plain_routines plain_ref_lost ref_api"
  have fresh: "fresh_kernel (kern plain_demo)" by (simp add: plain_demo_def)
  have i: "?i = (fst ?i, ?s, snd (snd ?i))" by simp
  have "admissible ?step (plain_en plain_ref_lost ref_api) plain_script ?s"
    by (simp add: plain_eval plain_en_def fault_of_def)
  moreover have "ops_of ?step plain_op plain_script ?s = [Skip, Skip, Place 7 3, Elect 3, Preempt 7 3]"
    by (simp add: plain_eval quantum_over_def)
  moreover have "abs_fifo (kern ?s) = abs_fifo idle_kernel" by (auto simp: plain_eval abs_fifo_def fun_eq_iff)
  ultimately obtain t where "run ?step plain_script ?s = Inr t"
    "abs_fifo (kern t) = fold a_step [Skip, Skip, Place 7 3, Elect 3, Preempt 7 3] (abs_fifo idle_kernel)"
    using plain_run_is_fifo [OF ref.saakm_framework_axioms fresh i] by metis
  then show ?thesis by (simp add: abs_fifo_def fun_eq_iff idle_kernel_def)
qed

section \<open>The quantum\<close>

text \<open>The charge after \<open>k\<close> ticks, \<open>d\<close> nanoseconds apart.\<close>

definition ticks_charge :: "nat \<Rightarrow> nat \<Rightarrow> nat" where
  "ticks_charge d k = k * (k + 1) div 2 * d + k"

lemma ticks_charge_Suc: "ticks_charge d (Suc k) = ticks_charge d k + Suc k * d + 1"
proof -
  have "Suc k * (Suc k + 1) div 2 = k * (k + 1) div 2 + Suc k" by simp
  then show ?thesis unfolding ticks_charge_def by (simp only: add_mult_distrib)
qed

lemma ticks_charge_mono: "j \<le> k \<Longrightarrow> ticks_charge d j \<le> ticks_charge d k"
  by (induction k) (auto simp: ticks_charge_Suc le_Suc_eq)

lemma quantum_le:
  "x < 2 ^ 64 \<Longrightarrow> PLAIN_QUANTUM_NS \<le> (of_nat x :: ulong) \<longleftrightarrow> 2000000000 \<le> x"
  by (simp add: PLAIN_QUANTUM_NS_def word_le_nat_alt unsigned_of_nat take_bit_nat_eq_self)

text \<open>One tick, \<open>k + 1\<close> periods after the election.\<close>

lemma plain_tick_next:
  assumes m: "policy_metadata p s = Inr (a, pp)" and pp: "pp_task pp = p"
    "pp_quantum_ns pp = of_nat (ticks_charge d k)" "pp_last_sched_ns pp = l"
    and lt: "ticks_charge d (Suc k) < 2 ^ 64"
  shows "ticks_charge d (Suc k) < 2000000000 \<Longrightarrow>
      \<exists>t. plain_tick lost api p (l + of_nat (Suc k * d)) s = Inr t \<and> kern t = kern s \<and>
        policy_metadata p t = Inr (a, pp\<lparr>pp_quantum_ns := of_nat (ticks_charge d (Suc k))\<rparr>)"
    and "2000000000 \<le> ticks_charge d (Suc k) \<Longrightarrow>
      \<exists>t. plain_tick lost api p (l + of_nat (Suc k * d)) s = Inr t \<and>
        kern t = change_state api p IPANEMA_READY_TICK (k_cpu (kern s) p)
          (Some (LocalRq (k_cpu (kern s) p))) (kern s)"
proof -
  have q: "pp_quantum_ns pp + (l + of_nat (Suc k * d) - pp_last_sched_ns pp) + 1 =
      of_nat (ticks_charge d (Suc k))"
    unfolding pp ticks_charge_Suc by simp
  have h: "k_meta (kern s) p = Some a" using m by (simp add: policy_metadata_Inr)
  have tick: "plain_tick lost api p (l + of_nat (Suc k * d)) s =
      (let s1 = put_proc a (pp\<lparr>pp_quantum_ns := of_nat (ticks_charge d (Suc k))\<rparr>) s
       in if PLAIN_QUANTUM_NS \<le> (of_nat (ticks_charge d (Suc k)) :: ulong)
          then plain_enqueue_task lost api a (Some (LocalRq (k_cpu (kern s) p))) IPANEMA_READY_TICK
            (put_proc a (pp\<lparr>pp_quantum_ns := 0, pp_last_sched_ns := 0\<rparr>) s1)
          else Inr s1)"
    using m pp(1) q by (simp add: plain_tick_def Let_def del: of_nat_Suc of_nat_mult)
  show "ticks_charge d (Suc k) < 2000000000 \<Longrightarrow>
      \<exists>t. plain_tick lost api p (l + of_nat (Suc k * d)) s = Inr t \<and> kern t = kern s \<and>
        policy_metadata p t = Inr (a, pp\<lparr>pp_quantum_ns := of_nat (ticks_charge d (Suc k))\<rparr>)"
    unfolding tick using quantum_le [OF lt] h by (simp add: put_proc_def policy_metadata_Inr Let_def)
  show "2000000000 \<le> ticks_charge d (Suc k) \<Longrightarrow>
      \<exists>t. plain_tick lost api p (l + of_nat (Suc k * d)) s = Inr t \<and>
        kern t = change_state api p IPANEMA_READY_TICK (k_cpu (kern s) p)
          (Some (LocalRq (k_cpu (kern s) p))) (kern s)"
    unfolding tick using quantum_le [OF lt] pp(1) by (simp add: plain_enqueue_task_def sys_defs Let_def)
qed

lemma plain_ticks:
  assumes m: "policy_metadata p s = Inr (a, pp)" and pp: "pp_task pp = p"
    "pp_quantum_ns pp = 0" "pp_last_sched_ns pp = l"
    and lt: "ticks_charge d k < 2000000000"
  shows "\<exists>t. run (plain_routines lost api) (map (\<lambda>i. Tick p c (l + of_nat (i * d))) [1..<Suc k]) s = Inr t \<and>
    kern t = kern s \<and> policy_metadata p t = Inr (a, pp\<lparr>pp_quantum_ns := of_nat (ticks_charge d k)\<rparr>)"
  using lt
proof (induction k)
  case 0
  have "pp\<lparr>pp_quantum_ns := 0\<rparr> = pp" using pp(2) by simp
  then show ?case using m by (simp add: ticks_charge_def)
next
  case (Suc k)
  have "ticks_charge d k \<le> ticks_charge d (Suc k)" by (rule ticks_charge_mono) simp
  with Suc obtain t where t: "run (plain_routines lost api) (map (\<lambda>i. Tick p c (l + of_nat (i * d))) [1..<Suc k]) s = Inr t"
    "kern t = kern s" "policy_metadata p t = Inr (a, pp\<lparr>pp_quantum_ns := of_nat (ticks_charge d k)\<rparr>)" by fastforce
  from plain_tick_next(1) [OF t(3), of d k l lost api] pp Suc.prems obtain u where
    "plain_tick lost api p (l + of_nat (Suc k * d)) t = Inr u" "kern u = kern t"
    "policy_metadata p u = Inr (a, pp\<lparr>pp_quantum_ns := of_nat (ticks_charge d (Suc k))\<rparr>)" by auto
  with t show ?case by (simp add: run_append del: of_nat_Suc of_nat_mult)
qed

text \<open>The quantum of modules/fifo/fifo.c: with a tick every \<open>d\<close> nanoseconds a thread is charged
  \<open>k(k+1)/2\<close> times \<open>d\<close> plus \<open>k\<close> nanoseconds after \<open>k\<close> ticks, because every tick charges the
  whole time since its election and one nanosecond more; it keeps its core as long as that is
  below 2 s, and the first tick at which it is not sends it to the tail of its core's queue.\<close>

theorem plain_quantum_exact:
  assumes "policy_metadata p s = Inr (a, pp)" and "pp_task pp = p"
    and "pp_quantum_ns pp = 0" and "pp_last_sched_ns pp = l"
    and "k * (k + 1) div 2 * d + k < 2000000000"
    and "2000000000 \<le> (k + 1) * (k + 2) div 2 * d + (k + 1)"
    and "(k + 1) * (k + 2) div 2 * d + (k + 1) < 2 ^ 64"
  shows "\<exists>t u. run (plain_routines lost api) (map (\<lambda>i. Tick p c (l + of_nat (i * d))) [1..<Suc k]) s = Inr t \<and>
    kern t = kern s \<and> plain_routines lost api (Tick p c (l + of_nat ((k + 1) * d))) t = Inr u \<and>
    kern u = change_state api p IPANEMA_READY_TICK (k_cpu (kern s) p)
               (Some (LocalRq (k_cpu (kern s) p))) (kern s)"
proof -
  have c: "ticks_charge d k < 2000000000" "2000000000 \<le> ticks_charge d (Suc k)" "ticks_charge d (Suc k) < 2 ^ 64"
    using assms(5-7) by (simp_all add: ticks_charge_def)
  obtain t where t: "run (plain_routines lost api) (map (\<lambda>i. Tick p c (l + of_nat (i * d))) [1..<Suc k]) s = Inr t"
    "kern t = kern s" "policy_metadata p t = Inr (a, pp\<lparr>pp_quantum_ns := of_nat (ticks_charge d k)\<rparr>)"
    using plain_ticks [OF assms(1-4) c(1)] by blast
  from plain_tick_next(2) [OF t(3), of d k l lost api] assms(2,4) c obtain u where
    "plain_tick lost api p (l + of_nat (Suc k * d)) t = Inr u"
    "kern u = change_state api p IPANEMA_READY_TICK (k_cpu (kern t) p)
       (Some (LocalRq (k_cpu (kern t) p))) (kern t)" by auto
  with t(1,2) show ?thesis by (auto simp del: of_nat_Suc of_nat_mult)
qed

text \<open>With a tick every 4 ms it is the 32nd tick, after 128 ms.\<close>

definition plain_busy :: plain_sys where
  "plain_busy = projr (run (plain_routines plain_ref_lost ref_api) (take 4 plain_script)
     (fst (snd (plain_mod_init ref_api [0, 2, 3] True 0 plain_demo no_module))))"

theorem plain_quantum_exact_witness:
  "\<exists>t u. run (plain_routines plain_ref_lost ref_api) (map (\<lambda>i. Tick 7 3 (0 + of_nat (i * 4000000))) [1..<Suc 31])
      plain_busy = Inr t \<and>
    kern t = kern plain_busy \<and>
    plain_routines plain_ref_lost ref_api (Tick 7 3 (0 + of_nat ((31 + 1) * 4000000))) t = Inr u \<and>
    kern u = change_state ref_api 7 IPANEMA_READY_TICK (k_cpu (kern plain_busy) 7)
               (Some (LocalRq (k_cpu (kern plain_busy) 7))) (kern plain_busy)"
proof (rule plain_quantum_exact)
  show "policy_metadata 7 plain_busy = Inr (100, \<lparr>pp_state = 2, pp_task = 7, pp_rq = None,
      pp_quantum_ns = 0, pp_last_sched_ns = 0\<rparr>)"
    by (simp add: plain_busy_def plain_eval)
qed simp_all

end
