(* ===== verification/Launch.thy ===== *)
theory Launch
  imports Prelude
begin

text \<open>
  The programs that start a command under a scheduling class: code/schedstart (schedstart.c and
  schedstart.h) and code/set_sched (set_sched.c). A run is the system calls it makes, in order, and
  how it ends; \<open>strtol\<close> and \<open>strncmp\<close> of the C library are written out.
\<close>

section \<open>The C library\<close>

text \<open>Strings have no NUL inside, so \<open>strncmp (a, b, n) = 0\<close> compares prefixes.\<close>

definition strncmp_zero :: "string \<Rightarrow> string \<Rightarrow> nat \<Rightarrow> bool" where
  "strncmp_zero a b n \<longleftrightarrow> take n a = take n b"

definition is_space :: "char \<Rightarrow> bool" where
  "is_space c \<longleftrightarrow> c \<in> {CHR '' '', CHR 0x09, CHR 0x0A, CHR 0x0B, CHR 0x0C, CHR 0x0D}"

definition digit_of :: "char \<Rightarrow> nat option" where
  "digit_of c = (let n = (of_char c :: nat) in if 48 \<le> n \<and> n \<le> 57 then Some (n - 48) else None)"

fun scan_digits :: "nat \<Rightarrow> string \<Rightarrow> nat \<times> string" where
  "scan_digits acc [] = (acc, [])"
| "scan_digits acc (c # cs) =
     (case digit_of c of None \<Rightarrow> (acc, c # cs) | Some d \<Rightarrow> scan_digits (10 * acc + d) cs)"

definition LONG_MAX :: int where
  "LONG_MAX = 2 ^ 63 - 1"

definition clamp_long :: "int \<Rightarrow> int" where
  "clamp_long i = max (- LONG_MAX - 1) (min LONG_MAX i)"

text \<open>
  \<open>strtol (s, &end, 10)\<close>: the value and what \<open>end\<close> points to. White space and a sign are skipped;
  without a digit \<open>end\<close> is \<open>s\<close>; a value out of range is clamped.
\<close>

definition strtol10 :: "string \<Rightarrow> int \<times> string" where
  "strtol10 s =
     (let t = dropWhile is_space s;
          neg = (case t of c # _ \<Rightarrow> c = CHR ''-'' | [] \<Rightarrow> False);
          u = (case t of c # cs \<Rightarrow> if c = CHR ''-'' \<or> c = CHR ''+'' then cs else t | [] \<Rightarrow> t);
          (n, rest) = scan_digits 0 u
      in if rest = u then (0, s)
         else (clamp_long (if neg then - int n else int n), rest))"

section \<open>The scheduling attributes\<close>

record sched_attr =
  size_ :: u32
  sched_policy :: u32
  sched_flags :: u64
  sched_nice :: u32
  sched_priority :: u32
  sched_runtime :: u64
  sched_deadline :: u64
  sched_period :: u64
  sched_ipa_policy :: u32
  sched_ipa_attr_size :: u32
  sched_ipa_attr :: "nat option"
  sched_util_min :: u32
  sched_util_max :: u32

text \<open>
  The 64-bit layout: \<open>schedstart.h\<close> has the two utilisation hints (72 bytes), \<open>set_sched.c\<close> has not
  (64 bytes), which is the same as leaving them 0.
\<close>

definition zero_attr :: "u32 \<Rightarrow> sched_attr" where
  "zero_attr sz = \<lparr>size_ = sz, sched_policy = 0, sched_flags = 0, sched_nice = 0, sched_priority = 0,
     sched_runtime = 0, sched_deadline = 0, sched_period = 0, sched_ipa_policy = 0,
     sched_ipa_attr_size = 0, sched_ipa_attr = None, sched_util_min = 0, sched_util_max = 0\<rparr>"

text \<open>
  \<open>Setattr\<close>: \<open>sched_setattr (0, &attr, 0)\<close>, on the calling thread. \<open>Exec file argv\<close>: \<open>execvp\<close>, with a
  null \<open>file\<close> as \<open>None\<close>; if it succeeds the program is gone (\<open>Replaced\<close>).
\<close>

datatype sys_call = Setattr sched_attr | Exec "string option" "string list"
datatype ending = Replaced | Exited int

definition EXIT_FAILURE :: int where
  "EXIT_FAILURE = 1"

text \<open>\<open>argv[i]\<close>, null at the end of the array.\<close>

definition arg :: "string list \<Rightarrow> nat \<Rightarrow> string option" where
  "arg argv i = (if i < length argv then Some (argv ! i) else None)"

section \<open>schedstart\<close>

definition SCHED_EXT :: u32 where
  "SCHED_EXT = 7"

definition SCHED_IPANEMA :: u32 where
  "SCHED_IPANEMA = 8"

definition get_scheduling_policy_from_string :: "string option \<Rightarrow> u32" where
  "get_scheduling_policy_from_string sched =
     (case sched of
        None \<Rightarrow> 0
      | Some s \<Rightarrow> if strncmp_zero s ''ext'' 3 then SCHED_EXT
                  else if strncmp_zero s ''ipanema'' 7 then SCHED_IPANEMA else 0)"

text \<open>
  \<open>set_ok\<close> and \<open>exec_ok\<close>: whether the kernel accepts a call. The result of \<open>strtol\<close> is converted to
  \<open>int\<close> and stored in a 32-bit field.
\<close>

definition schedstart_main ::
    "(sched_attr \<Rightarrow> bool) \<Rightarrow> (string option \<Rightarrow> string list \<Rightarrow> bool) \<Rightarrow> string list \<Rightarrow>
     sys_call list \<times> ending" where
  "schedstart_main set_ok exec_ok argv =
     (let strscheduler = arg argv 1
      in if length argv < 3 then ([], Exited EXIT_FAILURE)
         else
           let policy = get_scheduling_policy_from_string strscheduler
           in if policy = 0 then ([], Exited EXIT_FAILURE)
              else
                let (v, rest) = strtol10 (argv ! 2)
                in if rest = argv ! 2 then ([], Exited EXIT_FAILURE)
                   else
                     let attr = (zero_attr 72)\<lparr>sched_policy := policy, sched_ipa_policy := of_int v\<rparr>
                     in if \<not> set_ok attr then ([Setattr attr], Exited EXIT_FAILURE)
                        else
                          let prog = arg argv 3; args = drop 3 argv
                          in if exec_ok prog args then ([Setattr attr, Exec prog args], Replaced)
                             else ([Setattr attr, Exec prog args], Exited EXIT_FAILURE))"

section \<open>set_sched\<close>

text \<open>The class is parsed into \<open>sched_class\<close>, which nothing reads.\<close>

definition set_sched_main ::
    "(sched_attr \<Rightarrow> bool) \<Rightarrow> (string option \<Rightarrow> string list \<Rightarrow> bool) \<Rightarrow> string list \<Rightarrow>
     sys_call list \<times> ending" where
  "set_sched_main set_ok exec_ok argv =
     (let attr = zero_attr 64
      in if length argv < 3 then ([], Exited EXIT_FAILURE)
         else
           let (sched_class, rest) = strtol10 (argv ! 1)
           in if rest = argv ! 1 then ([], Exited EXIT_FAILURE)
              else
                let attr = attr\<lparr>sched_ipa_policy := 0\<rparr>
                in if \<not> set_ok attr then ([Setattr attr], Exited EXIT_FAILURE)
                   else
                     let prog = arg argv 2; args = drop 2 argv
                     in if exec_ok prog args then ([Setattr attr, Exec prog args], Replaced)
                        else ([Setattr attr, Exec prog args], Exited EXIT_FAILURE))"

end
