(* ===== verification/Launch_Props.thy ===== *)
theory Launch_Props
  imports Launch
begin

text \<open>
  The properties of schedstart and set_sched: what the command line of schedstart becomes, which
  attributes it can ask for, and that set_sched never asks for the class it was given.
\<close>

section \<open>Decimal numbers\<close>

definition digit_char :: "nat \<Rightarrow> char" where
  "digit_char d = char_of (48 + d)"

text \<open>The decimal numeral of a number.\<close>

fun dec :: "nat \<Rightarrow> string" where
  "dec n = (if n < 10 then [digit_char n] else dec (n div 10) @ [digit_char (n mod 10)])"

declare dec.simps [simp del]

lemma digit_of_char [simp]: "d < 10 \<Longrightarrow> digit_of (digit_char d) = Some d"
  by (simp add: digit_of_def digit_char_def of_char_of)

lemma digit_no_space [simp]:
  assumes "digit_of c = Some d"
  shows "\<not> is_space c" "c \<noteq> CHR ''-''" "c \<noteq> CHR ''+''"
  using assms by (auto simp: is_space_def digit_of_def Let_def split: if_splits)

lemma scan_digits_snoc:
  "snd (scan_digits a xs) = [] \<Longrightarrow> d < 10 \<Longrightarrow>
    scan_digits a (xs @ [digit_char d]) = (10 * fst (scan_digits a xs) + d, [])"
  by (induction a xs rule: scan_digits.induct) (auto split: option.splits)

lemma scan_dec: "scan_digits 0 (dec n) = (n, [])"
proof (induction n rule: dec.induct)
  case (1 n)
  show ?case
  proof (cases "n < 10")
    case True
    then show ?thesis by (simp add: dec.simps [of n])
  next
    case False
    then have "scan_digits 0 (dec (n div 10)) = (n div 10, [])" by (rule 1)
    with False show ?thesis by (simp add: dec.simps [of n] scan_digits_snoc)
  qed
qed

lemma dec_head: "\<exists>c cs d. dec n = c # cs \<and> digit_of c = Some d"
proof (induction n rule: dec.induct)
  case (1 n)
  show ?case
  proof (cases "n < 10")
    case True
    then show ?thesis by (simp add: dec.simps [of n])
  next
    case False
    with 1 obtain c cs d where "dec (n div 10) = c # cs" "digit_of c = Some d" by blast
    with False show ?thesis by (simp add: dec.simps [of n])
  qed
qed

text \<open>\<open>strtol\<close> reads back what was printed.\<close>

lemma strtol_dec:
  assumes "int n \<le> LONG_MAX"
  shows "strtol10 (dec n) = (int n, [])"
proof -
  obtain c cs d where c: "dec n = c # cs" "digit_of c = Some d" using dec_head by blast
  then have "dropWhile is_space (c # cs) = c # cs" by simp
  with scan_dec [of n] c assms show ?thesis
    by (simp add: strtol10_def Let_def clamp_long_def LONG_MAX_def)
qed

lemma dec_not_Nil [simp]: "dec n \<noteq> []" "[] \<noteq> dec n"
  using dec_head [of n] by auto

section \<open>schedstart\<close>

lemma prefix_policy:
  "get_scheduling_policy_from_string (Some (''ext'' @ x)) = 7"
  "get_scheduling_policy_from_string (Some (''ipanema'' @ x)) = 8"
  by (simp_all add: get_scheduling_policy_from_string_def strncmp_zero_def SCHED_EXT_def SCHED_IPANEMA_def
      numeral_eq_Suc)

text \<open>C38 The command line of schedstart round-trips: a class name that begins with \<open>ext\<close> or \<open>ipanema\<close>,
  a policy number below 2 to the power of 32 in decimal and a command become the attributes with
  class 7 or 8 and just that policy number, all else zero, set before the command is executed
  with its arguments.\<close>

theorem schedstart_roundtrip:
  assumes n: "n < 2 ^ 32" and cls: "(name, code) \<in> {(''ext'', 7), (''ipanema'', 8)}"
    and ok: "set_ok ((zero_attr 72)\<lparr>sched_policy := code, sched_ipa_policy := of_nat n\<rparr>)"
      "exec_ok (Some prog) (prog # args)"
  shows "\<exists>attr. schedstart_main set_ok exec_ok (self # (name @ x) # dec n # prog # args) =
      ([Setattr attr, Exec (Some prog) (prog # args)], Replaced) \<and>
    sched_policy attr = code \<and> unat (sched_ipa_policy attr) = n \<and>
    attr\<lparr>sched_policy := 0, sched_ipa_policy := 0\<rparr> = zero_attr 72"
proof -
  let ?a = "(zero_attr 72)\<lparr>sched_policy := code, sched_ipa_policy := of_nat n\<rparr>"
  have "int n \<le> LONG_MAX" using n by (simp add: LONG_MAX_def)
  note st = strtol_dec [OF this]
  have "get_scheduling_policy_from_string (Some (name @ x)) = code" "code \<noteq> 0"
    using cls prefix_policy [of x] by auto
  then have "schedstart_main set_ok exec_ok (self # (name @ x) # dec n # prog # args) =
      ([Setattr ?a, Exec (Some prog) (prog # args)], Replaced)"
    using ok st by (simp add: schedstart_main_def arg_def Let_def)
  moreover have "unat (of_nat n :: u32) = n" using n by (simp add: unsigned_of_nat take_bit_nat_eq_self)
  ultimately show ?thesis by (intro exI [of _ ?a]) (simp add: zero_attr_def)
qed

theorem schedstart_roundtrip_witness:
  "\<exists>attr. schedstart_main (\<lambda>_. True) (\<lambda>_ _. True) [''schedstart'', ''ipanema'' @ ''x'', dec 12, ''make'', ''-j''] =
      ([Setattr attr, Exec (Some ''make'') [''make'', ''-j'']], Replaced) \<and>
    sched_policy attr = 8 \<and> unat (sched_ipa_policy attr) = 12"
  using schedstart_roundtrip [of 12 "''ipanema''" 8 "\<lambda>_. True" "\<lambda>_ _. True" "''make''" "[''-j'']"
      "''schedstart''" "''x''"] by auto

text \<open>C40 The type of a run of schedstart, whatever its arguments: either nothing is called, or
  attributes with class 7 or 8 and nothing but a policy number beside it are set, and only if the
  kernel takes them the fourth argument, null when there is none, is executed. The exit code is 1.\<close>

theorem schedstart_calls:
  "case schedstart_main set_ok exec_ok argv of (calls, e) \<Rightarrow>
     calls = [] \<and> e = Exited 1 \<or>
     (\<exists>policy \<in> {7, 8}. \<exists>ipa. let attr = (zero_attr 72)\<lparr>sched_policy := policy, sched_ipa_policy := ipa\<rparr> in
        2 < length argv \<and>
        (calls, e) = (if set_ok attr
          then ([Setattr attr, Exec (arg argv 3) (drop 3 argv)],
                if exec_ok (arg argv 3) (drop 3 argv) then Replaced else Exited 1)
          else ([Setattr attr], Exited 1)))"
proof -
  have p: "get_scheduling_policy_from_string q \<in> {0, 7, 8}" for q
    by (simp add: get_scheduling_policy_from_string_def SCHED_EXT_def SCHED_IPANEMA_def split: option.split)
  obtain v rest where v: "strtol10 (argv ! 2) = (v, rest)" by force
  consider "length argv < 3" | "get_scheduling_policy_from_string (arg argv 1) = 0" | "rest = argv ! 2"
    | "2 < length argv" "get_scheduling_policy_from_string (arg argv 1) \<in> {7, 8}" "rest \<noteq> argv ! 2"
    using p [of "arg argv 1"] by fastforce
  then show ?thesis
  proof cases
    case 4
    then have "get_scheduling_policy_from_string (arg argv 1) \<noteq> 0" by auto
    with 4 v show ?thesis
      by (intro case_prodI2 disjI2 bexI [of _ "get_scheduling_policy_from_string (arg argv 1)"] exI [of _ "of_int v"])
        (auto simp: schedstart_main_def EXIT_FAILURE_def Let_def split: if_splits)
  qed (use v in \<open>auto simp: schedstart_main_def EXIT_FAILURE_def Let_def\<close>)
qed

theorem schedstart_calls_witness:
  "schedstart_main (\<lambda>_. True) (\<lambda>_ _. False) [''schedstart'', ''ext'', ''0''] =
     ([Setattr ((zero_attr 72)\<lparr>sched_policy := 7\<rparr>), Exec None []], Exited 1)"
proof -
  have "schedstart_main (\<lambda>_. True) (\<lambda>_ _. False) [''schedstart'', ''ext'', ''0''] =
     ([Setattr ((zero_attr 72)\<lparr>sched_policy := 7\<rparr>), Exec None []], Exited 1)" by code_simp
  with schedstart_calls [where set_ok = "\<lambda>_. True" and exec_ok = "\<lambda>_ _. False"
      and argv = "[''schedstart'', ''ext'', ''0'']"] show ?thesis by simp
qed

section \<open>set_sched\<close>

text \<open>set_sched does not set the class it is given: for every class number the calling thread gets
  the attributes with policy 0, the default class, and then the command runs.\<close>

theorem set_sched_ignores_class:
  assumes "int n \<le> LONG_MAX" and "set_ok (zero_attr 64)" and "exec_ok (Some prog) (prog # args)"
  shows "set_sched_main set_ok exec_ok (self # dec n # prog # args) =
      ([Setattr (zero_attr 64), Exec (Some prog) (prog # args)], Replaced) \<and>
    sched_policy (zero_attr 64) = 0"
  using assms strtol_dec [OF assms(1)] by (simp add: set_sched_main_def arg_def Let_def zero_attr_def)

theorem set_sched_ignores_class_witness:
  "set_sched_main (\<lambda>_. True) (\<lambda>_ _. True) [''set_sched'', dec 8, ''make''] =
     ([Setattr (zero_attr 64), Exec (Some ''make'') [''make'']], Replaced) \<and> sched_policy (zero_attr 64) = 0"
  by (rule set_sched_ignores_class) (simp_all add: LONG_MAX_def)

end
