(* ===== verification/SchedApi.thy ===== *)
theory SchedApi
  imports Prelude
begin

text \<open>
  code/sched-api (sched-api.c, sched-api.h): a program that checks which threads of a process get a
  scheduling class. The kernel keeps a class per thread; a new thread or process inherits the class of
  its creator. The threads of a test run in any order: a run takes the next step of the thread a
  schedule names.
\<close>

section \<open>Constants, the kernel's answers, and how the program stops\<close>

definition SCHED_NORMAL :: int where
  "SCHED_NORMAL = 0"

definition SCHED_IPANEMA_CLASS :: int where
  "SCHED_IPANEMA_CLASS = 8"

definition NR_THREADS :: nat where
  "NR_THREADS = 10"

text \<open>The thread of \<open>main\<close>, the forked process, and the threads by index.\<close>

datatype tid = MainT | ForkT | Worker nat

text \<open>Which calls succeed.\<close>

record api_env =
  getattr_ok :: "tid \<Rightarrow> bool"
  set_ok :: "tid \<Rightarrow> int \<Rightarrow> bool"
  create_ok :: "nat \<Rightarrow> bool"
  join_ok :: "nat \<Rightarrow> bool"
  malloc_ok :: bool
  fork_ok :: bool

text \<open>\<open>exit\<close>, undefined behaviour, or a schedule that ends before the function returns.\<close>

datatype stop = ExitCode int | Fault fault | Waiting

type_synonym 'a prog = "stop + 'a"

definition prog_bind :: "'a prog \<Rightarrow> ('a \<Rightarrow> 'b prog) \<Rightarrow> 'b prog" where
  "prog_bind m f = (case m of Inl e \<Rightarrow> Inl e | Inr x \<Rightarrow> f x)"

lemma prog_bind_simps [simp]:
  "prog_bind (Inl e) f = Inl e"
  "prog_bind (Inr x) f = f x"
  by (simp_all add: prog_bind_def)

section \<open>The class of a thread\<close>

type_synonym classes = "tid \<Rightarrow> int"

definition get_scheduling_policy :: "api_env \<Rightarrow> tid \<Rightarrow> classes \<Rightarrow> int prog" where
  "get_scheduling_policy env t pol = (if getattr_ok env t then Inr (pol t) else Inl (ExitCode 1))"

definition set_ipanema_scheduler :: "api_env \<Rightarrow> tid \<Rightarrow> classes \<Rightarrow> classes prog" where
  "set_ipanema_scheduler env t pol =
     (if set_ok env t SCHED_IPANEMA_CLASS then Inr (pol(t := SCHED_IPANEMA_CLASS)) else Inl (ExitCode 1))"

definition set_ipanema_scheduler_with_pthread :: "api_env \<Rightarrow> tid \<Rightarrow> classes \<Rightarrow> classes prog" where
  "set_ipanema_scheduler_with_pthread env t pol =
     (if set_ok env t SCHED_IPANEMA_CLASS then Inr (pol(t := SCHED_IPANEMA_CLASS)) else Inl (ExitCode 1))"

definition set_eevdf_scheduler :: "api_env \<Rightarrow> tid \<Rightarrow> classes \<Rightarrow> classes prog" where
  "set_eevdf_scheduler env t pol =
     (if set_ok env t SCHED_NORMAL then Inr (pol(t := SCHED_NORMAL)) else Inl (ExitCode 1))"

text \<open>The forked process; \<open>Inl\<close> is its exit code.\<close>

definition child_process_fn :: "api_env \<Rightarrow> classes \<Rightarrow> stop" where
  "child_process_fn env pol =
     (case get_scheduling_policy env ForkT pol of
        Inl e \<Rightarrow> e
      | Inr policy \<Rightarrow> ExitCode (if policy \<noteq> SCHED_IPANEMA_CLASS then 1 else 0))"

section \<open>A test with threads\<close>

text \<open>
  Where the creating function is, how many threads it has created and joined, whether
  \<open>threads_info\<close> has been freed, how many steps each thread has done, the class of every thread,
  and one result per thread (its exit code, or its entry in \<open>thread_policies\<close>).
\<close>

datatype phase = Creating | Joining | Out | Finished

record pool =
  phase :: phase
  created :: nat
  joined :: nat
  freed :: bool
  steps :: "nat \<Rightarrow> nat"
  pol :: classes
  outs :: "int list"

definition new_pool :: "classes \<Rightarrow> int list \<Rightarrow> pool" where
  "new_pool p os = \<lparr>phase = Creating, created = 0, joined = 0, freed = False, steps = (\<lambda>_. 0), pol = p, outs = os\<rparr>"

text \<open>The next step of the creating function: both tests have the same two loops.\<close>

definition main_step :: "api_env \<Rightarrow> pool \<Rightarrow> pool" where
  "main_step env s =
     (case phase s of
        Creating \<Rightarrow>
          (if created s < NR_THREADS then
             if create_ok env (created s)
             then s\<lparr>created := created s + 1, pol := (pol s)(Worker (created s) := pol s MainT)\<rparr>
             else s\<lparr>phase := Out\<rparr>
           else s\<lparr>phase := Joining\<rparr>)
      | Joining \<Rightarrow>
          (if joined s < NR_THREADS then
             if steps s (joined s) < 2 then s
             else if join_ok env (joined s) then s\<lparr>joined := joined s + 1\<rparr> else s\<lparr>phase := Out\<rparr>
           else s\<lparr>phase := Out\<rparr>)
      | Out \<Rightarrow> s\<lparr>freed := True, phase := Finished\<rparr>
      | Finished \<Rightarrow> s)"

text \<open>
  The bodies, in two steps each; every step that reads \<open>info\<close> reads freed memory once the creating
  function is past \<open>free\<close>. \<open>thread_function\<close>: ask for the class, then report under \<open>info->index\<close>.
\<close>

definition thread_function :: "api_env \<Rightarrow> nat \<Rightarrow> nat \<Rightarrow> pool \<Rightarrow> pool prog" where
  "thread_function env i pc s =
     (if pc = 0 then
        prog_bind (get_scheduling_policy env (Worker i) (pol s)) (\<lambda>policy.
          Inr (s\<lparr>outs := (outs s)[i := (if policy \<noteq> SCHED_IPANEMA_CLASS then 1 else 0)]\<rparr>))
      else if freed s then Inl (Fault UseAfterFree) else Inr s)"

text \<open>\<open>thread_setting_sched_fn\<close>: the thread with index 0 changes the class, the others sleep.\<close>

definition thread_setting_sched_fn :: "bool \<Rightarrow> api_env \<Rightarrow> nat \<Rightarrow> nat \<Rightarrow> pool \<Rightarrow> pool prog" where
  "thread_setting_sched_fn with_pthread env i pc s =
     (if freed s then Inl (Fault UseAfterFree)
      else if pc = 0 then
        if i = 0 then
          prog_bind (if with_pthread then set_ipanema_scheduler_with_pthread env (Worker i) (pol s)
                     else set_ipanema_scheduler env (Worker i) (pol s))
            (\<lambda>p. Inr (s\<lparr>pol := p\<rparr>))
        else Inr s
      else
        prog_bind (get_scheduling_policy env (Worker i) (pol s)) (\<lambda>policy.
          Inr (s\<lparr>outs := (outs s)[i := policy]\<rparr>)))"

datatype actor = Main | Thread nat

definition pool_step ::
    "(api_env \<Rightarrow> nat \<Rightarrow> nat \<Rightarrow> pool \<Rightarrow> pool prog) \<Rightarrow> api_env \<Rightarrow> actor \<Rightarrow> pool \<Rightarrow> pool prog" where
  "pool_step body env x s =
     (case x of
        Main \<Rightarrow> Inr (main_step env s)
      | Thread i \<Rightarrow>
          (if i < created s \<and> steps s i < 2
           then prog_bind (body env i (steps s i) s) (\<lambda>t. Inr (t\<lparr>steps := (steps t)(i := steps t i + 1)\<rparr>))
           else Inr s))"

fun pool_run ::
    "(api_env \<Rightarrow> nat \<Rightarrow> nat \<Rightarrow> pool \<Rightarrow> pool prog) \<Rightarrow> api_env \<Rightarrow> actor list \<Rightarrow> pool \<Rightarrow> pool prog" where
  "pool_run body env [] s = Inr s"
| "pool_run body env (x # xs) s = prog_bind (pool_step body env x s) (pool_run body env xs)"

definition finish_pool :: "pool prog \<Rightarrow> pool prog" where
  "finish_pool r = prog_bind r (\<lambda>t. if phase t = Finished then Inr t else Inl Waiting)"

definition threads_test :: "api_env \<Rightarrow> actor list \<Rightarrow> classes \<Rightarrow> pool prog" where
  "threads_test env sched p =
     (if \<not> malloc_ok env then Inl (ExitCode 1)
      else finish_pool (pool_run thread_function env sched (new_pool p (replicate NR_THREADS 0))))"

text \<open>\<open>os\<close> is the global \<open>thread_policies\<close> before the test.\<close>

definition thread_setting_scheduler ::
    "bool \<Rightarrow> api_env \<Rightarrow> actor list \<Rightarrow> int list \<Rightarrow> classes \<Rightarrow> pool prog" where
  "thread_setting_scheduler with_pthread env sched os p =
     (if \<not> malloc_ok env then Inl (ExitCode 1)
      else finish_pool (pool_run (thread_setting_sched_fn with_pthread) env sched (new_pool p os)))"

section \<open>The whole program\<close>

text \<open>
  The result: the exit status of the forked process, which is not looked at, and the two tables of
  classes that are printed.
\<close>

definition sched_api_main ::
    "api_env \<Rightarrow> actor list \<Rightarrow> actor list \<Rightarrow> actor list \<Rightarrow> classes \<Rightarrow> (stop \<times> int list \<times> int list) prog" where
  "sched_api_main env sched1 sched2 sched3 p0 =
     prog_bind (get_scheduling_policy env MainT p0) (\<lambda>_.
     prog_bind (set_ipanema_scheduler env MainT p0) (\<lambda>p1.
     prog_bind (get_scheduling_policy env MainT p1) (\<lambda>policy.
       if policy \<noteq> SCHED_IPANEMA_CLASS then Inl (ExitCode 1)
       else if \<not> fork_ok env then Inl (ExitCode 1)
       else
         let child = child_process_fn env (p1(ForkT := p1 MainT))
         in prog_bind (threads_test env sched1 p1) (\<lambda>s1.
            prog_bind (set_eevdf_scheduler env MainT (pol s1)) (\<lambda>p2.
            prog_bind (get_scheduling_policy env MainT p2) (\<lambda>policy2.
              if policy2 \<noteq> SCHED_NORMAL then Inl (ExitCode 1)
              else
                prog_bind (thread_setting_scheduler False env sched2 (replicate NR_THREADS 0) p2) (\<lambda>s2.
                prog_bind (thread_setting_scheduler True env sched3 (outs s2) (pol s2)) (\<lambda>s3.
                  Inr (child, outs s2, outs s3)))))))))"

end
