(* ===== verification/SchedApi_Props.thy ===== *)
theory SchedApi_Props
  imports SchedApi
begin

text \<open>
  The properties of sched-api: what a pool of threads promises whatever the order of its steps,
  proved once for any body that keeps to its own entry, and applied to both bodies.
\<close>

section \<open>A pool of threads\<close>

text \<open>A round of a schedule: the creating function and every thread have at least one turn, in any order.\<close>

definition fair_round :: "actor list \<Rightarrow> bool" where
  "fair_round r \<longleftrightarrow> Main \<in> set r \<and> (\<forall>i < NR_THREADS. Thread i \<in> set r)"

text \<open>More rounds than a test has steps.\<close>

definition enough_rounds :: "actor list list \<Rightarrow> bool" where
  "enough_rounds rs \<longleftrightarrow> 43 \<le> length rs \<and> list_all fair_round rs"

lemma pool_run_append:
  "pool_run body env (xs @ ys) s = prog_bind (pool_run body env xs s) (pool_run body env ys)"
proof (induction xs arbitrary: s)
  case Nil
  then show ?case by simp
next
  case (Cons x xs)
  then show ?case by (cases "pool_step body env x s") simp_all
qed

text \<open>
  A body whose step \<open>pc\<close> of thread \<open>i\<close> changes only the thread's class and its entry, and takes them
  from \<open>L i pc\<close> to \<open>L i (pc + 1)\<close>; \<open>p0\<close> is the class a new thread inherits.
\<close>

locale thread_pool =
  fixes body :: "api_env \<Rightarrow> nat \<Rightarrow> nat \<Rightarrow> pool \<Rightarrow> pool prog"
    and env :: api_env
    and p0 :: int
    and L :: "nat \<Rightarrow> nat \<Rightarrow> int \<Rightarrow> int \<Rightarrow> bool"
  assumes body_step: "i < NR_THREADS \<Longrightarrow> pc < 2 \<Longrightarrow> \<not> freed s \<Longrightarrow> length (outs s) = NR_THREADS \<Longrightarrow>
      L i pc (pol s (Worker i)) (outs s ! i) \<Longrightarrow>
      \<exists>q r. body env i pc s = Inr (s\<lparr>pol := (pol s)(Worker i := q), outs := (outs s)[i := r]\<rparr>) \<and> L i (pc + 1) q r"
    and start: "L i 0 p0 r"
    and creates: "i < NR_THREADS \<Longrightarrow> create_ok env i" and joins: "i < NR_THREADS \<Longrightarrow> join_ok env i"
begin

definition pool_inv :: "pool \<Rightarrow> bool" where
  "pool_inv s \<longleftrightarrow> length (outs s) = NR_THREADS \<and> pol s MainT = p0 \<and> created s \<le> NR_THREADS \<and>
     joined s \<le> NR_THREADS \<and>
     (\<forall>i < created s. L i (steps s i) (pol s (Worker i)) (outs s ! i)) \<and>
     (\<forall>i. steps s i \<le> 2) \<and> (\<forall>i \<ge> created s. steps s i = 0) \<and> (\<forall>i < joined s. steps s i = 2) \<and>
     (freed s \<longleftrightarrow> phase s = Finished) \<and> (phase s \<noteq> Creating \<longrightarrow> created s = NR_THREADS) \<and>
     (phase s = Out \<or> phase s = Finished \<longrightarrow> joined s = NR_THREADS)"

definition left :: "pool \<Rightarrow> nat" where
  "left s = (NR_THREADS - created s) + (NR_THREADS - joined s) + (\<Sum>i<NR_THREADS. 2 - steps s i) +
     (case phase s of Creating \<Rightarrow> 3 | Joining \<Rightarrow> 2 | Out \<Rightarrow> 1 | Finished \<Rightarrow> 0)"

lemma main_step_inv: "pool_inv s \<Longrightarrow> pool_inv (main_step env s)"
  by (cases "phase s") (auto simp: pool_inv_def main_step_def start creates joins less_Suc_eq le_less)

lemma worker_step:
  assumes inv: "pool_inv s"
  shows "\<exists>t. pool_step body env (Thread i) s = Inr t \<and> pool_inv t \<and>
    (i < created s \<and> steps s i < 2 \<longrightarrow> left t < left s)"
proof (cases "i < created s \<and> steps s i < 2")
  case False
  then show ?thesis using inv by (auto simp: pool_step_def)
next
  case True
  have i: "i < NR_THREADS" using True inv by (simp add: pool_inv_def)
  have nj: "\<not> i < joined s" using True inv by (auto simp: pool_inv_def)
  then have "\<not> freed s" using inv i by (auto simp: pool_inv_def)
  with True inv i obtain q r where b:
    "body env i (steps s i) s = Inr (s\<lparr>pol := (pol s)(Worker i := q), outs := (outs s)[i := r]\<rparr>)"
    "L i (steps s i + 1) q r"
    using body_step [of i "steps s i" s] by (auto simp: pool_inv_def)
  let ?t = "s\<lparr>pol := (pol s)(Worker i := q), outs := (outs s)[i := r], steps := (steps s)(i := steps s i + 1)\<rparr>"
  have "pool_inv ?t"
    using inv True b(2) nj i by (auto simp: pool_inv_def nth_list_update)
  moreover have "(\<Sum>j<NR_THREADS. 2 - steps ?t j) < (\<Sum>j<NR_THREADS. 2 - steps s j)"
    by (rule sum_strict_mono_ex1) (use True i in auto)
  then have "left ?t < left s" by (simp add: left_def)
  ultimately show ?thesis using b(1) True by (simp add: pool_step_def)
qed

lemma pool_run_inv: "pool_inv s \<Longrightarrow> \<exists>t. pool_run body env xs s = Inr t \<and> pool_inv t"
proof (induction xs arbitrary: s)
  case Nil
  then show ?case by simp
next
  case (Cons x xs)
  have "\<exists>t. pool_step body env x s = Inr t \<and> pool_inv t"
  proof (cases x)
    case Main
    then show ?thesis using main_step_inv [OF Cons.prems] by (simp add: pool_step_def)
  next
    case (Thread i)
    then show ?thesis using worker_step [OF Cons.prems, of i] by blast
  qed
  then show ?case using Cons.IH by fastforce
qed

text \<open>A step changes nothing or brings the end nearer.\<close>

lemma pool_step_nearer:
  assumes inv: "pool_inv s"
  shows "\<exists>t. pool_step body env x s = Inr t \<and> pool_inv t \<and> (t = s \<or> left t < left s)"
proof (cases x)
  case Main
  have "main_step env s = s \<or> left (main_step env s) < left s"
    using inv by (cases "phase s") (auto simp: left_def main_step_def pool_inv_def creates joins)
  with main_step_inv [OF inv] Main show ?thesis by (simp add: pool_step_def)
next
  case (Thread i)
  show ?thesis
  proof (cases "i < created s \<and> steps s i < 2")
    case True
    with worker_step [OF inv, of i] Thread show ?thesis by blast
  qed (use inv Thread in \<open>auto simp: pool_step_def\<close>)
qed

lemma pool_run_nearer:
  assumes "pool_inv s"
  shows "\<exists>t. pool_run body env xs s = Inr t \<and> pool_inv t \<and>
    (t = s \<and> (\<forall>x \<in> set xs. pool_step body env x s = Inr s) \<or> left t < left s)"
  using assms
proof (induction xs arbitrary: s)
  case Nil
  then show ?case by simp
next
  case (Cons x xs)
  obtain t where t: "pool_step body env x s = Inr t" "pool_inv t" "t = s \<or> left t < left s"
    using pool_step_nearer [OF Cons.prems] by blast
  obtain u where u: "pool_run body env xs t = Inr u" "pool_inv u"
    "u = t \<and> (\<forall>x \<in> set xs. pool_step body env x t = Inr t) \<or> left u < left t"
    using Cons.IH [OF t(2)] by blast
  from t u show ?case by auto
qed

text \<open>Some thread can always go on until the test is over.\<close>

lemma pool_progress:
  assumes inv: "pool_inv s" and "phase s \<noteq> Finished"
  shows "\<exists>x t. (x = Main \<or> (\<exists>i < NR_THREADS. x = Thread i)) \<and> pool_step body env x s = Inr t \<and> left t < left s"
proof (cases "phase s = Joining \<and> joined s < NR_THREADS \<and> steps s (joined s) < 2")
  case True
  then have "joined s < created s" using inv by (simp add: pool_inv_def)
  with True worker_step [OF inv, of "joined s"] show ?thesis by blast
next
  case False
  have "left (main_step env s) < left s"
    using assms False by (cases "phase s")
      (auto simp: left_def main_step_def pool_inv_def creates joins)
  then show ?thesis
    by (intro exI [of _ Main] exI [of _ "main_step env s"]) (simp add: pool_step_def)
qed

text \<open>So a round in which every thread has a turn brings the end nearer.\<close>

lemma fair_rounds:
  assumes "pool_inv s" and "list_all fair_round rs"
  shows "\<exists>t. pool_run body env (concat rs) s = Inr t \<and> pool_inv t \<and>
    (phase t = Finished \<or> left t + length rs \<le> left s)"
  using assms
proof (induction rs arbitrary: s)
  case Nil
  then show ?case by simp
next
  case (Cons r rs)
  obtain t where t: "pool_run body env r s = Inr t" "pool_inv t"
    "t = s \<and> (\<forall>x \<in> set r. pool_step body env x s = Inr s) \<or> left t < left s"
    using pool_run_nearer [OF Cons.prems(1)] by blast
  obtain u where u: "pool_run body env (concat rs) t = Inr u" "pool_inv u"
    "phase u = Finished \<or> left u + length rs \<le> left t"
    using Cons.IH [OF t(2)] Cons.prems(2) by auto
  have run: "pool_run body env (concat (r # rs)) s = Inr u" using t(1) u(1) by (simp add: pool_run_append)
  show ?case
  proof (cases "left t < left s")
    case True
    with run u show ?thesis by auto
  next
    case False
    with t have ts: "t = s" and stuck: "\<And>x. x \<in> set r \<Longrightarrow> pool_step body env x s = Inr s" by auto
    have "phase s = Finished"
    proof (rule ccontr)
      assume "phase s \<noteq> Finished"
      then obtain x v where x: "x = Main \<or> (\<exists>i < NR_THREADS. x = Thread i)" "pool_step body env x s = Inr v" "left v < left s"
        using pool_progress [OF Cons.prems(1)] by blast
      have "x \<in> set r" using x(1) Cons.prems(2) by (auto simp: fair_round_def)
      from stuck [OF this] x(2,3) show False by simp
    qed
    then have "left s = 0" using Cons.prems(1) by (auto simp: left_def pool_inv_def)
    with u(2,3) ts \<open>phase s = Finished\<close> pool_run_nearer [OF t(2), of "concat rs"] u(1)
    have "phase u = Finished" by auto
    with run u(2) show ?thesis by blast
  qed
qed

lemma new_pool_inv: "length os = NR_THREADS \<Longrightarrow> p MainT = p0 \<Longrightarrow> pool_inv (new_pool p os)"
  by (simp add: pool_inv_def new_pool_def)

lemma new_pool_left: "left (new_pool p os) = 43"
  by (simp add: left_def new_pool_def NR_THREADS_def)

text \<open>
  Whatever the schedule, nothing faults and the program does not exit; after enough further rounds the
  test is over; and at the end every thread has done both steps.
\<close>

lemma pool_result:
  assumes "length os = NR_THREADS" and "p MainT = p0"
  shows "\<exists>t. pool_run body env xs (new_pool p os) = Inr t \<and>
    (\<forall>rs. enough_rounds rs \<longrightarrow> (\<exists>u. pool_run body env (xs @ concat rs) (new_pool p os) = Inr u \<and> phase u = Finished)) \<and>
    (phase t = Finished \<longrightarrow> length (outs t) = NR_THREADS \<and> pol t MainT = p0 \<and>
       (\<forall>i < NR_THREADS. L i 2 (pol t (Worker i)) (outs t ! i)))"
proof -
  have new: "pool_inv (new_pool p os)" by (rule new_pool_inv) (fact assms)+
  obtain t where t: "pool_run body env xs (new_pool p os) = Inr t" "pool_inv t" "left t \<le> 43"
    using pool_run_nearer [OF new, of xs] new_pool_left [of p os] by fastforce
  have "\<exists>u. pool_run body env (xs @ concat rs) (new_pool p os) = Inr u \<and> phase u = Finished"
    if rs: "enough_rounds rs" for rs
  proof -
    have "list_all fair_round rs" "43 \<le> length rs" using rs by (simp_all add: enough_rounds_def)
    with fair_rounds [OF t(2)] t(3) obtain u where u: "pool_run body env (concat rs) t = Inr u"
      "phase u = Finished \<or> left u = 0" by fastforce
    then have "phase u = Finished" by (cases "phase u") (simp_all add: left_def)
    with u(1) t(1) show ?thesis by (simp add: pool_run_append)
  qed
  moreover have "phase t = Finished \<longrightarrow> length (outs t) = NR_THREADS \<and> pol t MainT = p0 \<and>
       (\<forall>i < NR_THREADS. L i 2 (pol t (Worker i)) (outs t ! i))"
    using t(2) by (auto simp: pool_inv_def)
  ultimately show ?thesis using t(1) by blast
qed

end

section \<open>The two tests\<close>

definition all_ok :: "api_env \<Rightarrow> bool" where
  "all_ok env \<longleftrightarrow> (\<forall>t. getattr_ok env t) \<and> (\<forall>t c. set_ok env t c) \<and> (\<forall>i. create_ok env i) \<and>
     (\<forall>i. join_ok env i) \<and> malloc_ok env \<and> fork_ok env"

lemma function_pool:
  assumes "all_ok env"
  shows "thread_pool thread_function env p0
    (\<lambda>i pc q r. q = p0 \<and> (0 < pc \<longrightarrow> r = (if p0 = SCHED_IPANEMA_CLASS then 0 else 1)))"
proof
  fix i pc :: nat and s :: pool
  assume "i < NR_THREADS" "pc < 2" "\<not> freed s" "length (outs s) = NR_THREADS"
    "pol s (Worker i) = p0 \<and> (0 < pc \<longrightarrow> outs s ! i = (if p0 = SCHED_IPANEMA_CLASS then 0 else 1))"
  note b = this
  let ?r = "if p0 = SCHED_IPANEMA_CLASS then 0 else 1"
  have "s\<lparr>pol := pol s, outs := os\<rparr> = s\<lparr>outs := os\<rparr>" "s\<lparr>outs := outs s\<rparr> = s" for os by simp_all
  moreover have "(pol s)(Worker i := p0) = pol s" "pc \<noteq> 0 \<Longrightarrow> (outs s)[i := ?r] = outs s"
    using b by (auto simp: list_update_same_conv)
  ultimately have "thread_function env i pc s = Inr (s\<lparr>pol := (pol s)(Worker i := p0), outs := (outs s)[i := ?r]\<rparr>)"
    using b assms by (cases "pc = 0") (simp_all add: thread_function_def get_scheduling_policy_def all_ok_def)
  then show "\<exists>q r. thread_function env i pc s = Inr (s\<lparr>pol := (pol s)(Worker i := q), outs := (outs s)[i := r]\<rparr>) \<and>
      q = p0 \<and> (0 < pc + 1 \<longrightarrow> r = ?r)" by blast
qed (use assms in \<open>simp_all add: all_ok_def\<close>)

lemma setting_pool:
  assumes "all_ok env"
  shows "thread_pool (thread_setting_sched_fn wp) env p0
    (\<lambda>i pc q r. q = (if i = 0 \<and> 0 < pc then SCHED_IPANEMA_CLASS else p0) \<and> (pc = 2 \<longrightarrow> r = q))"
proof
  fix i pc :: nat and s :: pool
  assume "i < NR_THREADS" "pc < 2" "\<not> freed s" "length (outs s) = NR_THREADS"
    "pol s (Worker i) = (if i = 0 \<and> 0 < pc then SCHED_IPANEMA_CLASS else p0) \<and>
     (pc = 2 \<longrightarrow> outs s ! i = pol s (Worker i))"
  note b = this
  let ?q = "if i = 0 then SCHED_IPANEMA_CLASS else p0"
  have "thread_setting_sched_fn wp env i pc s = Inr (s\<lparr>pol := (pol s)(Worker i := ?q),
      outs := (outs s)[i := (if pc = 0 then outs s ! i else ?q)]\<rparr>)"
  proof (cases "pc = 0")
    case True
    have "s\<lparr>pol := pol s, outs := outs s\<rparr> = s" "s\<lparr>pol := q, outs := outs s\<rparr> = s\<lparr>pol := q\<rparr>" for q by simp_all
    moreover have "(pol s)(Worker i := p0) = pol s" if "i \<noteq> 0" using b that by auto
    ultimately show ?thesis using assms True b
      by (simp add: thread_setting_sched_fn_def set_ipanema_scheduler_def set_ipanema_scheduler_with_pthread_def all_ok_def)
  next
    case False
    have "s\<lparr>pol := pol s, outs := os\<rparr> = s\<lparr>outs := os\<rparr>" for os by simp
    moreover have "(pol s)(Worker i := ?q) = pol s" using b False by auto
    ultimately show ?thesis using assms False b
      by (simp add: thread_setting_sched_fn_def get_scheduling_policy_def all_ok_def)
  qed
  then show "\<exists>q r. thread_setting_sched_fn wp env i pc s =
        Inr (s\<lparr>pol := (pol s)(Worker i := q), outs := (outs s)[i := r]\<rparr>) \<and>
      q = (if i = 0 \<and> 0 < pc + 1 then SCHED_IPANEMA_CLASS else p0) \<and> (pc + 1 = 2 \<longrightarrow> r = q)"
    by (intro exI conjI, assumption) auto
qed (use assms in \<open>simp_all add: all_ok_def\<close>)

section \<open>What the program shows\<close>

text \<open>Setting the class changes the calling thread only: if all calls succeed, then in whatever order
  the threads of \<open>thread_setting_scheduler\<close> run, the function does not fault, ends when every thread
  goes on to have turns, and when it ends \<open>thread_policies\<close> holds class 8 for the thread with index 0 and
  the class of the creating thread, which is unchanged, for the nine others.\<close>

lemma setting_result:
  assumes "all_ok env" and "length os = NR_THREADS"
  shows "(enough_rounds rs \<longrightarrow> thread_setting_scheduler wp env (sched @ concat rs) os p \<noteq> Inl Waiting) \<and>
    (thread_setting_scheduler wp env sched os p = Inl Waiting \<or>
     (\<exists>u. thread_setting_scheduler wp env sched os p = Inr u \<and>
        outs u = SCHED_IPANEMA_CLASS # replicate 9 (p MainT) \<and> pol u MainT = p MainT))"
proof -
  note pool = thread_pool.pool_result [OF setting_pool [OF assms(1)], of os p "p MainT" wp]
  obtain t where t: "pool_run (thread_setting_sched_fn wp) env sched (new_pool p os) = Inr t"
    and u: "enough_rounds rs \<longrightarrow> (\<exists>u. pool_run (thread_setting_sched_fn wp) env (sched @ concat rs) (new_pool p os) = Inr u \<and>
      phase u = Finished)"
    and r: "phase t = Finished \<longrightarrow> length (outs t) = NR_THREADS \<and> pol t MainT = p MainT \<and>
      (\<forall>i<NR_THREADS. outs t ! i = (if i = 0 then SCHED_IPANEMA_CLASS else p MainT))"
    using pool [of sched] assms(2) by auto
  have m: "malloc_ok env" using assms(1) by (simp add: all_ok_def)
  have "outs t = SCHED_IPANEMA_CLASS # replicate 9 (p MainT)" if "phase t = Finished"
    using r that by (intro nth_equalityI) (auto simp: NR_THREADS_def nth_Cons split: nat.split)
  moreover have "enough_rounds rs \<longrightarrow> thread_setting_scheduler wp env (sched @ concat rs) os p \<noteq> Inl Waiting"
    using u m by (auto simp: thread_setting_scheduler_def finish_pool_def)
  ultimately show ?thesis
    using t r m by (cases "phase t = Finished") (auto simp: thread_setting_scheduler_def finish_pool_def)
qed

definition ok_env :: api_env where
  "ok_env = \<lparr>getattr_ok = (\<lambda>_. True), set_ok = (\<lambda>_ _. True), create_ok = (\<lambda>_. True), join_ok = (\<lambda>_. True),
     malloc_ok = True, fork_ok = True\<rparr>"

lemma all_ok_env [simp]: "all_ok ok_env"
  by (simp add: all_ok_def ok_env_def)

interpretation ok_function: thread_pool thread_function ok_env 8
    "\<lambda>i pc q r. q = 8 \<and> (0 < pc \<longrightarrow> r = (if (8 :: int) = SCHED_IPANEMA_CLASS then 0 else 1))"
  by (rule function_pool) simp

interpretation ok_setting: thread_pool "thread_setting_sched_fn True" ok_env 0
    "\<lambda>i pc q r. q = (if i = 0 \<and> 0 < pc then SCHED_IPANEMA_CLASS else 0) \<and> (pc = 2 \<longrightarrow> r = q)"
  by (rule setting_pool) simp

text \<open>The first test, with threads that only ask.\<close>

lemma threads_test_result:
  assumes "all_ok env"
  shows "(enough_rounds rs \<longrightarrow> threads_test env (sched @ concat rs) p \<noteq> Inl Waiting) \<and>
    (threads_test env sched p = Inl Waiting \<or>
     (\<exists>u. threads_test env sched p = Inr u \<and> pol u MainT = p MainT \<and>
        (p MainT = SCHED_IPANEMA_CLASS \<longrightarrow> outs u = replicate NR_THREADS 0)))"
proof -
  note pool = thread_pool.pool_result [OF function_pool [OF assms], of "replicate NR_THREADS 0" p "p MainT"]
  obtain t where t: "pool_run thread_function env sched (new_pool p (replicate NR_THREADS 0)) = Inr t"
    and u: "enough_rounds rs \<longrightarrow> (\<exists>u. pool_run thread_function env (sched @ concat rs) (new_pool p (replicate NR_THREADS 0)) = Inr u \<and>
      phase u = Finished)"
    and r: "phase t = Finished \<longrightarrow> length (outs t) = NR_THREADS \<and> pol t MainT = p MainT \<and>
      (\<forall>i<NR_THREADS. outs t ! i = (if p MainT = SCHED_IPANEMA_CLASS then 0 else 1))"
    using pool [of sched] by auto
  have m: "malloc_ok env" using assms by (simp add: all_ok_def)
  have "outs t = replicate NR_THREADS 0" if "phase t = Finished" "p MainT = SCHED_IPANEMA_CLASS"
    using r that by (intro nth_equalityI) auto
  moreover have "enough_rounds rs \<longrightarrow> threads_test env (sched @ concat rs) p \<noteq> Inl Waiting"
    using u m by (auto simp: threads_test_def finish_pool_def)
  ultimately show ?thesis
    using t r m by (cases "phase t = Finished") (auto simp: threads_test_def finish_pool_def)
qed

text \<open>The three tests, one after the other, when none is cut off.\<close>

lemma tests_in_order:
  assumes ok: "all_ok env"
  shows "sched_api_main env x1 x2 x3 p \<in> {Inl Waiting, Inr (ExitCode 0, 8 # replicate 9 0, 8 # replicate 9 0)} \<and>
    ((\<forall>q. threads_test env x1 q \<noteq> Inl Waiting) \<and>
     (\<forall>os q. length os = NR_THREADS \<longrightarrow> thread_setting_scheduler False env x2 os q \<noteq> Inl Waiting) \<and>
     (\<forall>os q. length os = NR_THREADS \<longrightarrow> thread_setting_scheduler True env x3 os q \<noteq> Inl Waiting) \<longrightarrow>
     sched_api_main env x1 x2 x3 p \<noteq> Inl Waiting)"
proof -
  let ?p1 = "p(MainT := 8)"
  have main: "sched_api_main env x1 x2 x3 p =
      prog_bind (threads_test env x1 ?p1) (\<lambda>s1.
      prog_bind (thread_setting_scheduler False env x2 (replicate NR_THREADS 0) ((pol s1)(MainT := 0))) (\<lambda>s2.
      prog_bind (thread_setting_scheduler True env x3 (outs s2) (pol s2)) (\<lambda>s3.
        Inr (ExitCode 0, outs s2, outs s3))))"
    using ok by (simp add: sched_api_main_def get_scheduling_policy_def set_ipanema_scheduler_def
        set_eevdf_scheduler_def child_process_fn_def all_ok_def SCHED_IPANEMA_CLASS_def SCHED_NORMAL_def)
  have set: "thread_setting_scheduler wp env x os q = Inl Waiting \<or>
      (\<exists>u. thread_setting_scheduler wp env x os q = Inr u \<and> outs u = 8 # replicate 9 (q MainT) \<and> pol u MainT = q MainT)"
    if "length os = NR_THREADS" for wp x os q
    using setting_result [OF ok that, of "[]" wp x q] by (auto simp: SCHED_IPANEMA_CLASS_def)
  have len: "length (8 # replicate 9 (0 :: int)) = NR_THREADS" "length (replicate NR_THREADS (0 :: int)) = NR_THREADS"
    by (simp_all add: NR_THREADS_def)
  consider "threads_test env x1 ?p1 = Inl Waiting" | s1 where "threads_test env x1 ?p1 = Inr s1"
    using threads_test_result [OF ok, of "[]" x1 ?p1] by blast
  then show ?thesis
  proof cases
    case (2 s1)
    let ?q = "(pol s1)(MainT := 0)"
    consider "thread_setting_scheduler False env x2 (replicate NR_THREADS 0) ?q = Inl Waiting"
      | s2 where "thread_setting_scheduler False env x2 (replicate NR_THREADS 0) ?q = Inr s2"
          "outs s2 = 8 # replicate 9 0" "pol s2 MainT = 0"
      using set [OF len(2), of False x2 ?q] by auto
    then show ?thesis
    proof cases
      case (2 s2)
      from set [OF len(1), of True x3 "pol s2"] \<open>threads_test env x1 ?p1 = Inr s1\<close> 2 len(1)
      show ?thesis unfolding main by auto
    qed (use 2 len(2) in \<open>fastforce simp: main\<close>)
  qed (auto simp: main)
qed


definition round_robin :: "actor list" where
  "round_robin = Main # map Thread [0..<NR_THREADS]"


section \<open>A failed creation\<close>

text \<open>The creating function alone, up to the thread it cannot create.\<close>

lemma creates_then_frees:
  assumes "\<And>i. i < k \<Longrightarrow> create_ok env i" and "j \<le> k" and "k < NR_THREADS" and "\<not> create_ok env k"
    and "phase s = Creating" and "created s = j" and "steps s = (\<lambda>_. 0)"
  shows "\<exists>t. pool_run body env (replicate (k - j) Main @ [Main, Main]) s = Inr t \<and> freed t \<and>
    created t = k \<and> phase t = Finished \<and> steps t = (\<lambda>_. 0)"
  using assms(2,5-)
proof (induction "k - j" arbitrary: j s)
  case 0
  then show ?case using assms(3,4) by (simp add: pool_step_def main_step_def)
next
  case (Suc n)
  then have j: "j < k" "create_ok env j" using assms(1) by auto
  let ?t = "main_step env s"
  have "phase ?t = Creating" "created ?t = Suc j" "steps ?t = (\<lambda>_. 0)"
    using j Suc.prems assms(3) by (simp_all add: main_step_def)
  from Suc.hyps(1) [OF _ _ this] Suc.hyps(2) j(1) obtain t where
    "pool_run body env (replicate (k - Suc j) Main @ [Main, Main]) ?t = Inr t" "freed t"
    "created t = k" "phase t = Finished" "steps t = (\<lambda>_. 0)" by fastforce
  moreover have "replicate (k - j) Main = Main # replicate (k - Suc j) Main"
    using j(1) by (metis Suc_diff_Suc replicate_Suc)
  ultimately show ?case by (simp add: pool_step_def)
qed

text \<open>C39 When creating a thread after the first fails, \<open>threads_test\<close> frees the table the threads already
  created still read from: there is an order in which thread 0 uses it after it is freed.\<close>

theorem threads_test_use_after_free:
  assumes k: "0 < k" "k < NR_THREADS" and ok: "\<And>i. i < k \<Longrightarrow> create_ok env i" "\<not> create_ok env k"
    and "malloc_ok env" and "getattr_ok env (Worker 0)"
  shows "\<exists>sched. threads_test env sched p = Inl (Fault UseAfterFree)"
proof -
  let ?s = "new_pool p (replicate NR_THREADS 0)"
  have "phase ?s = Creating" "created ?s = 0" "steps ?s = (\<lambda>_. 0)" by (simp_all add: new_pool_def)
  from creates_then_frees [OF ok(1) _ k(2) ok(2) this, of thread_function] obtain t where
    t: "pool_run thread_function env (replicate k Main @ [Main, Main]) ?s = Inr t" "freed t" "created t = k"
    "steps t = (\<lambda>_. 0)" by auto
  have app: "pool_run body env (xs @ ys) s = prog_bind (pool_run body env xs s) (pool_run body env ys)" for body xs ys s
    by (induction xs arbitrary: s) (auto simp: prog_bind_def split: sum.splits)
  have "pool_run thread_function env [Thread 0, Thread 0] t = Inl (Fault UseAfterFree)"
    using t k assms(6) by (simp add: pool_step_def thread_function_def get_scheduling_policy_def)
  then have "pool_run thread_function env ((replicate k Main @ [Main, Main]) @ [Thread 0, Thread 0]) ?s =
      Inl (Fault UseAfterFree)"
    by (subst app) (simp only: t(1) prog_bind_simps)
  then show ?thesis using assms(5) unfolding threads_test_def finish_pool_def by (metis prog_bind_simps(1))
qed

theorem threads_test_use_after_free_witness:
  "\<exists>sched. threads_test (ok_env\<lparr>create_ok := (\<lambda>i. i < 2)\<rparr>) sched (\<lambda>_. 8) = Inl (Fault UseAfterFree)"
  by (rule threads_test_use_after_free [of 2]) (simp_all add: NR_THREADS_def ok_env_def)

end
