(* ===== verification/Debug.thy ===== *)
theory Debug
  imports Fifo FifoPlain GlobalFifo OneQueue
begin

text \<open>
  The procfs files of the policies, \<open>fifo_full_debug_info\<close> of modules/fifo_benchs/fifo.c,
  modules/fifo/fifo.c, modules/global_fifo/global_fifo.c and
  modules/fifo_one_queue/fifo_one_queue.c: what a read locks, dereferences and reports. A report
  holds the values that are printed; the fixed text, the thread's name, its \<open>__state\<close> and the
  constant state of a runqueue are left out.
\<close>

section \<open>One line per thread\<close>

record task_line =
  tl_index :: u32
  tl_pid :: u32
  tl_state :: int
  tl_quantum :: ulong

text \<open>\<open>so\<close> and \<open>qo\<close> are the state and the quantum field of the policy's object.\<close>

definition debug_line ::
    "('p \<Rightarrow> int) \<Rightarrow> ('p \<Rightarrow> ulong) \<Rightarrow> u32 \<Rightarrow> task \<Rightarrow> ('c, 'p, 'z) sys_scheme \<Rightarrow> task_line res" where
  "debug_line so qo i p s =
     res_map (\<lambda>(a, fp). \<lparr>tl_index = i, tl_pid = k_pid (kern s) p, tl_state = so fp, tl_quantum = qo fp\<rparr>)
       (policy_metadata p s)"

fun debug_tasks ::
    "('p \<Rightarrow> int) \<Rightarrow> ('p \<Rightarrow> ulong) \<Rightarrow> u32 \<Rightarrow> task list \<Rightarrow> ('c, 'p, 'z) sys_scheme \<Rightarrow> task_line list res" where
  "debug_tasks so qo i [] s = Inr []"
| "debug_tasks so qo i (p # ps) s =
     res_bind (debug_line so qo i p s) (\<lambda>l. res_map ((#) l) (debug_tasks so qo (i + 1) ps s))"

section \<open>Per-core runqueues\<close>

record cpu_report =
  cr_cpu :: cpu
  cr_current :: "addr option"
  cr_state :: core_state
  cr_nr_tasks :: nat
  cr_stats :: "ulong list"
  cr_tasks :: "task_line list"

text \<open>One turn of the loop; \<open>head_of\<close> reads the fields of the core structure.\<close>

definition debug_cpu ::
    "('c \<Rightarrow> addr option \<times> core_state \<times> ulong list) \<Rightarrow> ('p \<Rightarrow> int) \<Rightarrow> ('p \<Rightarrow> ulong) \<Rightarrow> cpu \<Rightarrow>
     ('c, 'p, 'z) sys_scheme \<Rightarrow> (cpu_report \<times> ('c, 'p, 'z) sys_scheme) res" where
  "debug_cpu head_of so qo cpu s =
     (let s1 = acquire (CoreLock cpu) s;
          (cur, st, sts) = head_of (cores s1 cpu);
          q = k_queue (kern s1) (LocalRq cpu)
      in res_map (\<lambda>ls. (\<lparr>cr_cpu = cpu, cr_current = cur, cr_state = st, cr_nr_tasks = length q,
                         cr_stats = sts, cr_tasks = ls\<rparr>, release (CoreLock cpu) s1))
           (debug_tasks so qo 0 q s1))"

fun debug_cpus ::
    "('c \<Rightarrow> addr option \<times> core_state \<times> ulong list) \<Rightarrow> ('p \<Rightarrow> int) \<Rightarrow> ('p \<Rightarrow> ulong) \<Rightarrow> cpu list \<Rightarrow>
     ('c, 'p, 'z) sys_scheme \<Rightarrow> (cpu_report list \<times> ('c, 'p, 'z) sys_scheme) res" where
  "debug_cpus head_of so qo [] s = Inr ([], s)"
| "debug_cpus head_of so qo (cpu # cpus) s =
     res_bind (debug_cpu head_of so qo cpu s) (\<lambda>(r, s1).
       res_map (\<lambda>(rs, s2). (r # rs, s2)) (debug_cpus head_of so qo cpus s1))"

definition fifo_full_debug_info :: "cpu list \<Rightarrow> fifo_sys \<Rightarrow> (cpu_report list \<times> fifo_sys) res" where
  "fifo_full_debug_info possible_cpus s =
     debug_cpus (\<lambda>fc. (fc_current fc, fc_state fc, [total_enqueue (stats fc), total_exec (stats fc),
                         schedule_calls (stats fc), tick_calls (stats fc)]))
       fp_state current_quantum_ns possible_cpus s"

definition plain_full_debug_info :: "cpu list \<Rightarrow> plain_sys \<Rightarrow> (cpu_report list \<times> plain_sys) res" where
  "plain_full_debug_info possible_cpus s =
     debug_cpus (\<lambda>fc. (pc_current fc, pc_state fc, [])) pp_state pp_quantum_ns possible_cpus s"

section \<open>A shared runqueue\<close>

text \<open>
  The first and the last thread are written into a buffer; \<open>alloc\<close>: \<open>kvmalloc\<close> gave one. \<open>nr_written\<close>
  is uninitialised (\<open>None\<close>) until the first line is written, and is read at the end. The result is the
  number of threads and the lines.
\<close>

definition shared_debug_info ::
    "lock \<Rightarrow> ('p \<Rightarrow> int) \<Rightarrow> ('p \<Rightarrow> ulong) \<Rightarrow> bool \<Rightarrow> ('c, 'p, 'z) sys_scheme \<Rightarrow>
     ((u32 \<times> task_line list) \<times> ('c, 'p, 'z) sys_scheme) res" where
  "shared_debug_info lk so qo alloc s =
     (let s1 = acquire lk s;
          q = k_queue (kern s1) GlobalRq;
          nr = of_nat (length q) :: u32;
          write = (\<lambda>i p. res_bind (debug_line so qo i p s1) (\<lambda>l. if alloc then Inr l else Inl NullDeref))
      in res_bind (if nr \<noteq> 0 then res_map (\<lambda>l. Some [l]) (write 0 (hd q)) else Inr None) (\<lambda>w1.
         res_bind (if 1 < nr then res_map (\<lambda>l. map_option (\<lambda>ls. ls @ [l]) w1) (write (nr - 1) (last q)) else Inr w1)
           (\<lambda>w2.
              let s2 = release lk s1
              in case w2 of None \<Rightarrow> Inl UninitRead | Some ls \<Rightarrow> Inr ((nr, ls), s2))))"

definition gfifo_full_debug_info :: "bool \<Rightarrow> gfifo_sys \<Rightarrow> ((u32 \<times> task_line list) \<times> gfifo_sys) res" where
  "gfifo_full_debug_info alloc s = shared_debug_info ModuleLock gp_state gp_current_quantum_ns alloc s"

definition onefifo_full_debug_info :: "bool \<Rightarrow> onefifo_sys \<Rightarrow> ((u32 \<times> task_line list) \<times> onefifo_sys) res" where
  "onefifo_full_debug_info alloc s = shared_debug_info (RqLock GlobalRq) op_state op_current_quantum_ns alloc s"

end
