(* ===== verification/Debug_Props.thy ===== *)
theory Debug_Props
  imports Debug Fifo_Props GlobalFifo_Props OneQueue_Props
begin

text \<open>
  What a read of the procfs files reports in a state the policies reach, and when it faults.
\<close>

section \<open>The lines of a runqueue\<close>

definition line_of :: "('p \<Rightarrow> int) \<Rightarrow> ('p \<Rightarrow> ulong) \<Rightarrow> ('c, 'p, 'z) sys_scheme \<Rightarrow> task_line \<Rightarrow> task \<Rightarrow> bool" where
  "line_of so qo s l p \<longleftrightarrow> tl_pid l = k_pid (kern s) p \<and>
     (\<exists>a fp. policy_metadata p s = Inr (a, fp) \<and> tl_state l = so fp \<and> tl_quantum l = qo fp)"

lemma debug_line_ok:
  assumes "policy_metadata p s = Inr (a, fp)"
  shows "\<exists>l. debug_line so qo i p s = Inr l \<and> tl_index l = i \<and> line_of so qo s l p"
  using assms by (simp add: debug_line_def line_of_def)

lemma debug_tasks_ok:
  assumes "\<And>p. p \<in> set ps \<Longrightarrow> \<exists>a fp. policy_metadata p s = Inr (a, fp)"
  shows "\<exists>ls. debug_tasks so qo i ps s = Inr ls \<and> list_all2 (line_of so qo s) ls ps \<and>
    map tl_index ls = map (\<lambda>j. i + of_nat j) [0..<length ps]"
  using assms
proof (induction ps arbitrary: i)
  case Nil
  then show ?case by simp
next
  case (Cons p ps)
  obtain a fp where m: "policy_metadata p s = Inr (a, fp)" using Cons.prems by fastforce
  obtain l where l: "debug_line so qo i p s = Inr l" "tl_index l = i" "line_of so qo s l p"
    using debug_line_ok [OF m, where so = so and qo = qo and i = i] by blast
  obtain ls where ls: "debug_tasks so qo (i + 1) ps s = Inr ls" "list_all2 (line_of so qo s) ls ps"
    "map tl_index ls = map (\<lambda>j. i + 1 + of_nat j) [0..<length ps]"
    using Cons.IH [of "i + 1"] Cons.prems by auto
  have "map (\<lambda>j. i + of_nat j) [0..<length (p # ps)] = i # map (\<lambda>j. i + 1 + of_nat j) [0..<length ps]"
    by (simp add: upt_conv_Cons map_Suc_upt [symmetric] o_def add.assoc del: upt_Suc map_Suc_upt)
  with l ls show ?case by simp
qed

section \<open>Per-core runqueues\<close>

lemma policy_metadata_kern_heap:
  "kern t = kern s \<Longrightarrow> heap t = heap s \<Longrightarrow> policy_metadata p t = policy_metadata p s"
  by (simp add: policy_metadata_def split: option.split)

text \<open>What the report of a core says of the state.\<close>

definition report_ok :: "('p \<Rightarrow> int) \<Rightarrow> ('p \<Rightarrow> ulong) \<Rightarrow> ('c, 'p, 'z) sys_scheme \<Rightarrow> cpu \<Rightarrow> cpu_report \<Rightarrow> bool" where
  "report_ok so qo s c r \<longleftrightarrow> cr_cpu r = c \<and> cr_nr_tasks r = length (k_queue (kern s) (LocalRq c)) \<and>
     list_all2 (line_of so qo s) (cr_tasks r) (k_queue (kern s) (LocalRq c)) \<and>
     map tl_index (cr_tasks r) = map of_nat [0..<cr_nr_tasks r]"

definition lock_pairs :: "cpu list \<Rightarrow> kcall list" where
  "lock_pairs cpus = concat (map (\<lambda>c. [Acquire (CoreLock c), Release (CoreLock c)]) cpus)"

lemma debug_cpus_ok:
  fixes s :: "('c, 'p, 'z) sys_scheme"
  assumes "\<And>p c. p \<in> set (k_queue (kern s) (LocalRq c)) \<Longrightarrow> \<exists>a fp. policy_metadata p s = Inr (a, fp)"
  shows "\<exists>rs t. debug_cpus hd_of so qo cpus s = Inr (rs, t) \<and>
    t = s\<lparr>trace := trace s @ lock_pairs cpus\<rparr> \<and> list_all2 (report_ok so qo s) cpus rs"
proof -
  have "\<exists>rs. debug_cpus hd_of so qo cpus (s\<lparr>trace := tr\<rparr>) = Inr (rs, s\<lparr>trace := tr @ lock_pairs cpus\<rparr>) \<and>
      list_all2 (report_ok so qo s) cpus rs" for tr
  proof (induction cpus arbitrary: tr)
    case Nil
    then show ?case by (simp add: lock_pairs_def)
  next
    case (Cons c cpus)
    let ?s = "s\<lparr>trace := tr @ [Acquire (CoreLock c)]\<rparr>" and ?q = "k_queue (kern s) (LocalRq c)"
    have m: "policy_metadata p ?s = policy_metadata p s" for p by (rule policy_metadata_kern_heap) simp_all
    have lo: "line_of so qo ?s = line_of so qo s" by (simp add: fun_eq_iff line_of_def m)
    have "\<exists>a fp. policy_metadata p ?s = Inr (a, fp)" if "p \<in> set ?q" for p
      unfolding m by (rule assms [OF that])
    from debug_tasks_ok [OF this, where so = so and qo = qo and i = 0] obtain ls where
      ls: "debug_tasks so qo 0 ?q ?s = Inr ls" "list_all2 (line_of so qo s) ls ?q"
      "map tl_index ls = map of_nat [0..<length ?q]"
      unfolding lo by auto
    obtain cur st sts where h: "hd_of (cores s c) = (cur, st, sts)" by (rule prod_cases3)
    let ?r = "\<lparr>cr_cpu = c, cr_current = cur, cr_state = st, cr_nr_tasks = length ?q, cr_stats = sts, cr_tasks = ls\<rparr>"
    have "debug_cpu hd_of so qo c (s\<lparr>trace := tr\<rparr>) =
        Inr (?r, s\<lparr>trace := tr @ [Acquire (CoreLock c), Release (CoreLock c)]\<rparr>)"
      using ls(1) h by (simp add: debug_cpu_def acquire_def release_def)
    moreover have "report_ok so qo s c ?r" using ls by (simp add: report_ok_def)
    moreover obtain rs where
      "debug_cpus hd_of so qo cpus (s\<lparr>trace := tr @ [Acquire (CoreLock c), Release (CoreLock c)]\<rparr>) =
        Inr (rs, s\<lparr>trace := (tr @ [Acquire (CoreLock c), Release (CoreLock c)]) @ lock_pairs cpus\<rparr>)"
      "list_all2 (report_ok so qo s) cpus rs" using Cons.IH by blast
    ultimately show ?case by (simp add: lock_pairs_def)
  qed
  from this [of "trace s"] show ?thesis by simp
qed

lemma lock_pairs_balanced: "lock_run [] (lock_pairs cpus) = Some []"
  by (induction cpus) (simp_all add: lock_pairs_def)

text \<open>C36 Reading the procfs file of fifo_benchs in any state that satisfies the invariant of the policy
  does not fault and changes nothing but the locks it takes and gives back one core at a time;
  it reports for every possible cpu, in order, exactly the threads of its runqueue with their pid and
  their position, and all of them as \<open>READY\<close> or \<open>READY_TICK\<close>.\<close>

theorem fifo_debug_exact:
  assumes inv: "fifo_inv s"
  shows "\<exists>rs t. fifo_full_debug_info cpus s = Inr (rs, t) \<and> t = s\<lparr>trace := trace s @ lock_pairs cpus\<rparr> \<and>
    lock_run [] (lock_pairs cpus) = Some [] \<and>
    list_all2 (\<lambda>c r. cr_cpu r = c \<and>
      map tl_pid (cr_tasks r) = map (k_pid (kern s)) (k_queue (kern s) (LocalRq c)) \<and>
      map tl_index (cr_tasks r) = map of_nat [0..<length (k_queue (kern s) (LocalRq c))] \<and>
      set (map tl_state (cr_tasks r)) \<subseteq> {state_code IPANEMA_READY, state_code IPANEMA_READY_TICK}) cpus rs"
proof -
  have pol: "policy_inv fp_state fp_task fp_rq (kern s) (heap s)" using inv by (simp add: fifo_inv_def)
  have q: "\<exists>a fp. policy_metadata p s = Inr (a, fp) \<and>
      fp_state fp \<in> {state_code IPANEMA_READY, state_code IPANEMA_READY_TICK}"
    if "p \<in> set (k_queue (kern s) (LocalRq c))" for p c
  proof -
    have att: "attached (kern s) p" using policy_inv_queued(1) [OF pol that] .
    have "k_rq (kern s) p = Some (LocalRq c)"
      using that kernel_wfD(2) [OF policy_inv_wf [OF pol]] by blast
    then have r: "norm_state (k_state (kern s) p) = IPANEMA_READY" using pol by (auto simp: policy_inv_def queue_ok_def)
    obtain a fp st where o: "policy_metadata p s = Inr (a, fp)" "fp_state fp = state_code st"
      "norm_state st = norm_state (k_state (kern s) p)"
      using fifo_inv_object [OF inv att] by blast
    from o(3) r have "st = IPANEMA_READY \<or> st = IPANEMA_READY_TICK" by (cases st) auto
    with o show ?thesis by auto
  qed
  obtain rs t where t: "fifo_full_debug_info cpus s = Inr (rs, t)" "t = s\<lparr>trace := trace s @ lock_pairs cpus\<rparr>"
    "list_all2 (report_ok fp_state current_quantum_ns s) cpus rs"
    using debug_cpus_ok [of s] q unfolding fifo_full_debug_info_def by blast
  have "map tl_pid ls = map (k_pid (kern s)) ps \<and>
      set (map tl_state ls) \<subseteq> {state_code IPANEMA_READY, state_code IPANEMA_READY_TICK}"
    if "list_all2 (line_of fp_state current_quantum_ns s) ls ps" "set ps \<subseteq> set (k_queue (kern s) (LocalRq c))" for ls ps c
    using that
  proof (induction rule: list_all2_induct)
    case Nil
    then show ?case by simp
  next
    case (Cons l ls p ps)
    from Cons.prems q [of p c] obtain a fp where "policy_metadata p s = Inr (a, fp)"
      "fp_state fp \<in> {state_code IPANEMA_READY, state_code IPANEMA_READY_TICK}" by auto
    with Cons show ?case by (auto simp: line_of_def)
  qed
  note lines = this
  have "list_all2 (\<lambda>c r. cr_cpu r = c \<and>
      map tl_pid (cr_tasks r) = map (k_pid (kern s)) (k_queue (kern s) (LocalRq c)) \<and>
      map tl_index (cr_tasks r) = map of_nat [0..<length (k_queue (kern s) (LocalRq c))] \<and>
      set (map tl_state (cr_tasks r)) \<subseteq> {state_code IPANEMA_READY, state_code IPANEMA_READY_TICK}) cpus rs"
  proof (rule list_all2_mono [OF t(3)])
    fix c r
    assume r: "report_ok fp_state current_quantum_ns s c r"
    then have "list_all2 (line_of fp_state current_quantum_ns s) (cr_tasks r) (k_queue (kern s) (LocalRq c))"
      by (simp add: report_ok_def)
    from lines [OF this order_refl] r show "cr_cpu r = c \<and>
      map tl_pid (cr_tasks r) = map (k_pid (kern s)) (k_queue (kern s) (LocalRq c)) \<and>
      map tl_index (cr_tasks r) = map of_nat [0..<length (k_queue (kern s) (LocalRq c))] \<and>
      set (map tl_state (cr_tasks r)) \<subseteq> {state_code IPANEMA_READY, state_code IPANEMA_READY_TICK}"
      unfolding report_ok_def by (metis (no_types, lifting))
  qed
  with t(1,2) lock_pairs_balanced show ?thesis by blast
qed

theorem fifo_debug_exact_witness:
  "\<exists>r t. fifo_full_debug_info [3] fifo_busy = Inr ([r], t) \<and> cr_cpu r = 3 \<and>
    map tl_pid (cr_tasks r) = [k_pid (kern fifo_busy) 8] \<and> map tl_index (cr_tasks r) = [0]"
  using fifo_debug_exact [OF fifo_busy_inv, of "[3]"] by (auto simp: list_all2_Cons1 fifo_busy_state)

section \<open>A shared runqueue\<close>

lemma shared_debug_outcomes:
  assumes "\<And>p. p \<in> set (k_queue (kern s) GlobalRq) \<Longrightarrow> \<exists>a fp. policy_metadata p s = Inr (a, fp)"
    and len: "length (k_queue (kern s) GlobalRq) < 2 ^ 32"
  shows "case k_queue (kern s) GlobalRq of
      [] \<Rightarrow> shared_debug_info lk so qo alloc s = Inl UninitRead
    | p # ps \<Rightarrow>
        if alloc then \<exists>ls t. shared_debug_info lk so qo alloc s = Inr ((of_nat (Suc (length ps)), ls), t) \<and>
            t = s\<lparr>trace := trace s @ [Acquire lk, Release lk]\<rparr> \<and>
            list_all2 (line_of so qo s) ls (if ps = [] then [p] else [p, last ps]) \<and>
            map tl_index ls = (if ps = [] then [0] else [0, of_nat (length ps)])
        else shared_debug_info lk so qo alloc s = Inl NullDeref"
proof (cases "k_queue (kern s) GlobalRq")
  case Nil
  then show ?thesis by (simp add: shared_debug_info_def acquire_def)
next
  case (Cons p ps)
  let ?s = "acquire lk s" and ?nr = "of_nat (Suc (length ps)) :: u32"
  have m: "policy_metadata q ?s = policy_metadata q s" for q
    by (rule policy_metadata_kern_heap) (simp_all add: acquire_def)
  have lo: "line_of so qo ?s = line_of so qo s" by (simp only: fun_eq_iff line_of_def m) (simp add: acquire_def)
  have "unat ?nr = Suc (length ps)" using len Cons by (simp add: unsigned_of_nat take_bit_nat_eq_self del: of_nat_Suc)
  then have nr: "?nr \<noteq> 0" "1 < ?nr \<longleftrightarrow> ps \<noteq> []" by (auto simp: word_less_nat_alt)
  have q: "k_queue (kern ?s) GlobalRq = p # ps" using Cons by (simp add: acquire_def)
  have line: "\<exists>l. debug_line so qo i x ?s = Inr l \<and> tl_index l = i \<and> line_of so qo s l x"
    if x: "x \<in> set (k_queue (kern s) GlobalRq)" for i x
  proof -
    obtain a fp where "policy_metadata x ?s = Inr (a, fp)" using assms(1) [OF x] unfolding m by blast
    from debug_line_ok [OF this, where so = so and qo = qo and i = i] show ?thesis unfolding lo .
  qed
  obtain l1 where l1: "debug_line so qo 0 p ?s = Inr l1" "tl_index l1 = 0" "line_of so qo s l1 p"
    using line [of p 0] Cons by auto
  obtain l2 where l2: "debug_line so qo (?nr - 1) (last (p # ps)) ?s = Inr l2" "tl_index l2 = ?nr - 1"
    "line_of so qo s l2 (last (p # ps))"
    using line [of "last (p # ps)" "?nr - 1"] unfolding Cons by (metis last_in_set list.distinct(1))
  have t: "release lk ?s = s\<lparr>trace := trace s @ [Acquire lk, Release lk]\<rparr>"
    by (simp add: acquire_def release_def)
  show ?thesis
  proof (cases alloc)
    case False
    then show ?thesis unfolding Cons using q nr(1) l1 by (simp add: shared_debug_info_def Let_def)
  next
    case True
    show ?thesis
    proof (cases "ps = []")
      case True
      with \<open>alloc\<close> show ?thesis unfolding Cons using q nr l1 t by (simp add: shared_debug_info_def Let_def)
    next
      case False
      with True show ?thesis unfolding Cons using q nr l1 l2 t
        by (simp add: shared_debug_info_def Let_def del: of_nat_Suc) simp
    qed
  qed
qed

text \<open>C37 Reading the procfs file of global_fifo in a state that satisfies the invariant of the policy: with
  an empty shared runqueue it reads an uninitialised variable; otherwise, if the allocation of its
  buffer failed it writes through a null pointer; otherwise it takes and gives back the lock of
  the runqueue and reports the number of threads, the first one and, if there are several, the last
  one.\<close>

theorem gfifo_debug_outcomes:
  assumes inv: "gfifo_inv s" and len: "length (k_queue (kern s) GlobalRq) < 2 ^ 32"
  shows "case k_queue (kern s) GlobalRq of
      [] \<Rightarrow> gfifo_full_debug_info alloc s = Inl UninitRead
    | p # ps \<Rightarrow>
        if alloc then \<exists>ls t. gfifo_full_debug_info alloc s = Inr ((of_nat (Suc (length ps)), ls), t) \<and>
            t = s\<lparr>trace := trace s @ [Acquire ModuleLock, Release ModuleLock]\<rparr> \<and>
            list_all2 (line_of gp_state gp_current_quantum_ns s) ls (if ps = [] then [p] else [p, last ps]) \<and>
            map tl_index ls = (if ps = [] then [0] else [0, of_nat (length ps)])
        else gfifo_full_debug_info alloc s = Inl NullDeref"
  unfolding gfifo_full_debug_info_def
proof (rule shared_debug_outcomes [OF _ len])
  fix p
  assume p: "p \<in> set (k_queue (kern s) GlobalRq)"
  have "shared_inv gp_task {} (kern s) (heap s)" using inv by (simp add: gfifo_inv_def shared_ok_def)
  from gfifo_object [OF inv shared_queued(1) [OF this p]] show "\<exists>a fp. policy_metadata p s = Inr (a, fp)" by blast
qed

theorem gfifo_debug_outcomes_witness:
  "\<exists>ls t. gfifo_full_debug_info True gfifo_busy = Inr ((1, ls), t) \<and> map tl_index ls = [0]"
  using gfifo_debug_outcomes [OF gfifo_busy_inv, of True] by (auto simp: gfifo_busy_state)

text \<open>The same for fifo_one_queue, with the lock inside the runqueue.\<close>

lemma onefifo_debug_outcomes:
  assumes inv: "onefifo_inv s" and len: "length (k_queue (kern s) GlobalRq) < 2 ^ 32"
  shows "case k_queue (kern s) GlobalRq of
      [] \<Rightarrow> onefifo_full_debug_info alloc s = Inl UninitRead
    | p # ps \<Rightarrow>
        if alloc then \<exists>ls t. onefifo_full_debug_info alloc s = Inr ((of_nat (Suc (length ps)), ls), t) \<and>
            t = s\<lparr>trace := trace s @ [Acquire (RqLock GlobalRq), Release (RqLock GlobalRq)]\<rparr> \<and>
            list_all2 (line_of op_state op_current_quantum_ns s) ls (if ps = [] then [p] else [p, last ps]) \<and>
            map tl_index ls = (if ps = [] then [0] else [0, of_nat (length ps)])
        else onefifo_full_debug_info alloc s = Inl NullDeref"
  unfolding onefifo_full_debug_info_def
proof (rule shared_debug_outcomes [OF _ len])
  fix p
  assume p: "p \<in> set (k_queue (kern s) GlobalRq)"
  have "shared_inv op_task {} (kern s) (heap s)" using inv by (simp add: onefifo_inv_def base_ok_def)
  from onefifo_object [OF inv shared_queued(1) [OF this p]] show "\<exists>a fp. policy_metadata p s = Inr (a, fp)" by blast
qed

end
