(* ===== verification/Stress.thy ===== *)
theory Stress
  imports Prelude
begin

text \<open>
  The load generators code/stress_children/main.c and code/stress_threads/main.c: which processes and
  threads they start, what they wait for, what they compute and print, and what they leave uninitialised.
  \<open>rand\<close> is a stream of numbers, a parameter.
\<close>

section \<open>The random numbers\<close>

text \<open>\<open>rand()\<close> is between 0 and \<open>RAND_MAX\<close>, 2147483647 in glibc; \<open>rnd n\<close> is the \<open>n\<close>-th call.\<close>

definition rand_stream :: "(nat \<Rightarrow> int) \<Rightarrow> bool" where
  "rand_stream rnd \<longleftrightarrow> (\<forall>n. 0 \<le> rnd n \<and> rnd n \<le> 2147483647)"

text \<open>A sum of two \<open>int\<close>s.\<close>

definition int_add :: "int \<Rightarrow> int \<Rightarrow> int res" where
  "int_add x y = (if - 2147483648 \<le> x + y \<and> x + y \<le> 2147483647 then Inr (x + y) else Inl SignedOverflow)"

section \<open>stress_children\<close>

text \<open>
  The loop of \<open>subchild_fn\<close>, which draws its bound anew in every turn: \<open>i\<close> numbers were drawn, \<open>j\<close>
  turns made. The result is the number of turns and the sum.
\<close>

function subchild_loop :: "(nat \<Rightarrow> int) \<Rightarrow> nat \<Rightarrow> nat \<Rightarrow> int \<Rightarrow> (nat \<times> int) res" where
  "subchild_loop rnd i j acc =
     (if j < nat (rnd i mod 100000)
      then res_bind (int_add acc (rnd (i + 1))) (subchild_loop rnd (i + 2) (j + 1))
      else Inr (j, acc))"
  by pat_completeness auto

termination
proof (relation "measure (\<lambda>(rnd, i, j, acc). 100000 - j)")
  show "wf (measure (\<lambda>(rnd :: nat \<Rightarrow> int, i :: nat, j, acc :: int). 100000 - j))" by simp
next
  fix rnd :: "nat \<Rightarrow> int" and i j :: nat and acc :: int and x
  assume "j < nat (rnd i mod 100000)"
  moreover have "rnd i mod 100000 < 100000" by simp
  ultimately have "j < 100000" by linarith
  then show "((rnd, i + 2, j + 1, x), rnd, i, j, acc) \<in> measure (\<lambda>(rnd, i, j, acc). 100000 - j)" by simp
qed

declare subchild_loop.simps [simp del]

definition subchild_fn :: "(nat \<Rightarrow> int) \<Rightarrow> (nat \<times> int) res" where
  "subchild_fn rnd = subchild_loop rnd 1 0 (rnd 0)"

text \<open>
  It ends after at most 99999 turns, with the sum of what it drew, or with an overflow of that sum.
\<close>

lemma subchild_loop_bound:
  "subchild_loop rnd i j acc = Inr (n, x) \<Longrightarrow> j \<le> n \<and> (n = j \<or> n \<le> 99999) \<and>
    x = acc + (\<Sum>k = j..<n. rnd (i + 1 + 2 * (k - j)))"
proof (induction rnd i j acc rule: subchild_loop.induct)
  case (1 rnd i j acc)
  show ?case
  proof (cases "j < nat (rnd i mod 100000)")
    case False
    with "1.prems" show ?thesis by (simp add: subchild_loop.simps [of rnd i j])
  next
    case True
    from True "1.prems" have ok: "int_add acc (rnd (i + 1)) = Inr (acc + rnd (i + 1))"
      by (auto simp: subchild_loop.simps [of rnd i j] int_add_def split: if_splits)
    with True "1.prems" have next_turn: "subchild_loop rnd (i + 2) (j + 1) (acc + rnd (i + 1)) = Inr (n, x)"
      by (simp add: subchild_loop.simps [of rnd i j])
    from "1.IH" [OF True next_turn] have IH: "j + 1 \<le> n" "n = j + 1 \<or> n \<le> 99999"
      "x = acc + rnd (i + 1) + (\<Sum>k = j + 1..<n. rnd (i + 2 + 1 + 2 * (k - (j + 1))))" by auto
    have "rnd i mod 100000 < 100000" by simp
    with True have "j < 99999" by linarith
    moreover have "(\<Sum>k = j + 1..<n. rnd (i + 2 + 1 + 2 * (k - (j + 1)))) =
        (\<Sum>k = Suc j..<n. rnd (i + 1 + 2 * (k - j)))"
    proof (rule sum.cong)
      fix k assume "k \<in> {Suc j..<n}"
      then have "i + 2 + 1 + 2 * (k - (j + 1)) = i + 1 + 2 * (k - j)" by (simp, presburger)
      then show "rnd (i + 2 + 1 + 2 * (k - (j + 1))) = rnd (i + 1 + 2 * (k - j))" by (simp only:)
    qed simp
    ultimately show ?thesis using IH by (auto simp: sum.atLeast_Suc_lessThan [of j n])
  qed
qed

lemma subchild_fn_bound:
  "subchild_fn rnd = Inr (n, x) \<Longrightarrow> n \<le> 99999 \<and> x = rnd 0 + (\<Sum>k<n. rnd (2 * k + 2))"
  using subchild_loop_bound [of rnd 1 0 "rnd 0" n x]
  by (auto simp: subchild_fn_def lessThan_atLeast0 intro: sum.cong)

lemma subchild_loop_fault: "subchild_loop rnd i j acc = Inl f \<Longrightarrow> f = SignedOverflow"
proof (induction rnd i j acc rule: subchild_loop.induct)
  case (1 rnd i j acc)
  then show ?case
    by (auto simp: subchild_loop.simps [of rnd i j] int_add_def split: if_splits)
qed

text \<open>Two numbers in the upper half are enough for that.\<close>

lemma subchild_fn_overflow:
  assumes "0 < rnd 1 mod 100000" and "1073741824 \<le> rnd 0" and "1073741824 \<le> rnd 2"
  shows "subchild_fn rnd = Inl SignedOverflow"
  using assms by (simp add: subchild_fn_def subchild_loop.simps [of rnd "Suc 0" 0] int_add_def numeral_2_eq_2)

text \<open>
  What a process and its descendants do: the processes forked, those that run \<open>subchild_fn\<close>, and those
  that come to the loop that waits.
\<close>

record tally =
  forked :: nat
  workers :: nat
  waiters :: nat

text \<open>
  The loop of \<open>child_fn\<close> with \<open>n\<close> turns left. \<open>fork\<close> is not 0 in the parent, nor when it failed: both
  run \<open>subchild_fn\<close> and leave; only the new process goes on with the loop.
\<close>

fun child_loop :: "(nat \<Rightarrow> bool) \<Rightarrow> nat \<Rightarrow> tally" where
  "child_loop fork_ok 0 = \<lparr>forked = 0, workers = 0, waiters = 1\<rparr>"
| "child_loop fork_ok (Suc n) =
     (if fork_ok n then
        let t = child_loop fork_ok n
        in t\<lparr>forked := forked t + 1, workers := workers t + 1\<rparr>
      else \<lparr>forked = 0, workers = 1, waiters = 0\<rparr>)"

definition child_fn :: "(nat \<Rightarrow> bool) \<Rightarrow> tally" where
  "child_fn fork_ok = child_loop fork_ok 2"

text \<open>
  The loop of \<open>main\<close>: only a \<open>fork\<close> that gives 0 runs \<open>child_fn\<close>. \<open>fork_ok i\<close> is that of the \<open>i\<close>-th
  child, \<open>sub_ok i\<close> those of its descendants.
\<close>

fun spawn_children :: "(nat \<Rightarrow> bool) \<Rightarrow> (nat \<Rightarrow> nat \<Rightarrow> bool) \<Rightarrow> nat \<Rightarrow> tally" where
  "spawn_children fork_ok sub_ok 0 = \<lparr>forked = 0, workers = 0, waiters = 0\<rparr>"
| "spawn_children fork_ok sub_ok (Suc i) =
     (let t = spawn_children fork_ok sub_ok i
      in if fork_ok i then
           let c = child_fn (sub_ok i)
           in \<lparr>forked = forked t + 1 + forked c, workers = workers t + workers c, waiters = waiters t + waiters c\<rparr>
         else t)"

definition stress_children_main :: "(nat \<Rightarrow> bool) \<Rightarrow> (nat \<Rightarrow> nat \<Rightarrow> bool) \<Rightarrow> tally" where
  "stress_children_main fork_ok sub_ok = spawn_children fork_ok sub_ok 100"

text \<open>Every process but \<open>main\<close> ends in exactly one of the two ways.\<close>

lemma child_loop_partition: "forked (child_loop fork_ok n) + 1 = workers (child_loop fork_ok n) + waiters (child_loop fork_ok n)"
  by (induction n) (simp_all add: Let_def)

lemma spawn_children_partition:
  "forked (spawn_children fork_ok sub_ok n) =
     workers (spawn_children fork_ok sub_ok n) + waiters (spawn_children fork_ok sub_ok n)"
proof (induction n)
  case 0
  then show ?case by simp
next
  case (Suc n)
  have "forked (child_fn (sub_ok n)) + 1 = workers (child_fn (sub_ok n)) + waiters (child_fn (sub_ok n))"
    unfolding child_fn_def by (rule child_loop_partition)
  with Suc show ?case by (simp add: Let_def)
qed

text \<open>
  With no failure the 100 children are chains of three processes: 200 of the 300 processes are not
  children of \<open>main\<close>, which waits for 100, and the ones that reach the loop that waits have no children.
\<close>

lemma spawn_children_counts:
  "spawn_children (\<lambda>_. True) (\<lambda>_ _. True) n = \<lparr>forked = 3 * n, workers = 2 * n, waiters = n\<rparr>"
  by (induction n) (simp_all add: child_fn_def numeral_2_eq_2 Let_def)

lemma stress_children_counts:
  "stress_children_main (\<lambda>_. True) (\<lambda>_ _. True) = \<lparr>forked = 300, workers = 200, waiters = 100\<rparr>"
  by (simp add: stress_children_main_def spawn_children_counts)

section \<open>stress_threads\<close>

text \<open>
  An entry of the table, fresh from \<open>malloc\<close>: \<open>None\<close> is an uninitialised field.
\<close>

record thread_info =
  ti_index :: nat
  ti_file :: bool
  ti_started :: "bool option"

definition STRESS_THREADS :: nat where
  "STRESS_THREADS = 20"

text \<open>One turn of the loop that creates; \<open>pthread_create\<close>'s result is ignored.\<close>

definition start_thread :: "(nat \<Rightarrow> bool) \<Rightarrow> nat \<Rightarrow> thread_info" where
  "start_thread tmpfile_ok i =
     (if tmpfile_ok i then \<lparr>ti_index = i, ti_file = True, ti_started = Some True\<rparr>
      else \<lparr>ti_index = i, ti_file = False, ti_started = None\<rparr>)"

text \<open>The loop that joins: the indices joined and their files closed.\<close>

fun join_threads :: "thread_info list \<Rightarrow> nat list res" where
  "join_threads [] = Inr []"
| "join_threads (t # ts) =
     (case ti_started t of
        None \<Rightarrow> Inl UninitRead
      | Some st \<Rightarrow> res_map (\<lambda>js. if st then ti_index t # js else js) (join_threads ts))"

text \<open>\<open>malloc_ok\<close>: the table was allocated; the result is the exit code and the threads joined.\<close>

definition stress_threads_main :: "bool \<Rightarrow> (nat \<Rightarrow> bool) \<Rightarrow> (int \<times> nat list) res" where
  "stress_threads_main malloc_ok tmpfile_ok =
     (if \<not> malloc_ok then Inr (1, [])
      else res_map (\<lambda>js. (0, js)) (join_threads (map (start_thread tmpfile_ok) [0..<STRESS_THREADS])))"

text \<open>
  \<open>thread_fn\<close> up to its loop: the thread with index 10 changes its class; \<open>ret\<close> is what
  \<open>pthread_setschedparam\<close> returned, 0 or a positive error number. The result: whether an error is
  reported.
\<close>

definition thread_fn_reports :: "nat \<Rightarrow> int \<Rightarrow> bool" where
  "thread_fn_reports index ret \<longleftrightarrow> index = 10 \<and> ret = -1"

text \<open>
  The rest of \<open>thread_fn\<close>: what the thread does, in order. \<open>rnd\<close> are the numbers its calls of \<open>rand\<close>
  got; the sum that is written is unsigned.
\<close>

datatype thread_act = SetClass int | USleep int | Hello nat | Write u32

definition thread_turn :: "(nat \<Rightarrow> int) \<Rightarrow> nat \<Rightarrow> thread_act list" where
  "thread_turn rnd i = [USleep (rnd (2 * i) mod 20000), Write (of_nat i + of_int (rnd (2 * i + 1)))]"

definition thread_fn :: "nat \<Rightarrow> int \<Rightarrow> (nat \<Rightarrow> int) \<Rightarrow> thread_act list" where
  "thread_fn index ret rnd =
     (if index = 10 then SetClass 3 # (if ret = -1 then [] else [USleep 1000000]) else []) @
     Hello index # concat (map (thread_turn rnd) [0..<100])"

text \<open>Every thread writes 100 numbers, and every pause is one \<open>usleep\<close> accepts.\<close>

lemma thread_fn_writes:
  "length (filter (\<lambda>a. case a of Write x \<Rightarrow> True | _ \<Rightarrow> False) (thread_fn index ret rnd)) = 100"
proof -
  have "length (filter (\<lambda>a. case a of Write x \<Rightarrow> True | _ \<Rightarrow> False) (concat (map (thread_turn rnd) [0..<n]))) = n" for n
    by (induction n) (simp_all add: thread_turn_def)
  then show ?thesis by (simp add: thread_fn_def)
qed

lemma thread_fn_pauses:
  "rand_stream rnd \<Longrightarrow> USleep t \<in> set (thread_fn index ret rnd) \<Longrightarrow> 0 \<le> t \<and> t \<le> 1000000"
  by (auto simp: thread_fn_def thread_turn_def split: if_splits)

lemma join_threads_outcome:
  "join_threads (map (start_thread tmpfile_ok) ixs) =
     (if list_all tmpfile_ok ixs then Inr ixs else Inl UninitRead)"
  by (induction ixs) (auto simp: start_thread_def)

text \<open>
  All threads are joined if every temporary file could be made; if one could not, the loop that joins
  reads the uninitialised \<open>started\<close> of its entry.
\<close>

lemma stress_threads_outcome:
  "stress_threads_main True tmpfile_ok =
     (if \<forall>i < STRESS_THREADS. tmpfile_ok i then Inr (0, [0..<STRESS_THREADS]) else Inl UninitRead)"
  by (simp add: stress_threads_main_def join_threads_outcome list_all_iff Ball_def)

end
