(* ===== verification/GlobalFifo_Conc.thy ===== *)
theory GlobalFifo_Conc
  imports GlobalFifo_Refine
begin

text \<open>
  modules/global_fifo/global_fifo.c with \<open>fifo_newly_idle\<close> taken apart: the handler gives the
  shared lock back while it has a thread in hand, so handlers on other cpus run between its critical
  sections. Steps are the sections of each cpu and whole handlers for the other events, in any order;
  the locks that a section holds on to (\<open>ipanema_double_lock_core\<close>) forbid no step here, so
  there are more interleavings than in the kernel.
\<close>

section \<open>The steps\<close>

text \<open>Where a cpu is in \<open>fifo_newly_idle\<close>, with the values of its locals.\<close>

datatype gfifo_pc =
    Outside
  | Pulled task
  | PulledFrom task cpu
  | Moving task cpu

fun gfifo_section :: "kapi \<Rightarrow> cpu \<Rightarrow> gfifo_pc \<Rightarrow> gfifo_sys \<Rightarrow> gfifo_pc \<times> gfifo_sys" where
  "gfifo_section api c Outside s =
     (case gfifo_pull api s of
        (None, t) \<Rightarrow> (Outside, t)
      | (Some p, t) \<Rightarrow> (Pulled p, t))"
| "gfifo_section api c (Pulled p) s = (PulledFrom p (k_cpu (kern s) p), s)"
| "gfifo_section api c (PulledFrom p d) s =
     (if c = d then (Outside, gfifo_queue_local api c p s)
      else (Moving p d, gfifo_migrate api c p d s))"
| "gfifo_section api c (Moving p d) s = (Outside, gfifo_queue_moved api c p d s)"

datatype gfifo_action = Deliver kevent | Section cpu

type_synonym gfifo_conc = "gfifo_sys \<times> (cpu \<Rightarrow> gfifo_pc)"

fun gfifo_conc_step :: "kapi \<Rightarrow> gfifo_action \<Rightarrow> gfifo_conc \<Rightarrow> gfifo_conc res" where
  "gfifo_conc_step api (Deliver e) (s, pc) = res_map (\<lambda>t. (t, pc)) (gfifo_routines api e s)"
| "gfifo_conc_step api (Section c) (s, pc) =
     (let (q, t) = gfifo_section api c (pc c) s in Inr (t, pc(c := q)))"

fun hand :: "gfifo_pc \<Rightarrow> task option" where
  "hand Outside = None"
| "hand (Pulled p) = Some p"
| "hand (PulledFrom p d) = Some p"
| "hand (Moving p d) = Some p"

definition in_hands :: "(cpu \<Rightarrow> gfifo_pc) \<Rightarrow> task set" where
  "in_hands pc = {p. \<exists>c. hand (pc c) = Some p}"

text \<open>The thread an event is about.\<close>

fun subject :: "kevent \<Rightarrow> task option" where
  "subject (NewPrepare p flags al n) = Some p"
| "subject (NewPlace p) = Some p"
| "subject (NewEnd p) = Some p"
| "subject (Tick p c now) = Some p"
| "subject (Yield p) = Some p"
| "subject (Block p c) = Some p"
| "subject (UnblockPrepare p flags n) = Some p"
| "subject (UnblockPlace p) = Some p"
| "subject (UnblockEnd p) = Some p"
| "subject (Terminate p) = Some p"
| "subject (SetTaskCpu p c) = Some p"
| "subject _ = None"

text \<open>
  Events follow the calling protocol and are not about a thread in hand; a section of any cpu may
  run at any time.
\<close>

fun gfifo_conc_protocol :: "gfifo_action \<Rightarrow> gfifo_conc \<Rightarrow> bool" where
  "gfifo_conc_protocol (Deliver e) (s, pc) \<longleftrightarrow>
     protocol e s \<and> (\<forall>c. hand (pc c) = None \<or> hand (pc c) \<noteq> subject e)"
| "gfifo_conc_protocol (Section c) (s, pc) \<longleftrightarrow> True"

section \<open>The invariant\<close>

text \<open>A thread in hand is live and in no runqueue; its cpu is the one the handler read, or moved it to.\<close>

fun pc_ok :: "cpu \<Rightarrow> gfifo_pc \<Rightarrow> kernel \<Rightarrow> bool" where
  "pc_ok c Outside k \<longleftrightarrow> True"
| "pc_ok c (Pulled p) k \<longleftrightarrow> attached k p \<and> k_rq k p = None \<and> norm_state (k_state k p) = IPANEMA_READY"
| "pc_ok c (PulledFrom p d) k \<longleftrightarrow>
     attached k p \<and> k_rq k p = None \<and> norm_state (k_state k p) = IPANEMA_READY \<and> k_cpu k p = d"
| "pc_ok c (Moving p d) k \<longleftrightarrow>
     attached k p \<and> k_rq k p = None \<and> norm_state (k_state k p) = IPANEMA_MIGRATING \<and> k_cpu k p = c"

definition one_hand :: "(cpu \<Rightarrow> gfifo_pc) \<Rightarrow> bool" where
  "one_hand pc \<longleftrightarrow> (\<forall>c d p. hand (pc c) = Some p \<longrightarrow> hand (pc d) = Some p \<longrightarrow> c = d)"

fun gfifo_conc_inv :: "gfifo_conc \<Rightarrow> bool" where
  "gfifo_conc_inv (s, pc) \<longleftrightarrow>
     gfifo_ok (in_hands pc) s \<and> one_hand pc \<and> (\<forall>c. pc_ok c (pc c) (kern s))"

lemma in_hands_update:
  assumes "one_hand pc"
  shows "in_hands (pc(c := q)) =
    (in_hands pc - set_option (hand (pc c))) \<union> set_option (hand q)"
proof -
  have *: "hand (pc d) = Some p \<Longrightarrow> hand (pc c) = Some p \<Longrightarrow> d = c" for d p
    using assms unfolding one_hand_def by blast
  have rest: "(\<exists>d. d \<noteq> c \<and> hand (pc d) = Some p) \<longleftrightarrow> p \<in> in_hands pc \<and> hand (pc c) \<noteq> Some p" for p
  proof
    assume "p \<in> in_hands pc \<and> hand (pc c) \<noteq> Some p"
    then show "\<exists>d. d \<noteq> c \<and> hand (pc d) = Some p" by (auto simp: in_hands_def)
  next
    assume "\<exists>d. d \<noteq> c \<and> hand (pc d) = Some p"
    then obtain d where d: "d \<noteq> c" "hand (pc d) = Some p" by blast
    with * [OF d(2)] show "p \<in> in_hands pc \<and> hand (pc c) \<noteq> Some p" by (auto simp: in_hands_def)
  qed
  have "p \<in> in_hands (pc(c := q)) \<longleftrightarrow> hand q = Some p \<or> (\<exists>d. d \<noteq> c \<and> hand (pc d) = Some p)" for p
    by (auto simp: in_hands_def)
  then show ?thesis by (auto simp: rest)
qed

lemma in_handsI: "hand (pc c) = Some p \<Longrightarrow> p \<in> in_hands pc"
  by (auto simp: in_hands_def)

lemma one_hand_update:
  assumes "one_hand pc" and "\<And>p. hand q = Some p \<Longrightarrow> hand (pc c) = Some p \<or> p \<notin> in_hands pc"
  shows "one_hand (pc(c := q))"
proof -
  have *: "d = c" if "hand q = Some p" "hand (pc d) = Some p" for d p
    using assms(1) assms(2) [OF that(1)] that(2) unfolding one_hand_def by (auto simp: in_hands_def)
  show ?thesis
    using assms(1) * unfolding one_hand_def by (auto split: if_splits)
qed

lemma pc_ok_unqueued: "pc_ok c q k \<Longrightarrow> hand q = Some p \<Longrightarrow> k_rq k p = None"
  by (cases q) auto

text \<open>What the kernel knows of one thread.\<close>

definition same_thread :: "task \<Rightarrow> kernel \<Rightarrow> kernel \<Rightarrow> bool" where
  "same_thread p k k' \<longleftrightarrow> k_state k' p = k_state k p \<and> k_rq k' p = k_rq k p \<and>
     k_cpu k' p = k_cpu k p \<and> k_meta k' p = k_meta k p"

lemma same_thread_refl [simp]: "same_thread p k k"
  by (simp add: same_thread_def)

lemma same_thread_trans: "same_thread p k k' \<Longrightarrow> same_thread p k' k'' \<Longrightarrow> same_thread p k k''"
  by (simp add: same_thread_def)

lemma pc_ok_same:
  assumes "pc_ok c q k" and "\<And>p. hand q = Some p \<Longrightarrow> same_thread p k k'"
  shows "pc_ok c q k'"
  using assms by (cases q) (auto simp: same_thread_def attached_def)

context saakm_framework
begin

lemma same_thread_change: "q \<noteq> p \<Longrightarrow> same_thread p k (change_state api q st c r k)"
  by (simp add: same_thread_def cs_state_other cs_rq cs_cpu_other cs_meta)

lemma same_thread_remove: "q \<noteq> p \<Longrightarrow> same_thread p k (remove_task api x q k)"
  by (simp add: same_thread_def rt_laws)

section \<open>Handlers leave the other threads alone\<close>

lemma gfifo_newly_idle_same:
  assumes inv: "gfifo_ok E s" and p: "k_rq (kern s) p = None"
  shows "same_thread p (kern s) (kern (gfifo_newly_idle api c s))"
proof -
  obtain n t where pull: "gfifo_pull api s = (n, t)" by fastforce
  show ?thesis
  proof (cases n)
    case None
    with gfifo_pull_ok [OF inv pull] pull show ?thesis by (simp add: gfifo_newly_idle_sections)
  next
    case (Some q)
    with gfifo_pull_ok [OF inv pull] p have "q \<noteq> p" "kern t = remove_task api GlobalRq q (kern s)"
      by auto
    with Some pull show ?thesis
      by (simp add: gfifo_newly_idle_sections gfifo_queue_local_def gfifo_migrate_def
          gfifo_queue_moved_def Let_def)
         (blast intro: same_thread_trans same_thread_change same_thread_remove)
  qed
qed

lemma gfifo_same_thread:
  assumes inv: "gfifo_ok E s" and t: "gfifo_routines api e s = Inr t"
    and p: "k_rq (kern s) p = None" and other: "subject e \<noteq> Some p"
  shows "same_thread p (kern s) (kern t)"
proof -
  have ok: "shared_ok gp_task gc_current E s" using inv by (simp add: gfifo_ok_def)
  have head: "q \<noteq> p" if "first_task api (kern s) x = Some q" for q x
    using shared_ok_head(4) [OF ok that] p by auto
  show ?thesis
  proof (cases e)
    case (NewlyIdle c)
    with t gfifo_newly_idle_same [OF inv p] show ?thesis by auto
  next
    case (BalancingSelect c)
    with t gfifo_newly_idle_same [OF inv p] show ?thesis by (auto simp: gfifo_load_balance_def)
  next
    case (Schedule c now)
    with t head show ?thesis
      by (auto simp: gfifo_schedule_def gfifo_run_next_def res_bind_eq_Inr res_map_eq_Inr Let_def
          same_thread_change split: option.splits if_splits)
  next
    case (NewPrepare q flags al n)
    with t other show ?thesis
      by (auto simp: gfifo_new_prepare_def res_map_eq_Inr Let_def same_thread_def set_metadata_def
          split: option.splits)
  next
    case (SetTaskCpu q c)
    with t other show ?thesis by (auto simp: same_thread_def set_task_cpu_def)
  qed (use t other in \<open>auto simp: gfifo_tick_def gfifo_terminate_def gfifo_new_place_def
      gfifo_yield_def gfifo_block_def gfifo_unblock_place_def gfifo_new_end_def
      gfifo_unblock_end_def gfifo_core_entry_def gfifo_core_exit_def gfifo_enter_idle_def
      gfifo_exit_idle_def gfifo_upd_idle_def Let_def res_bind_eq_Inr res_map_eq_Inr
      same_thread_change split: option.splits if_splits\<close>)
qed

section \<open>Every step keeps the invariant\<close>

lemma gfifo_deliver_inv:
  assumes inv: "gfifo_conc_inv (s, pc)" and en: "gfifo_conc_protocol (Deliver e) (s, pc)"
  shows "\<exists>y. gfifo_conc_step api (Deliver e) (s, pc) = Inr y \<and> gfifo_conc_inv y"
proof -
  from inv have ok: "gfifo_ok (in_hands pc) s" and pcs: "pc_ok c (pc c) (kern s)" for c by simp_all
  obtain t where t: "gfifo_routines api e s = Inr t" "gfifo_ok (in_hands pc) t"
    using gfifo_ok_progress [OF ok] en by auto
  have "pc_ok c (pc c) (kern t)" for c
  proof (rule pc_ok_same [OF pcs])
    fix p assume p: "hand (pc c) = Some p"
    with en have "subject e \<noteq> Some p" by auto (metis option.distinct(1))
    with p show "same_thread p (kern s) (kern t)"
      by (intro gfifo_same_thread [OF ok t(1)]) (auto intro: pc_ok_unqueued [OF pcs])
  qed
  with inv t show ?thesis by simp
qed

text \<open>A section that leaves the threads in other hands alone.\<close>

lemma gfifo_conc_inv_update:
  assumes inv: "gfifo_conc_inv (s, pc)"
    and ok: "gfifo_ok ((in_hands pc - set_option (hand (pc c))) \<union> set_option (hand q)) t"
    and new: "pc_ok c q (kern t)" "\<And>p. hand q = Some p \<Longrightarrow> hand (pc c) = Some p \<or> p \<notin> in_hands pc"
    and same: "\<And>p d. d \<noteq> c \<Longrightarrow> hand (pc d) = Some p \<Longrightarrow> hand (pc c) \<noteq> Some p \<Longrightarrow>
      same_thread p (kern s) (kern t)"
  shows "gfifo_conc_inv (t, pc(c := q))"
proof -
  from inv have one: "one_hand pc" and pcs: "pc_ok d (pc d) (kern s)" for d by simp_all
  have "pc_ok d ((pc(c := q)) d) (kern t)" for d
  proof (cases "d = c")
    case False
    then have "same_thread p (kern s) (kern t)" if "hand (pc d) = Some p" for p
      using same one that unfolding one_hand_def by blast
    with False pc_ok_same [OF pcs] show ?thesis by simp
  qed (use new in simp)
  with ok one_hand_update [OF one new(2)] show ?thesis by (simp add: in_hands_update [OF one])
qed

lemma gfifo_section_inv:
  assumes inv: "gfifo_conc_inv (s, pc)"
  shows "\<exists>y. gfifo_conc_step api (Section c) (s, pc) = Inr y \<and> gfifo_conc_inv y"
proof -
  from inv have ok: "gfifo_ok (in_hands pc) s" and one: "one_hand pc"
    and pcs: "pc_ok d (pc d) (kern s)" for d by simp_all
  note upd = gfifo_conc_inv_update [OF inv]
  have ins: "insert p (in_hands pc - {p}) = in_hands pc" if "hand (pc c) = Some p" for p
    using that by (auto simp: in_hands_def)
  have "gfifo_conc_inv (t, pc(c := q))" if sec: "gfifo_section api c (pc c) s = (q, t)" for q t
  proof (cases "pc c")
    case Outside
    obtain n u where pull: "gfifo_pull api s = (n, u)" by fastforce
    show ?thesis
    proof (cases n)
      case None
      with gfifo_pull_ok [OF ok pull] pull sec Outside show ?thesis
        by (intro upd) auto
    next
      case (Some p)
      with gfifo_pull_ok [OF ok pull] pull sec Outside
      have t: "q = Pulled p" "gfifo_ok (insert p (in_hands pc)) t" "attached (kern t) p"
        "k_rq (kern s) p = Some GlobalRq" "kern t = remove_task api GlobalRq p (kern s)"
        by auto
      have new: "p \<notin> in_hands pc"
      proof
        assume "p \<in> in_hands pc"
        then obtain d where "hand (pc d) = Some p" by (auto simp: in_hands_def)
        from pc_ok_unqueued [OF pcs this] t(4) show False by simp
      qed
      have "norm_state (k_state (kern s) p) = IPANEMA_READY"
        using ok t(4) by (auto simp: gfifo_ok_def shared_ok_def shared_inv_def placed_ok_def)
      with t new Outside show ?thesis
        by (intro upd) (auto simp: rt_laws in_hands_def intro: same_thread_remove)
    qed
  next
    case (Pulled p)
    with sec pcs [of c] in_handsI [of pc c p] ok show ?thesis
      by (intro upd) (auto simp: insert_absorb)
  next
    case (PulledFrom p d)
    with pcs [of c] ok ins have p: "attached (kern s) p" "k_cpu (kern s) p = d"
      "gfifo_ok (insert p (in_hands pc - {p})) s" by auto
    show ?thesis
    proof (cases "c = d")
      case True
      with sec PulledFrom p gfifo_queue_local_ok [OF p(3,1)] show ?thesis
        by (intro upd) (auto simp: gfifo_queue_local_def intro: same_thread_change)
    next
      case False
      with sec PulledFrom have t: "q = Moving p d" "t = gfifo_migrate api c p d s" by simp_all
      have "k_rq (kern t) p = None" "norm_state (k_state (kern t) p) = IPANEMA_MIGRATING"
        by (simp_all add: t gfifo_migrate_def cs_rq cs_state)
      with t PulledFrom gfifo_migrate_ok [OF p(3,1), where c = c and d = d] show ?thesis
        by (intro upd) (auto simp: gfifo_migrate_def intro: same_thread_change)
    qed
  next
    case (Moving p d)
    with pcs [of c] ok ins have p: "attached (kern s) p" "k_cpu (kern s) p = c"
      "gfifo_ok (insert p (in_hands pc - {p})) s" by auto
    with sec Moving gfifo_queue_moved_ok [OF p(3,1,2), where d = d] show ?thesis
      by (intro upd) (auto simp: gfifo_queue_moved_def intro: same_thread_change)
  qed
  then show ?thesis by (auto split: prod.split)
qed

lemma gfifo_conc_progress:
  assumes "gfifo_conc_inv x" and "gfifo_conc_protocol a x"
  shows "\<exists>y. gfifo_conc_step api a x = Inr y \<and> gfifo_conc_inv y"
  using assms by (cases x; cases a) (blast intro: gfifo_deliver_inv gfifo_section_inv)+

section \<open>Every step is one of the abstract scheduler\<close>

text \<open>A section takes the head of the shared queue, lets the thread wait in hand, or queues it.\<close>

end

fun gfifo_conc_op :: "gfifo_action \<Rightarrow> gfifo_conc \<Rightarrow> sop" where
  "gfifo_conc_op (Deliver e) (s, pc) = gfifo_op e s"
| "gfifo_conc_op (Section c) (s, pc) =
     (case pc c of
        Outside \<Rightarrow> Take
      | Pulled p \<Rightarrow> Idle
      | PulledFrom p d \<Rightarrow> if c = d then Keep p c else Stop p
      | Moving p d \<Rightarrow> Keep p c)"

context saakm_framework
begin

lemma gfifo_conc_refines:
  assumes inv: "gfifo_conc_inv x" and en: "gfifo_conc_protocol a x"
    and y: "gfifo_conc_step api a x = Inr y"
  shows "abs_shared (kern (fst y)) = s_step (gfifo_conc_op a x) (abs_shared (kern (fst x)))"
proof -
  obtain s pc where x: "x = (s, pc)" by fastforce
  with inv have ok: "gfifo_ok (in_hands pc) s" and pcs: "pc_ok c (pc c) (kern s)" for c by simp_all
  then have wf: "kernel_wf (kern s)" by (auto simp: gfifo_ok_def shared_ok_def dest: shared_inv_wf)
  show ?thesis
  proof (cases a)
    case (Deliver e)
    with x y en gfifo_ok_refines [OF ok] show ?thesis by (auto simp: res_map_eq_Inr)
  next
    case (Section c)
    show ?thesis
    proof (cases "pc c")
      case Outside
      with x y Section wf show ?thesis
        by (cases "k_queue (kern s) GlobalRq")
           (auto simp: gfifo_pull_def first_task Let_def abs_take simp del: s_step.simps,
            simp add: abs_shared_def)
    next
      case (PulledFrom p d)
      with x y Section pcs [of c] show ?thesis
        by (auto simp: gfifo_queue_local_def gfifo_migrate_def abs_keep [OF wf] abs_stop [OF wf]
            simp del: s_step.simps)
    next
      case (Moving p d)
      with x y Section pcs [of c] show ?thesis
        by (auto simp: gfifo_queue_moved_def abs_keep [OF wf] simp del: s_step.simps)
    qed (use x y Section in auto)
  qed
qed

end

sublocale saakm_framework \<subseteq> gfifo_conc: refining_policy "gfifo_conc_step api" gfifo_conc_protocol
    gfifo_conc_inv "\<lambda>x. abs_shared (kern (fst x))" gfifo_conc_op s_step
  by unfold_locales (fact gfifo_conc_progress gfifo_conc_refines)+

interpretation ref_gfifo_conc: refining_policy "gfifo_conc_step ref_api" gfifo_conc_protocol
    gfifo_conc_inv "\<lambda>x. abs_shared (kern (fst x))" gfifo_conc_op s_step
  by (rule ref.gfifo_conc.refining_policy_axioms)

abbreviation gfifo_conc_ops :: "kapi \<Rightarrow> gfifo_action list \<Rightarrow> gfifo_conc \<Rightarrow> sop list" where
  "gfifo_conc_ops api \<equiv> ops_of (gfifo_conc_step api) gfifo_conc_op"

context saakm_framework
begin

lemma gfifo_conc_reachable:
  "reachable (gfifo_conc_step api) gfifo_conc_protocol x y \<Longrightarrow> gfifo_conc_inv x \<Longrightarrow> gfifo_conc_inv y"
  by (rule gfifo_conc.reachable_inv)

lemma gfifo_conc_run:
  "gfifo_conc_inv x \<Longrightarrow> admissible (gfifo_conc_step api) gfifo_conc_protocol as x \<Longrightarrow>
    \<exists>y. run (gfifo_conc_step api) as x = Inr y \<and> gfifo_conc_inv y \<and>
      abs_shared (kern (fst y)) = fold s_step (gfifo_conc_ops api as x) (abs_shared (kern (fst x)))"
  by (rule gfifo_conc.run_refines)

end

text \<open>The actions that are no termination; only they are abstract drops.\<close>

fun live_action :: "gfifo_action \<Rightarrow> bool" where
  "live_action (Deliver e) = not_terminate e"
| "live_action (Section c) = True"

lemma gfifo_conc_op_drop: "live_action a \<Longrightarrow> \<not> is_drop (gfifo_conc_op a x)"
  by (cases x; cases a) (auto simp: gfifo_op_drop split: gfifo_pc.splits)

lemma gfifo_conc_ops_drop:
  "list_all live_action as \<Longrightarrow> list_all (\<lambda>op. \<not> is_drop op) (gfifo_conc_ops api as x)"
  by (induction as arbitrary: x) (auto simp: gfifo_conc_op_drop split: sum.splits)

section \<open>A handler comes to its end\<close>

text \<open>The sections a cpu has left; only its own sections change where it is.\<close>

fun sections_left :: "gfifo_pc \<Rightarrow> nat" where
  "sections_left Outside = 0"
| "sections_left (Pulled p) = 3"
| "sections_left (PulledFrom p d) = 2"
| "sections_left (Moving p d) = 1"

lemma sections_left_step:
  assumes "gfifo_conc_step api a (s, pc) = Inr (t, pc')"
  shows "a = Section c \<Longrightarrow> pc c \<noteq> Outside \<Longrightarrow> sections_left (pc' c) < sections_left (pc c)"
    and "a \<noteq> Section c \<Longrightarrow> pc' c = pc c"
  using assms by (cases "pc c"; cases a; auto simp: res_map_eq_Inr split: prod.splits if_splits)+

lemma sections_leave:
  assumes "run (gfifo_conc_step api) as (s, pc) = Inr x"
    and "sections_left (pc c) \<le> length (filter (\<lambda>a. a = Section c) as)"
  shows "\<exists>n t pc'. n \<le> length as \<and> run (gfifo_conc_step api) (take n as) (s, pc) = Inr (t, pc') \<and>
    pc' c = Outside"
  using assms
proof (induction as arbitrary: s pc)
  case Nil
  then show ?case by (cases "pc c") auto
next
  case (Cons a as)
  show ?case
  proof (cases "pc c = Outside")
    case True
    then show ?thesis by (intro exI [of _ 0]) auto
  next
    case False
    from Cons.prems obtain t pc1 where st: "gfifo_conc_step api a (s, pc) = Inr (t, pc1)"
      "run (gfifo_conc_step api) as (t, pc1) = Inr x"
      by (auto simp: res_bind_eq_Inr)
    have "sections_left (pc1 c) \<le> length (filter (\<lambda>a. a = Section c) as)"
      using Cons.prems(2) sections_left_step [OF st(1), of c] False by (cases "a = Section c") auto
    from Cons.IH [OF st(2) this] obtain n u pc' where
      "n \<le> length as" "run (gfifo_conc_step api) (take n as) (t, pc1) = Inr (u, pc')" "pc' c = Outside"
      by blast
    with st(1) show ?thesis by (intro exI [of _ "Suc n"]) auto
  qed
qed

end
