(* ===== verification/GlobalFifo_Conc_Props.thy ===== *)
theory GlobalFifo_Conc_Props
  imports GlobalFifo_Conc GlobalFifo_Props
begin

text \<open>
  The properties of modules/global_fifo/global_fifo.c when handlers on other cpus run between the critical
  sections of \<open>fifo_newly_idle\<close>: what stays true, that the handler comes to its end, and the
  event that breaks it.
\<close>

section \<open>A concrete interleaving\<close>

text \<open>
  Cpu 0 pulls thread 8, last on cpu 2; before it reads the thread's cpu, thread 7 yields on cpu 3, and
  cpu 2 pulls that thread.
\<close>

definition gfifo_race :: "gfifo_action list" where
  "gfifo_race = [Section 0, Deliver (Yield 7), Section 2, Section 0, Section 0, Section 0]"

definition gfifo_raced :: gfifo_conc where
  "gfifo_raced = projr (run (gfifo_conc_step ref_api) gfifo_race (gfifo_busy, \<lambda>_. Outside))"

lemma quiet_inv: "gfifo_inv s \<Longrightarrow> gfifo_conc_inv (s, \<lambda>_. Outside)"
  by (simp add: gfifo_ok_empty one_hand_def in_hands_def)

lemma gfifo_busy_conc_reachable:
  "reachable (gfifo_conc_step ref_api) gfifo_conc_protocol (gfifo_loaded, \<lambda>_. Outside) (gfifo_busy, \<lambda>_. Outside)"
proof -
  have lift: "reachable (gfifo_routines ref_api) protocol gfifo_loaded t \<Longrightarrow>
      reachable (gfifo_conc_step ref_api) gfifo_conc_protocol (gfifo_loaded, \<lambda>_. Outside) (t, \<lambda>_. Outside)" for t
  proof (induction rule: reachable.induct)
    case start
    then show ?case by (rule reachable.start)
  next
    case (step t e u)
    show ?case
      by (rule reachable.step [OF step.IH, where e = "Deliver e"]) (use step.hyps in simp_all)
  qed
  show ?thesis by (rule lift [OF gfifo_busy_reachable])
qed

lemma gfifo_race_admissible:
  "admissible (gfifo_conc_step ref_api) gfifo_conc_protocol gfifo_race (gfifo_busy, \<lambda>_. Outside)"
  by (simp add: gfifo_race_def gfifo_busy_state gfifo_pull_def gfifo_migrate_def gfifo_queue_moved_def
      gfifo_yield_def ref_first_task_def ref_remove_task_def ref_change_state_def sys_defs Let_def)

lemma gfifo_race_run:
  "run (gfifo_conc_step ref_api) gfifo_race (gfifo_busy, \<lambda>_. Outside) = Inr gfifo_raced"
  using ref.gfifo_conc_run [OF quiet_inv [OF gfifo_busy_inv] gfifo_race_admissible]
  by (auto simp: gfifo_raced_def)

lemma gfifo_raced_reachable:
  "reachable (gfifo_conc_step ref_api) gfifo_conc_protocol (gfifo_loaded, \<lambda>_. Outside) gfifo_raced"
  by (rule reachable_run [OF gfifo_busy_conc_reachable gfifo_race_admissible gfifo_race_run])

lemma gfifo_raced_state:
  "snd gfifo_raced 2 = Pulled 7" "snd gfifo_raced 0 = Outside"
  "k_queue (kern (fst gfifo_raced)) (LocalRq 0) = [8]"
  "k_queue (kern (fst gfifo_raced)) GlobalRq = []"
  "k_state (kern (fst gfifo_raced)) 7 = IPANEMA_READY"
  by (simp_all add: gfifo_raced_def gfifo_race_def gfifo_busy_state gfifo_pull_def gfifo_migrate_def
      gfifo_queue_moved_def gfifo_yield_def ref_first_task_def ref_remove_task_def
      ref_change_state_def sys_defs Let_def)

section \<open>The properties\<close>

lemma gfifo_conc_reachable_inv:
  assumes fw: "saakm_framework api" and fresh: "fresh_kernel (kern s0)" "heap s0 = (\<lambda>_. None)"
    and init: "gfifo_mod_init api cpus True ok res s0 m = (r, s, m')"
    and run: "reachable (gfifo_conc_step api) gfifo_conc_protocol (s, \<lambda>_. Outside) x"
  shows "gfifo_conc_inv x"
proof -
  have "gfifo_inv s"
    using saakm_framework.gfifo_init_inv [OF fw fresh, of cpus ok res m] init by simp
  from saakm_framework.gfifo_conc_reachable [OF fw run quiet_inv [OF this]] show ?thesis .
qed

text \<open>C4 Whatever other cpus do between the critical sections of \<open>fifo_newly_idle\<close>, global_fifo.c
  loses no thread: in every state reachable from the loaded module by sections and by events that are not
  about a thread in hand, a ready thread is in exactly one runqueue or in the hand of a cpu; a thread in hand is
  in no runqueue and in no other hand; no further step faults; and when no cpu is inside the handler
  the invariant of the module holds.\<close>

theorem gfifo_interleaved_safe:
  assumes fw: "saakm_framework api" and fresh: "fresh_kernel (kern s0)" "heap s0 = (\<lambda>_. None)"
    and init: "gfifo_mod_init api cpus True ok res s0 m = (r, s, m')"
    and run: "reachable (gfifo_conc_step api) gfifo_conc_protocol (s, \<lambda>_. Outside) (t, pc)"
  shows "(norm_state (k_state (kern t) p) = IPANEMA_READY \<longrightarrow>
      (\<exists>c. hand (pc c) = Some p) \<noteq> (\<exists>!x. p \<in> set (k_queue (kern t) x))) \<and>
    (hand (pc c) = Some p \<longrightarrow>
      (\<forall>x. p \<notin> set (k_queue (kern t) x)) \<and> (\<forall>d. hand (pc d) = Some p \<longrightarrow> d = c)) \<and>
    (gfifo_conc_protocol a (t, pc) \<longrightarrow> (\<exists>y. gfifo_conc_step api a (t, pc) = Inr y)) \<and>
    ((\<forall>c. pc c = Outside) \<longrightarrow> gfifo_inv t)"
proof -
  have inv: "gfifo_conc_inv (t, pc)" by (rule gfifo_conc_reachable_inv [OF fw fresh init run])
  then have ok: "gfifo_ok (in_hands pc) t" and one: "one_hand pc"
    and pcs: "pc_ok c (pc c) (kern t)" for c by simp_all
  from ok have sinv: "shared_inv gp_task (in_hands pc) (kern t) (heap t)"
    by (simp add: gfifo_ok_def shared_ok_def)
  then have wf: "kernel_wf (kern t)" by (rule shared_inv_wf)
  have free: "p \<notin> set (k_queue (kern t) x)" if "hand (pc c) = Some p" for c x p
    using pc_ok_unqueued [OF pcs that] by (simp add: kernel_wfD(2) [OF wf])
  have queued: "\<exists>!x. p \<in> set (k_queue (kern t) x)"
    if "norm_state (k_state (kern t) p) = IPANEMA_READY" "\<nexists>c. hand (pc c) = Some p"
    using sinv that by (auto simp: shared_inv_def none_lost_def in_hands_def kernel_wfD(2) [OF wf])
  have quiet: "gfifo_inv t" if "\<forall>c. pc c = Outside"
    using ok that by (simp add: in_hands_def gfifo_ok_empty)
  have "\<exists>y. gfifo_conc_step api a (t, pc) = Inr y" if "gfifo_conc_protocol a (t, pc)"
    using saakm_framework.gfifo_conc_progress [OF fw inv that] by blast
  with free queued quiet one show ?thesis unfolding one_hand_def by blast
qed

theorem gfifo_interleaved_safe_witness:
  "(\<exists>c. hand (snd gfifo_raced c) = Some 7) \<noteq> (\<exists>!x. 7 \<in> set (k_queue (kern (fst gfifo_raced)) x)) \<and>
    (\<forall>x. 7 \<notin> set (k_queue (kern (fst gfifo_raced)) x))"
proof -
  have "reachable (gfifo_conc_step ref_api) gfifo_conc_protocol (gfifo_loaded, \<lambda>_. Outside)
      (fst gfifo_raced, snd gfifo_raced)" using gfifo_raced_reachable by simp
  from gfifo_interleaved_safe [OF ref.saakm_framework_axioms _ _ gfifo_loaded_init this, of 7 2]
  show ?thesis by (simp add: gfifo_raced_state gfifo_demo_def del: gfifo_conc_protocol.simps)
qed

text \<open>C18 The shared runqueue of global_fifo.c stays first in, first out under those interleavings:
  along every sequence of sections and events without terminations, the threads it held at the start
  followed by those that entered it, in that order, are the threads that cores took from it, in the order
  they took them, followed by the threads it holds at the end; and all the while the module is
  the abstract scheduler with one shared queue and a queue per core.\<close>

theorem gfifo_interleaved_fifo:
  assumes fw: "saakm_framework api" and inv: "gfifo_conc_inv x"
    and adm: "admissible (gfifo_conc_step api) gfifo_conc_protocol as x"
    and live: "list_all live_action as"
  shows "\<exists>y. run (gfifo_conc_step api) as x = Inr y \<and> gfifo_conc_inv y \<and>
    abs_shared (kern (fst y)) = fold s_step (gfifo_conc_ops api as x) (abs_shared (kern (fst x))) \<and>
    k_queue (kern (fst x)) GlobalRq @ entered (gfifo_conc_ops api as x) =
      taken (gfifo_conc_ops api as x) (abs_shared (kern (fst x))) @ k_queue (kern (fst y)) GlobalRq"
proof -
  obtain y where y: "run (gfifo_conc_step api) as x = Inr y" "gfifo_conc_inv y"
    "abs_shared (kern (fst y)) = fold s_step (gfifo_conc_ops api as x) (abs_shared (kern (fst x)))"
    using saakm_framework.gfifo_conc_run [OF fw inv adm] by blast
  with shared_taken_kernel [OF y(3) gfifo_conc_ops_drop [OF live]] show ?thesis by blast
qed

theorem gfifo_interleaved_fifo_witness:
  "\<exists>y. run (gfifo_conc_step ref_api) gfifo_race (gfifo_busy, \<lambda>_. Outside) = Inr y \<and>
    k_queue (kern gfifo_busy) GlobalRq @ entered (gfifo_conc_ops ref_api gfifo_race (gfifo_busy, \<lambda>_. Outside)) =
      taken (gfifo_conc_ops ref_api gfifo_race (gfifo_busy, \<lambda>_. Outside)) (abs_shared (kern gfifo_busy)) @
        k_queue (kern (fst y)) GlobalRq"
proof -
  have "list_all live_action gfifo_race" by (simp add: gfifo_race_def)
  from gfifo_interleaved_fifo [OF ref.saakm_framework_axioms quiet_inv [OF gfifo_busy_inv] gfifo_race_admissible this]
  show ?thesis unfolding fst_conv by blast
qed

text \<open>\<open>fifo_newly_idle\<close> of global_fifo.c returns: on a cpu inside the handler, at most three
  more of its sections end it, whatever sections other cpus run and whatever events are delivered in
  between; none of them faults.\<close>

theorem gfifo_newly_idle_returns:
  assumes fw: "saakm_framework api" and inv: "gfifo_conc_inv (s, pc)"
    and adm: "admissible (gfifo_conc_step api) gfifo_conc_protocol as (s, pc)"
    and enough: "3 \<le> length (filter (\<lambda>a. a = Section c) as)"
  shows "\<exists>n t pc'. n \<le> length as \<and> run (gfifo_conc_step api) (take n as) (s, pc) = Inr (t, pc') \<and>
    pc' c = Outside"
proof -
  obtain x where x: "run (gfifo_conc_step api) as (s, pc) = Inr x"
    using saakm_framework.gfifo_conc_run [OF fw inv adm] by blast
  have "sections_left (pc c) \<le> 3" by (cases "pc c") simp_all
  with enough show ?thesis by (intro sections_leave [OF x]) simp
qed

theorem gfifo_newly_idle_returns_witness:
  "\<exists>n t pc'. n \<le> length gfifo_race \<and>
    run (gfifo_conc_step ref_api) (take n gfifo_race) (gfifo_busy, \<lambda>_. Outside) = Inr (t, pc') \<and>
    pc' 0 = Outside"
  by (rule gfifo_newly_idle_returns [OF ref.saakm_framework_axioms quiet_inv [OF gfifo_busy_inv] gfifo_race_admissible])
     (simp add: gfifo_race_def)

text \<open>Run without interruption, the sections of \<open>fifo_newly_idle\<close> are the whole handler:
  from outside, between one and four sections of a cpu lead to the state that the handler computes, with
  the cpu outside again.\<close>

theorem gfifo_sections_newly_idle:
  assumes out: "pc c = Outside"
  shows "\<exists>n. 0 < n \<and> n \<le> 4 \<and>
    run (gfifo_conc_step api) (replicate n (Section c)) (s, pc) = Inr (gfifo_newly_idle api c s, pc)"
proof -
  obtain m t where pull: "gfifo_pull api s = (m, t)" by fastforce
  have pc: "pc(c := Outside) = pc" using out by auto
  show ?thesis
  proof (cases m)
    case None
    with pull out pc show ?thesis
      by (intro exI [of _ 1]) (simp add: gfifo_newly_idle_sections)
  next
    case (Some p)
    let ?n = "if c = k_cpu (kern t) p then 3 else 4 :: nat"
    from Some pull out pc have "run (gfifo_conc_step api) (replicate ?n (Section c)) (s, pc) =
        Inr (gfifo_newly_idle api c s, pc)"
      by (auto simp: gfifo_newly_idle_sections eval_nat_numeral Let_def)
    then show ?thesis by (intro exI [of _ ?n]) simp
  qed
qed

theorem gfifo_sections_newly_idle_witness:
  "\<exists>n. 0 < n \<and> n \<le> 4 \<and> run (gfifo_conc_step ref_api) (replicate n (Section 0)) (gfifo_busy, \<lambda>_. Outside) =
    Inr (gfifo_newly_idle ref_api 0 gfifo_busy, \<lambda>_. Outside)"
  by (rule gfifo_sections_newly_idle) simp

text \<open>
  The event that must not come: a thread that terminates while a cpu has it in hand, after the shared
  lock was given back, is made ready again by the rest of the handler and queued on that cpu.
\<close>

theorem gfifo_terminate_in_hand:
  assumes fw: "saakm_framework api" and inv: "gfifo_conc_inv (s, pc)" and pc: "pc c = Pulled p"
  shows "\<exists>n x. run (gfifo_conc_step api) (Deliver (Terminate p) # replicate n (Section c)) (s, pc) = Inr x \<and>
    norm_state (k_state (kern (fst x)) p) = IPANEMA_READY \<and>
    p \<in> set (k_queue (kern (fst x)) (LocalRq c)) \<and> snd x c = Outside"
proof -
  from inv have ok: "gfifo_ok (in_hands pc) s" and p: "pc_ok c (pc c) (kern s)" by simp_all
  from p pc have att: "attached (kern s) p" by simp
  obtain t where t: "gfifo_terminate api p s = Inr t" "gfifo_ok (in_hands pc) t"
    using saakm_framework.gfifo_terminate_ok [OF fw ok att] by blast
  then have wf: "kernel_wf (kern t)" by (auto simp: gfifo_ok_def shared_ok_def dest: shared_inv_wf)
  let ?d = "k_cpu (kern t) p"
  let ?n = "if c = ?d then 2 else 3 :: nat"
  let ?x = "(if c = ?d then gfifo_queue_local api c p t
    else gfifo_queue_moved api c p ?d (gfifo_migrate api c p ?d t), pc(c := Outside))"
  have "run (gfifo_conc_step api) (Deliver (Terminate p) # replicate ?n (Section c)) (s, pc) = Inr ?x"
    using t(1) pc by (auto simp: eval_nat_numeral)
  moreover have "norm_state (k_state (kern (fst ?x)) p) = IPANEMA_READY"
    and "p \<in> set (k_queue (kern (fst ?x)) (LocalRq c))" and "snd ?x c = Outside"
    using saakm_framework.cs_queue [OF fw saakm_framework.cs_wf [OF fw wf]]
    by (simp_all add: gfifo_queue_local_def gfifo_queue_moved_def gfifo_migrate_def
        saakm_framework.cs_state [OF fw] saakm_framework.cs_queue [OF fw wf])
  ultimately show ?thesis by blast
qed

theorem gfifo_terminate_in_hand_witness:
  "\<exists>n x. run (gfifo_conc_step ref_api) (Deliver (Terminate 7) # replicate n (Section 2)) gfifo_raced = Inr x \<and>
    norm_state (k_state (kern (fst x)) 7) = IPANEMA_READY \<and>
    7 \<in> set (k_queue (kern (fst x)) (LocalRq 2)) \<and> snd x 2 = Outside"
proof -
  have "gfifo_conc_inv (fst gfifo_raced, snd gfifo_raced)"
    using ref.gfifo_conc_run [OF quiet_inv [OF gfifo_busy_inv] gfifo_race_admissible] gfifo_race_run
    by simp
  from gfifo_terminate_in_hand [OF ref.saakm_framework_axioms this, of 2 7] gfifo_raced_state(1)
  show ?thesis by simp
qed

end
