(* ===== verification/Locks.thy ===== *)
theory Locks
  imports Saakm
begin

text \<open>
  The spinlocks of the policies and of the framework, taken by several cpus at once. A program is the
  list of the locks a cpu takes and gives back: the framework takes locks of its own, calls handlers under
  them, and gives them back. Cpus run such lists in small steps, and a cpu that wants a lock another one
  holds, or that it holds itself, waits. If every list takes its locks upwards in the order of the
  locks, some cpu can always move: no set of programs can block each other.
\<close>

section \<open>The order of the locks\<close>

text \<open>
  The framework's own locks, those of the tasks and of the cores, come first; then the lock of a
  shared runqueue, and the locks inside the runqueues of the cores. Locks of a kind are in the order of
  their numbers.
\<close>

fun lock_key :: "lock \<Rightarrow> nat \<times> nat" where
  "lock_key (TaskLock p) = (0, p)"
| "lock_key (CoreLock c) = (1, c)"
| "lock_key ModuleLock = (2, 0)"
| "lock_key (RqLock GlobalRq) = (3, 0)"
| "lock_key (RqLock (LocalRq c)) = (4, c)"

lemma lock_key_inj: "lock_key l = lock_key m \<Longrightarrow> l = m"
  by (cases l rule: lock_key.cases; cases m rule: lock_key.cases; simp)

instantiation lock :: linorder
begin

definition less_eq_lock :: "lock \<Rightarrow> lock \<Rightarrow> bool" where
  "less_eq_lock l m \<longleftrightarrow> fst (lock_key l) < fst (lock_key m) \<or>
     fst (lock_key l) = fst (lock_key m) \<and> snd (lock_key l) \<le> snd (lock_key m)"

definition less_lock :: "lock \<Rightarrow> lock \<Rightarrow> bool" where
  "less_lock l m \<longleftrightarrow> fst (lock_key l) < fst (lock_key m) \<or>
     fst (lock_key l) = fst (lock_key m) \<and> snd (lock_key l) < snd (lock_key m)"

instance
proof
  fix l m :: lock
  assume "l \<le> m" and "m \<le> l"
  then have "lock_key l = lock_key m" by (auto simp: less_eq_lock_def prod_eq_iff)
  then show "l = m" by (rule lock_key_inj)
qed (auto simp: less_eq_lock_def less_lock_def)

end

lemma core_lock_order [simp]:
  "CoreLock c < CoreLock d \<longleftrightarrow> c < d" "CoreLock c \<le> CoreLock d \<longleftrightarrow> c \<le> d"
  "TaskLock p < CoreLock c" "TaskLock p < TaskLock q \<longleftrightarrow> p < q" "\<not> CoreLock c < TaskLock p"
  by (simp_all add: less_lock_def less_eq_lock_def)

lemma inner_lock_order [simp]:
  "CoreLock c < ModuleLock" "CoreLock c < RqLock x" "TaskLock p < ModuleLock" "TaskLock p < RqLock x"
  "ModuleLock < RqLock x" "RqLock GlobalRq < RqLock (LocalRq c)" "RqLock (LocalRq c) < RqLock (LocalRq d) \<longleftrightarrow> c < d"
  by (cases x; simp add: less_lock_def)+

section \<open>What a handler takes and gives back\<close>

datatype lock_op = Lock lock | Unlock lock

text \<open>
  \<open>ipanema_double_lock_core\<close> takes the lock of the lower cpu first (papiers/nca2025/saakm.tex, the rule
  for several runqueues).
\<close>

fun lock_ops :: "kcall list \<Rightarrow> lock_op list" where
  "lock_ops [] = []"
| "lock_ops (Acquire l # cs) = Lock l # lock_ops cs"
| "lock_ops (AcquireBoth l m # cs) =
     (if l \<le> m then [Lock l, Lock m] else [Lock m, Lock l]) @ lock_ops cs"
| "lock_ops (Release l # cs) = Unlock l # lock_ops cs"
| "lock_ops (_ # cs) = lock_ops cs"

lemma lock_ops_append: "lock_ops (cs @ ds) = lock_ops cs @ lock_ops ds"
  by (induction cs rule: lock_ops.induct) simp_all

text \<open>Locks are taken upwards from those that are held (\<open>H\<close>), and all are given back.\<close>

fun ranked :: "lock list \<Rightarrow> lock_op list \<Rightarrow> bool" where
  "ranked H [] \<longleftrightarrow> H = []"
| "ranked H (Lock l # ops) \<longleftrightarrow> (\<forall>h \<in> set H. h < l) \<and> ranked (l # H) ops"
| "ranked H (Unlock l # ops) \<longleftrightarrow> l \<in> set H \<and> ranked (remove1 l H) ops"

text \<open>A list that starts without locks can be run under locks that come before all of its own.\<close>

lemma ranked_under:
  "ranked K ops \<Longrightarrow> (\<And>l h. Lock l \<in> set ops \<Longrightarrow> h \<in> set H \<Longrightarrow> h < l) \<Longrightarrow> ranked H ops' \<Longrightarrow>
    ranked (K @ H) (ops @ ops')"
proof (induction K ops rule: ranked.induct)
  case (3 K l ops)
  then show ?case by (simp add: remove1_append)
qed auto

lemma ranked_append: "ranked H ops \<Longrightarrow> ranked [] ops' \<Longrightarrow> ranked H (ops @ ops')"
  using ranked_under [of H ops "[]" ops'] by simp

section \<open>Several cpus\<close>

text \<open>The locks a cpu holds and what is left of its handler.\<close>

type_synonym lock_state = "cpu \<Rightarrow> lock list \<times> lock_op list"

abbreviation held :: "lock_state \<Rightarrow> cpu \<Rightarrow> lock list" where
  "held st c \<equiv> fst (st c)"

abbreviation todo :: "lock_state \<Rightarrow> cpu \<Rightarrow> lock_op list" where
  "todo st c \<equiv> snd (st c)"

text \<open>A step of cpu \<open>c\<close> inside its handler, and a cpu that starts a handler.\<close>

inductive lock_step :: "cpu \<Rightarrow> lock_state \<Rightarrow> lock_state \<Rightarrow> bool" where
  take: "st c = (H, Lock l # ops) \<Longrightarrow> (\<forall>d. l \<notin> set (held st d)) \<Longrightarrow>
    lock_step c st (st(c := (l # H, ops)))"
| give: "st c = (H, Unlock l # ops) \<Longrightarrow> l \<in> set H \<Longrightarrow>
    lock_step c st (st(c := (remove1 l H, ops)))"

inductive_cases lock_step_elim: "lock_step c st st'"

inductive lock_run_step :: "(lock_op list \<Rightarrow> bool) \<Rightarrow> lock_state \<Rightarrow> lock_state \<Rightarrow> bool"
  for prog where
  begin_handler: "todo st c = [] \<Longrightarrow> prog ops \<Longrightarrow> lock_run_step prog st (st(c := (held st c, ops)))"
| inside: "lock_step c st st' \<Longrightarrow> lock_run_step prog st st'"

definition all_idle :: lock_state where
  "all_idle = (\<lambda>c. ([], []))"

definition busy_cpus :: "lock_state \<Rightarrow> cpu set" where
  "busy_cpus st = {c. todo st c \<noteq> []}"

text \<open>What holds at all times when the handlers are ranked.\<close>

definition locks_ok :: "lock_state \<Rightarrow> bool" where
  "locks_ok st \<longleftrightarrow> finite (busy_cpus st) \<and> (\<forall>c. ranked (held st c) (todo st c)) \<and>
     (\<forall>c. distinct (held st c)) \<and>
     (\<forall>c d l. l \<in> set (held st c) \<longrightarrow> l \<in> set (held st d) \<longrightarrow> c = d)"

lemma locks_okD:
  assumes "locks_ok st"
  shows "finite (busy_cpus st)" "ranked (held st c) (todo st c)" "distinct (held st c)"
    "l \<in> set (held st c) \<Longrightarrow> l \<in> set (held st d) \<Longrightarrow> c = d"
  using assms by (auto simp: locks_ok_def)

lemma all_idle_ok: "locks_ok all_idle"
  by (simp add: locks_ok_def all_idle_def busy_cpus_def)

lemma busy_cpus_update: "busy_cpus (st(c := (H, ops))) \<subseteq> insert c (busy_cpus st)"
  by (auto simp: busy_cpus_def)

lemma locks_ok_update:
  assumes ok: "locks_ok st" and r: "ranked H ops" and d: "distinct H"
    and excl: "\<And>l d. l \<in> set H \<Longrightarrow> l \<in> set (held st d) \<Longrightarrow> d = c"
  shows "locks_ok (st(c := (H, ops)))"
proof -
  have "finite (busy_cpus (st(c := (H, ops))))"
    using locks_okD(1) [OF ok] busy_cpus_update by (metis finite.insertI finite_subset)
  with locks_okD(2-) [OF ok] r d excl show ?thesis
    unfolding locks_ok_def by auto
qed

lemma lock_step_ok:
  assumes "lock_step c st st'" and ok: "locks_ok st"
  shows "locks_ok st'"
  using assms(1)
proof (cases rule: lock_step.cases)
  case (take H l ops)
  with locks_okD(2,3) [OF ok, of c] have r: "ranked (l # H) ops" "distinct (l # H)" by auto
  have "d = c" if "m \<in> set (l # H)" "m \<in> set (held st d)" for m d
    using that take locks_okD(4) [OF ok, of m d c] by auto
  with locks_ok_update [OF ok r] show ?thesis by (simp only: take(1))
next
  case (give H l ops)
  with locks_okD(2,3) [OF ok, of c] have r: "ranked (remove1 l H) ops" "distinct (remove1 l H)"
    by auto
  have "d = c" if "m \<in> set (remove1 l H)" "m \<in> set (held st d)" for m d
    using that give set_remove1_subset [of l H] locks_okD(4) [OF ok, of m d c] by auto
  with locks_ok_update [OF ok r] show ?thesis by (simp only: give(1))
qed

section \<open>Nobody waits in a circle\<close>

text \<open>A cpu that cannot move wants a lock that is held; its holder is in a handler.\<close>

lemma blocked_wants:
  assumes ok: "locks_ok st" and busy: "c \<in> busy_cpus st" and no: "\<nexists>st'. lock_step c st st'"
  shows "\<exists>l ops d. todo st c = Lock l # ops \<and> l \<in> set (held st d) \<and> d \<in> busy_cpus st"
proof -
  obtain H ops where st: "st c = (H, ops)" by fastforce
  with locks_okD(2) [OF ok, of c] busy consider
      l ops' where "ops = Lock l # ops'" | l ops' where "ops = Unlock l # ops'" "l \<in> set H"
    by (cases "(H, ops)" rule: ranked.cases) (auto simp: busy_cpus_def)
  then show ?thesis
  proof cases
    case (1 l ops')
    with no st obtain d where d: "l \<in> set (held st d)" using lock_step.take [of st c H l ops'] by blast
    with locks_okD(2) [OF ok, of d] have "todo st d \<noteq> []" by (cases "todo st d") auto
    with 1 st d show ?thesis by (auto simp: busy_cpus_def)
  next
    case (2 l ops')
    with no st lock_step.give [of st c H l ops'] show ?thesis by blast
  qed
qed

theorem some_cpu_moves:
  assumes ok: "locks_ok st" and busy: "busy_cpus st \<noteq> {}"
  shows "\<exists>c st'. c \<in> busy_cpus st \<and> lock_step c st st'"
proof (rule ccontr)
  assume no: "\<not> ?thesis"
  define want where "want c = (case todo st c of Lock l # _ \<Rightarrow> l | _ \<Rightarrow> ModuleLock)" for c
  have fin: "finite (busy_cpus st)" by (rule locks_okD(1) [OF ok])
  obtain c where c: "c \<in> busy_cpus st" "\<And>d. d \<in> busy_cpus st \<Longrightarrow> want d \<le> want c"
    using Max_in [of "want ` busy_cpus st"] Max_ge [of "want ` busy_cpus st"] fin busy
    by (metis (no_types, lifting) finite_imageI image_iff image_is_empty)
  from blocked_wants [OF ok c(1)] no c(1) obtain l ops d where
    l: "todo st c = Lock l # ops" "l \<in> set (held st d)" "d \<in> busy_cpus st" by blast
  from blocked_wants [OF ok l(3)] no l(3) obtain m ops' where
    m: "todo st d = Lock m # ops'" by blast
  with locks_okD(2) [OF ok, of d] l(2) have "l < m" by simp
  with c(2) [OF l(3)] l(1) m show False by (simp add: want_def)
qed

text \<open>Without new handlers all cpus come to their end.\<close>

definition work :: "lock_state \<Rightarrow> nat" where
  "work st = (\<Sum>c \<in> busy_cpus st. length (todo st c))"

lemma lock_step_todo:
  assumes "lock_step c st st'"
  shows "\<exists>x H ops. todo st c = x # ops \<and> st' = st(c := (H, ops))"
  using assms by (cases rule: lock_step.cases) auto

lemma lock_step_work:
  assumes step: "lock_step c st st'" and fin: "finite (busy_cpus st)"
  shows "work st' < work st"
proof -
  from lock_step_todo [OF step] obtain x H ops where
    st: "todo st c = x # ops" "st' = st(c := (H, ops))" by blast
  then have c: "c \<in> busy_cpus st" and sub: "busy_cpus st' \<subseteq> busy_cpus st"
    by (auto simp: busy_cpus_def)
  have "work st' \<le> (\<Sum>d \<in> busy_cpus st. length (todo st' d))"
    unfolding work_def by (rule sum_mono2 [OF fin sub]) simp
  also have "\<dots> < (\<Sum>d \<in> busy_cpus st. length (todo st d))"
    by (rule sum_strict_mono_ex1 [OF fin]) (use st c in auto)
  finally show ?thesis by (simp add: work_def)
qed

theorem all_cpus_finish:
  assumes "locks_ok st"
  shows "\<exists>st'. (\<lambda>x y. \<exists>c. lock_step c x y)\<^sup>*\<^sup>* st st' \<and> busy_cpus st' = {}"
  using assms
proof (induction "work st" arbitrary: st rule: less_induct)
  case less
  show ?case
  proof (cases "busy_cpus st = {}")
    case False
    from some_cpu_moves [OF less.prems False] obtain c st' where step: "lock_step c st st'" by blast
    have "work st' < work st" by (rule lock_step_work [OF step locks_okD(1) [OF less.prems]])
    from less.hyps [OF this lock_step_ok [OF step less.prems]] obtain u where
      u: "(\<lambda>x y. \<exists>c. lock_step c x y)\<^sup>*\<^sup>* st' u" "busy_cpus u = {}" by blast
    have "(\<lambda>x y. \<exists>c. lock_step c x y)\<^sup>*\<^sup>* st u"
      by (rule converse_rtranclp_into_rtranclp [OF _ u(1)]) (use step in blast)
    with u(2) show ?thesis by blast
  qed blast
qed

section \<open>The handlers of a module as programs\<close>

text \<open>What a module owes the others: each of its programs is ranked.\<close>

locale ranked_programs =
  fixes prog :: "lock_op list \<Rightarrow> bool"
  assumes prog_ranked: "prog ops \<Longrightarrow> ranked [] ops"
begin

lemma lock_run_step_ok: "lock_run_step prog st st' \<Longrightarrow> locks_ok st \<Longrightarrow> locks_ok st'"
proof (induction rule: lock_run_step.induct)
  case (begin_handler st c ops)
  then have "held st c = []" using locks_okD(2) [of st c] by simp
  with locks_ok_update [OF begin_handler(3) prog_ranked [OF begin_handler(2)], of c] show ?case
    by (simp add: fun_upd_def)
next
  case (inside c st st')
  then show ?case by (rule lock_step_ok)
qed

lemma reached_ok: "(lock_run_step prog)\<^sup>*\<^sup>* all_idle st \<Longrightarrow> locks_ok st"
  by (induction rule: rtranclp_induct) (auto intro: all_idle_ok lock_run_step_ok)

lemma no_deadlock:
  assumes "(lock_run_step prog)\<^sup>*\<^sup>* all_idle st" and "busy_cpus st \<noteq> {}"
  shows "\<exists>c st'. c \<in> busy_cpus st \<and> lock_step c st st'"
  using some_cpu_moves [OF reached_ok] assms .

lemma exclusive:
  "(lock_run_step prog)\<^sup>*\<^sup>* all_idle st \<Longrightarrow> l \<in> set (held st c) \<Longrightarrow> l \<in> set (held st d) \<Longrightarrow> c = d"
  by (meson locks_okD(4) reached_ok)

lemma drains:
  "(lock_run_step prog)\<^sup>*\<^sup>* all_idle st \<Longrightarrow>
    \<exists>st'. (\<lambda>x y. \<exists>c. lock_step c x y)\<^sup>*\<^sup>* st st' \<and> busy_cpus st' = {}"
  by (rule all_cpus_finish [OF reached_ok])

end

text \<open>
  The programs of a policy: the locks of any call of a handler that returns, in whatever state the
  other cpus have left.
\<close>

definition handler_prog :: "('e \<Rightarrow> 's \<Rightarrow> 's res) \<Rightarrow> ('s \<Rightarrow> kcall list) \<Rightarrow> lock_op list \<Rightarrow> bool" where
  "handler_prog step calls ops \<longleftrightarrow>
     (\<exists>e s t seg. step e s = Inr t \<and> calls t = calls s @ seg \<and> ops = lock_ops seg)"

section \<open>Handlers called with locks held\<close>

text \<open>
  The framework calls most handlers with locks of its own held (papiers/nca-llm/nca2025/sec3-saakm.tex, Lock-Free
  Event Delivery): those of the task and of cores.
\<close>

fun core_lock :: "lock \<Rightarrow> bool" where
  "core_lock (CoreLock c) = True"
| "core_lock l = False"

fun task_lock :: "lock \<Rightarrow> bool" where
  "task_lock (TaskLock p) = True"
| "task_lock l = False"

fun takes :: "(lock \<Rightarrow> bool) \<Rightarrow> lock_op list \<Rightarrow> bool" where
  "takes P [] = False"
| "takes P (Lock l # ops) = (P l \<or> takes P ops)"
| "takes P (Unlock l # ops) = takes P ops"

lemma takes_Lock: "Lock l \<in> set ops \<Longrightarrow> P l \<Longrightarrow> takes P ops"
  by (induction P ops rule: takes.induct) auto

text \<open>
  What a cpu does from the moment it holds \<open>H\<close>: the framework takes a lock of its own, upwards, gives one
  back, or calls a program of a policy. A program that takes locks of cores itself can only be called
  while none is held.
\<close>

inductive kernel_prog :: "(lock_op list \<Rightarrow> bool) \<Rightarrow> lock list \<Rightarrow> lock_op list \<Rightarrow> bool"
  for calls where
  kp_done: "kernel_prog calls [] []"
| kp_lock: "core_lock l \<or> task_lock l \<Longrightarrow> (\<forall>h \<in> set H. h < l) \<Longrightarrow> kernel_prog calls (l # H) ops \<Longrightarrow>
    kernel_prog calls H (Lock l # ops)"
| kp_unlock: "l \<in> set H \<Longrightarrow> kernel_prog calls (remove1 l H) ops \<Longrightarrow> kernel_prog calls H (Unlock l # ops)"
| kp_call: "calls call \<Longrightarrow> (takes core_lock call \<longrightarrow> \<not> list_ex core_lock H) \<Longrightarrow> kernel_prog calls H ops \<Longrightarrow>
    kernel_prog calls H (call @ ops)"

text \<open>With the lock of a core held, a handler that takes it waits for itself.\<close>

lemma held_lock_stuck:
  assumes "st c = (H, Lock l # ops)" and "l \<in> set H"
  shows "\<not> lock_step c st st'"
  using assms by (auto elim!: lock_step_elim) (metis fst_conv)

text \<open>What a policy owes: each of its programs is ranked and leaves the locks of the tasks alone.\<close>

locale policy_programs =
  fixes calls :: "lock_op list \<Rightarrow> bool"
  assumes calls_ranked: "calls ops \<Longrightarrow> ranked [] ops"
    and calls_own: "calls ops \<Longrightarrow> \<not> takes task_lock ops"
begin

lemma call_above:
  assumes "calls call" and "takes core_lock call \<longrightarrow> \<not> list_ex core_lock H"
    and own: "list_all (\<lambda>l. core_lock l \<or> task_lock l) H" and l: "Lock l \<in> set call" "h \<in> set H"
  shows "h < l"
proof -
  have t: "\<not> task_lock l" using takes_Lock [OF l(1)] calls_own [OF assms(1)] by blast
  have c: "core_lock l \<Longrightarrow> \<not> core_lock h" using takes_Lock [OF l(1)] assms(2) l(2) by (auto simp: list_ex_iff)
  have "core_lock h \<or> task_lock h" using own l(2) by (simp add: list_all_iff)
  with t c show ?thesis by (cases h; cases l; simp)
qed

lemma kernel_prog_ranked:
  "kernel_prog calls H ops \<Longrightarrow> list_all (\<lambda>l. core_lock l \<or> task_lock l) H \<Longrightarrow> ranked H ops"
proof (induction rule: kernel_prog.induct)
  case (kp_unlock l H ops)
  have "set (remove1 l H) \<subseteq> set H" by (rule set_remove1_subset)
  with kp_unlock show ?case by (auto simp: list_all_iff)
next
  case (kp_call call H ops)
  from ranked_under [OF calls_ranked [OF kp_call(1)] call_above [OF kp_call(1,2,5)]] kp_call(4,5)
  show ?case by auto
qed simp_all

end

sublocale policy_programs \<subseteq> ranked_programs "kernel_prog calls []"
  by unfold_locales (rule kernel_prog_ranked, simp_all)

end
