(* ===== verification/Locks_Props.thy ===== *)
theory Locks_Props
  imports Locks GlobalFifo_Props OneQueue_Props Debug_Props
begin

text \<open>
  The handlers of modules/global_fifo/global_fifo.c and modules/fifo_one_queue/fifo_one_queue.c and the readers
  of the procfs files take their locks in the order of \<open>lock_rank\<close>: any number of cpus may run them at
  the same time and none is blocked for ever.
\<close>

section \<open>The handlers\<close>

lemma gfifo_ranked:
  assumes t: "gfifo_routines api e s = Inr t"
  shows "\<exists>seg. trace t = trace s @ seg \<and> ranked [] (lock_ops seg) \<and> \<not> takes task_lock (lock_ops seg)"
proof (cases e)
  case (NewlyIdle c)
  with t show ?thesis
    by (auto simp: gfifo_newly_idle_def Let_def split: option.splits)
next
  case (BalancingSelect c)
  with t show ?thesis
    by (auto simp: gfifo_load_balance_def gfifo_newly_idle_def Let_def split: option.splits)
next
  case (Tick p c now)
  with t show ?thesis by (auto simp: gfifo_tick_def res_bind_eq_Inr Let_def split: if_splits)
next
  case (Schedule c now)
  with t show ?thesis
    by (auto simp: gfifo_schedule_def gfifo_run_next_def res_bind_eq_Inr res_map_eq_Inr Let_def
        split: option.splits if_splits)
qed (use t in \<open>auto simp: gfifo_new_prepare_def gfifo_new_place_def gfifo_yield_def gfifo_block_def
    gfifo_unblock_place_def gfifo_new_end_def gfifo_unblock_end_def gfifo_core_entry_def
    gfifo_core_exit_def gfifo_enter_idle_def gfifo_exit_idle_def gfifo_upd_idle_def
    gfifo_terminate_def Let_def res_map_eq_Inr res_bind_eq_Inr split: option.splits if_splits\<close>)

lemma onefifo_ranked:
  assumes t: "onefifo_routines api e s = Inr t"
  shows "\<exists>seg. trace t = trace s @ seg \<and> ranked [] (lock_ops seg) \<and> \<not> takes task_lock (lock_ops seg)"
proof (cases e)
  case (NewlyIdle c)
  with t show ?thesis
    by (auto simp: onefifo_newly_idle_def Let_def split: option.splits if_splits)
next
  case (Tick p c now)
  with t show ?thesis
    by (auto simp: onefifo_tick_def onefifo_enqueue_lock_def res_bind_eq_Inr Let_def split: if_splits)
next
  case (Schedule c now)
  with t show ?thesis
    by (auto simp: onefifo_schedule_def enqueue_running_task_fifo_def res_bind_eq_Inr res_map_eq_Inr
        Let_def split: option.splits if_splits)
qed (use t in \<open>auto simp: onefifo_new_prepare_def onefifo_unblock_prepare_def onefifo_select_cpu_def
    onefifo_new_place_def onefifo_unblock_place_def onefifo_yield_def onefifo_enqueue_lock_def
    onefifo_block_def onefifo_new_end_def onefifo_unblock_end_def onefifo_core_entry_def
    onefifo_core_exit_def onefifo_enter_idle_def onefifo_exit_idle_def onefifo_upd_idle_def
    onefifo_terminate_def onefifo_load_balance_def kfree_def Let_def res_map_eq_Inr res_bind_eq_Inr
    split: option.splits if_splits\<close>)

section \<open>The readers of the procfs files\<close>

lemma debug_cpu_ranked:
  assumes "debug_cpu hd_of so qo c s = Inr (r, t)"
  shows "trace t = trace s @ [Acquire (CoreLock c), Release (CoreLock c)]"
  using assms by (auto simp: debug_cpu_def res_map_eq_Inr Let_def split: prod.splits)

lemma debug_cpus_ranked:
  "debug_cpus hd_of so qo cpus s = Inr (rs, t) \<Longrightarrow> trace t = trace s @ lock_pairs cpus"
proof (induction cpus arbitrary: s rs)
  case Nil
  then show ?case by (simp add: lock_pairs_def)
next
  case (Cons c cpus)
  then obtain r u rs' where u: "debug_cpu hd_of so qo c s = Inr (r, u)"
    "debug_cpus hd_of so qo cpus u = Inr (rs', t)"
    by (auto simp: res_bind_eq_Inr res_map_eq_Inr)
  from debug_cpu_ranked [OF u(1)] Cons.IH [OF u(2)] show ?case by (simp add: lock_pairs_def)
qed

lemma lock_pairs_ranked: "ranked [] (lock_ops (lock_pairs cpus))" "\<not> takes task_lock (lock_ops (lock_pairs cpus))"
  by (induction cpus) (simp_all add: lock_pairs_def)

lemma shared_debug_ranked:
  assumes "shared_debug_info lk so qo alloc s = Inr (r, t)"
  shows "trace t = trace s @ [Acquire lk, Release lk]"
  using assms by (auto simp: shared_debug_info_def Let_def res_bind_eq_Inr split: option.splits)

section \<open>Everything that takes a lock\<close>

text \<open>
  The handlers of the two policies with a shared runqueue, and the readers of the four procfs files; the
  other handlers take no lock.
\<close>

definition policy_prog :: "kapi \<Rightarrow> lock_op list \<Rightarrow> bool" where
  "policy_prog api ops \<longleftrightarrow>
     handler_prog (gfifo_routines api) trace ops \<or>
     handler_prog (onefifo_routines api) trace ops \<or>
     handler_prog (\<lambda>alloc s. res_map snd (gfifo_full_debug_info alloc s)) trace ops \<or>
     handler_prog (\<lambda>alloc s. res_map snd (onefifo_full_debug_info alloc s)) trace ops \<or>
     handler_prog (\<lambda>cpus s. res_map snd (fifo_full_debug_info cpus s)) trace ops \<or>
     handler_prog (\<lambda>cpus s. res_map snd (plain_full_debug_info cpus s)) trace ops"

lemma handler_prog_ranked:
  assumes "handler_prog step calls ops"
    and "\<And>e s t. step e s = Inr t \<Longrightarrow> \<exists>seg. calls t = calls s @ seg \<and>
      ranked [] (lock_ops seg) \<and> \<not> takes task_lock (lock_ops seg)"
  shows "ranked [] ops \<and> \<not> takes task_lock ops"
proof -
  from assms(1) obtain e s t seg where
    st: "step e s = Inr t" "calls t = calls s @ seg" "ops = lock_ops seg"
    by (auto simp: handler_prog_def)
  from assms(2) [OF st(1)] st show ?thesis by auto
qed

lemma policy_prog_ranked:
  assumes "policy_prog api ops"
  shows "ranked [] ops \<and> \<not> takes task_lock ops"
  using assms unfolding policy_prog_def
proof (elim disjE)
  assume "handler_prog (gfifo_routines api) trace ops"
  then show ?thesis by (rule handler_prog_ranked) (rule gfifo_ranked)
next
  assume "handler_prog (onefifo_routines api) trace ops"
  then show ?thesis by (rule handler_prog_ranked) (rule onefifo_ranked)
next
  assume "handler_prog (\<lambda>alloc s. res_map snd (gfifo_full_debug_info alloc s)) trace ops"
  then show ?thesis
    by (rule handler_prog_ranked)
       (auto simp: gfifo_full_debug_info_def res_map_eq_Inr dest!: shared_debug_ranked)
next
  assume "handler_prog (\<lambda>alloc s. res_map snd (onefifo_full_debug_info alloc s)) trace ops"
  then show ?thesis
    by (rule handler_prog_ranked)
       (auto simp: onefifo_full_debug_info_def res_map_eq_Inr dest!: shared_debug_ranked)
next
  assume "handler_prog (\<lambda>cpus s. res_map snd (fifo_full_debug_info cpus s)) trace ops"
  then show ?thesis
    by (rule handler_prog_ranked)
       (auto simp: fifo_full_debug_info_def res_map_eq_Inr lock_pairs_ranked dest!: debug_cpus_ranked)
next
  assume "handler_prog (\<lambda>cpus s. res_map snd (plain_full_debug_info cpus s)) trace ops"
  then show ?thesis
    by (rule handler_prog_ranked)
       (auto simp: plain_full_debug_info_def res_map_eq_Inr lock_pairs_ranked dest!: debug_cpus_ranked)
qed

interpretation policy_locks: policy_programs "policy_prog api" for api
  by unfold_locales (simp_all add: policy_prog_ranked)

section \<open>A concrete machine\<close>

text \<open>Cpu 3 yields its thread and has taken the lock, cpu 0 goes idle and wants it too.\<close>

lemma yield_prog: "policy_prog ref_api [Lock ModuleLock, Unlock ModuleLock]"
proof -
  have "gfifo_routines ref_api (Yield 7) gfifo_busy = Inr (gfifo_yield ref_api 7 gfifo_busy)"
    and "trace (gfifo_yield ref_api 7 gfifo_busy) = trace gfifo_busy @ [Acquire ModuleLock,
      ChangeState 7 IPANEMA_READY (k_cpu (kern gfifo_busy) 7) (k_rq (kern gfifo_busy) 7) (Some GlobalRq),
      Release ModuleLock]"
    by (simp_all add: gfifo_yield_def Let_def)
  then have "handler_prog (gfifo_routines ref_api) trace [Lock ModuleLock, Unlock ModuleLock]"
    unfolding handler_prog_def by (intro exI conjI) (assumption | simp)+
  then show ?thesis by (simp add: policy_prog_def)
qed

text \<open>The program of a cpu whose framework holds a task's lock and its core's when it calls \<open>yield\<close>.\<close>

definition yield_call :: "cpu \<Rightarrow> lock_op list" where
  "yield_call c = [Lock (TaskLock 7), Lock (CoreLock c), Lock ModuleLock, Unlock ModuleLock,
     Unlock (CoreLock c), Unlock (TaskLock 7)]"

lemma yield_call_prog: "kernel_prog (policy_prog ref_api) [] (yield_call c)"
proof -
  let ?k = "kernel_prog (policy_prog ref_api)"
  have "?k [TaskLock 7] [Unlock (TaskLock 7)]"
    by (rule kp_unlock) (simp_all add: kp_done)
  then have "?k [CoreLock c, TaskLock 7] [Unlock (CoreLock c), Unlock (TaskLock 7)]"
    by - (rule kp_unlock, simp_all)
  then have "?k [CoreLock c, TaskLock 7] ([Lock ModuleLock, Unlock ModuleLock] @ [Unlock (CoreLock c), Unlock (TaskLock 7)])"
    by - (rule kp_call, simp_all add: yield_prog)
  then show ?thesis unfolding yield_call_def by - (rule kp_lock, simp, simp, rule kp_lock, simp_all)
qed

text \<open>Cpu 3 is in the handler and has the lock; cpu 0, which holds the lock of its core, wants it too.\<close>

definition one_core :: "cpu \<Rightarrow> lock_op list" where
  "one_core c = [Lock (CoreLock c), Lock ModuleLock, Unlock ModuleLock, Unlock (CoreLock c)]"

lemma one_core_prog: "kernel_prog (policy_prog ref_api) [] (one_core c)"
proof -
  let ?k = "kernel_prog (policy_prog ref_api)"
  have "?k [CoreLock c] [Unlock (CoreLock c)]" by (rule kp_unlock) (simp_all add: kp_done)
  then have "?k [CoreLock c] ([Lock ModuleLock, Unlock ModuleLock] @ [Unlock (CoreLock c)])"
    by - (rule kp_call, simp_all add: yield_prog)
  then show ?thesis unfolding one_core_def by - (rule kp_lock, simp_all)
qed

definition lock_demo :: lock_state where
  "lock_demo = all_idle(
     3 := ([ModuleLock, CoreLock 3, TaskLock 7], [Unlock ModuleLock, Unlock (CoreLock 3), Unlock (TaskLock 7)]),
     0 := ([CoreLock 0], [Lock ModuleLock, Unlock ModuleLock, Unlock (CoreLock 0)]))"

lemma lock_demo_reached: "(lock_run_step (kernel_prog (policy_prog ref_api) []))\<^sup>*\<^sup>* all_idle lock_demo"
proof -
  let ?R = "lock_run_step (kernel_prog (policy_prog ref_api) [])" and ?i = "all_idle :: lock_state"
  let ?o = "[Unlock ModuleLock, Unlock (CoreLock 3), Unlock (TaskLock 7)]"
  let ?s1 = "?i(3 := ([], yield_call 3))"
  let ?s2 = "?i(3 := ([TaskLock 7], Lock (CoreLock 3) # Lock ModuleLock # ?o))"
  let ?s3 = "?i(3 := ([CoreLock 3, TaskLock 7], Lock ModuleLock # ?o))"
  let ?s4 = "?i(3 := ([ModuleLock, CoreLock 3, TaskLock 7], ?o))"
  let ?s5 = "?s4(0 := ([], one_core 0))"
  have "?R ?i ?s1"
    using lock_run_step.begin_handler [where st = ?i and c = 3 and prog = "kernel_prog (policy_prog ref_api) []", OF _ yield_call_prog]
    by (simp add: all_idle_def)
  moreover have "?R ?s1 ?s2" using lock_run_step.inside [OF lock_step.take [of ?s1 3 "[]" "TaskLock 7"]]
    by (simp add: all_idle_def yield_call_def)
  moreover have "?R ?s2 ?s3" using lock_run_step.inside [OF lock_step.take [of ?s2 3 "[TaskLock 7]" "CoreLock 3"]]
    by (simp add: all_idle_def)
  moreover have "?R ?s3 ?s4" using lock_run_step.inside [OF lock_step.take [of ?s3 3 "[CoreLock 3, TaskLock 7]" ModuleLock]]
    by (simp add: all_idle_def)
  moreover have "?R ?s4 ?s5"
    using lock_run_step.begin_handler [where st = ?s4 and c = 0 and prog = "kernel_prog (policy_prog ref_api) []", OF _ one_core_prog]
    by (simp add: all_idle_def)
  moreover have "?R ?s5 lock_demo" using lock_run_step.inside [OF lock_step.take [of ?s5 0 "[]" "CoreLock 0"]]
    by (simp add: all_idle_def one_core_def lock_demo_def)
  ultimately show ?thesis by (meson rtranclp.intros)
qed

section \<open>The property\<close>

text \<open>C5 The locks cannot deadlock: any number of cpus run, at the same time and started at any
  moment, calls that return of handlers of global_fifo.c and fifo_one_queue.c and reads of the procfs
  files, in any state of the modules, under locks of tasks and of cores that the framework holds when it calls
  them and takes upwards (a call that takes locks of cores itself, as \<open>newly_idle\<close> of global_fifo.c and
  the readers of the per-core files do, is made while the framework holds none of those). Then in every
  reachable state some cpu that is not finished can take its next step, all can be run to their end, and no
  lock is held by two cpus.\<close>

theorem policies_never_deadlock:
  assumes run: "(lock_run_step (kernel_prog (policy_prog api) []))\<^sup>*\<^sup>* all_idle st"
  shows "(busy_cpus st \<noteq> {} \<longrightarrow> (\<exists>c st'. c \<in> busy_cpus st \<and> lock_step c st st')) \<and>
    (\<exists>st'. (\<lambda>x y. \<exists>c. lock_step c x y)\<^sup>*\<^sup>* st st' \<and> busy_cpus st' = {}) \<and>
    (\<forall>l c d. l \<in> set (held st c) \<longrightarrow> l \<in> set (held st d) \<longrightarrow> c = d)"
  using policy_locks.no_deadlock [OF run] policy_locks.drains [OF run] policy_locks.exclusive [OF run]
  by blast

theorem policies_never_deadlock_witness:
  "(\<exists>c st'. c \<in> busy_cpus lock_demo \<and> lock_step c lock_demo st') \<and>
    (\<exists>st'. (\<lambda>x y. \<exists>c. lock_step c x y)\<^sup>*\<^sup>* lock_demo st' \<and> busy_cpus st' = {})"
proof -
  have "busy_cpus lock_demo \<noteq> {}" by (auto simp: busy_cpus_def lock_demo_def)
  with policies_never_deadlock [OF lock_demo_reached] show ?thesis by blast
qed

end
