(* ===== verification/Rusty_Race.thy ===== *)
theory Rusty_Race
  imports Rusty
begin

text \<open>
  \<open>pick_idle_cpu\<close> of modules/rusty_saakm/rusty_saakm.c on several cpus at once. The idle masks have no
  lock: other calls, and cores that go idle or busy, come between any two accesses of a call. A
  step is one access to a mask; \<open>cpumask_andnot\<close> is two, it reads the mask and writes it back, as the
  masks of a machine with at most 64 cpus are one word.
\<close>

section \<open>The steps of a call\<close>

text \<open>Where a call is, with its local \<open>cpu\<close> and what it has read.\<close>

datatype pick_pc =
    Retry
  | ScanCpus
  | Found cpu
  | AndNot cpu
  | WriteBack cpu cpumask
  | TestOwn cpu
  | ClearOwn cpu
  | Claim cpu
  | Returned int

definition scan_cpus :: "kapi \<Rightarrow> rusty_env \<Rightarrow> cpumask \<Rightarrow> rusty_sys \<Rightarrow> pick_pc \<times> rusty_sys" where
  "scan_cpus api env m s =
     (let (cpu, s1) = call_any_and env (r_idle_cpu s) m s
      in (if cpu \<ge> nr_cpu_ids api then Returned (- EBUSY) else Found cpu, s1))"

text \<open>The atomic \<open>cpumask_test_and_clear_cpu\<close> and the branch on its result.\<close>

definition claim_cpu :: "cpu \<Rightarrow> rusty_sys \<Rightarrow> pick_pc \<times> rusty_sys" where
  "claim_cpu cpu s =
     (if cpumask_test_cpu cpu (r_idle_cpu s) then Returned (int cpu) else Retry,
      s\<lparr>r_idle_cpu := cpumask_clear_cpu cpu (r_idle_cpu s)\<rparr>)"

fun pick_section ::
    "kapi \<Rightarrow> rusty_env \<Rightarrow> cpumask \<Rightarrow> u64 \<Rightarrow> pick_pc \<Rightarrow> rusty_sys \<Rightarrow> pick_pc \<times> rusty_sys" where
  "pick_section api env m flags Retry s =
     (if smt_active env then
        let (cpu, s1) = call_any_and env (r_idle_smt s) m s
        in (if cpu < nr_cpu_ids api then Found cpu
            else if flags AND PICK_IDLE_CORE \<noteq> 0 then Returned (- EBUSY)
            else ScanCpus, s1)
      else scan_cpus api env m s)"
| "pick_section api env m flags ScanCpus s = scan_cpus api env m s"
| "pick_section api env m flags (Found cpu) s =
     (if smt_active env then
        (if cpumask_intersects (cpu_smt_mask api cpu) (r_idle_smt s) then AndNot cpu else TestOwn cpu, s)
      else claim_cpu cpu s)"
| "pick_section api env m flags (AndNot cpu) s =
     (WriteBack cpu (r_idle_smt s |-| cpu_smt_mask api cpu), s)"
| "pick_section api env m flags (WriteBack cpu val) s = (Claim cpu, s\<lparr>r_idle_smt := val\<rparr>)"
| "pick_section api env m flags (TestOwn cpu) s =
     (if cpumask_test_cpu cpu (r_idle_smt s) then ClearOwn cpu else Claim cpu, s)"
| "pick_section api env m flags (ClearOwn cpu) s =
     (Claim cpu, s\<lparr>r_idle_smt := cpumask_clear_cpu cpu (r_idle_smt s)\<rparr>)"
| "pick_section api env m flags (Claim cpu) s = claim_cpu cpu s"
| "pick_section api env m flags (Returned v) s = (Returned v, s)"

section \<open>Many calls\<close>

text \<open>
  Calls have numbers, \<open>job i\<close> is what call \<open>i\<close> was given. An event is a step of a call or a core that
  goes idle or stops being idle.
\<close>

datatype race_event = Step nat | GoIdle cpu | GoBusy cpu

type_synonym race_state = "(nat \<Rightarrow> pick_pc) \<times> rusty_sys"

fun race_step ::
    "kapi \<Rightarrow> rusty_env \<Rightarrow> (nat \<Rightarrow> cpumask \<times> u64) \<Rightarrow> race_event \<Rightarrow> race_state \<Rightarrow> race_state" where
  "race_step api env job (Step i) (pc, s) =
     (let (q, t) = pick_section api env (fst (job i)) (snd (job i)) (pc i) s in (pc(i := q), t))"
| "race_step api env job (GoIdle c) (pc, s) = (pc, sched_enter_idle env c s)"
| "race_step api env job (GoBusy c) (pc, s) = (pc, sched_exit_idle env c s)"

definition race_run ::
    "kapi \<Rightarrow> rusty_env \<Rightarrow> (nat \<Rightarrow> cpumask \<times> u64) \<Rightarrow> race_event list \<Rightarrow> race_state \<Rightarrow> race_state" where
  "race_run api env job evs x = fold (race_step api env job) evs x"

lemma race_run_simps [simp]:
  "race_run api env job [] x = x"
  "race_run api env job (e # evs) x = race_run api env job evs (race_step api env job e x)"
  "race_run api env job (evs @ evs') x = race_run api env job evs' (race_run api env job evs x)"
  by (simp_all add: race_run_def)

definition returned_pc :: "pick_pc \<Rightarrow> bool" where
  "returned_pc q \<longleftrightarrow> (case q of Returned _ \<Rightarrow> True | _ \<Rightarrow> False)"

lemma returned_pc_simps [simp]:
  "returned_pc (Returned v)" "\<not> returned_pc Retry" "\<not> returned_pc ScanCpus" "\<not> returned_pc (Found c)"
  "\<not> returned_pc (AndNot c)" "\<not> returned_pc (WriteBack c m)" "\<not> returned_pc (TestOwn c)"
  "\<not> returned_pc (ClearOwn c)" "\<not> returned_pc (Claim c)"
  by (simp_all add: returned_pc_def)

text \<open>No step is given to a call that has returned.\<close>

fun live_run ::
    "kapi \<Rightarrow> rusty_env \<Rightarrow> (nat \<Rightarrow> cpumask \<times> u64) \<Rightarrow> race_event list \<Rightarrow> race_state \<Rightarrow> bool" where
  "live_run api env job [] x \<longleftrightarrow> True"
| "live_run api env job (e # evs) x \<longleftrightarrow>
     (\<forall>i. e = Step i \<longrightarrow> \<not> returned_pc (fst x i)) \<and> live_run api env job evs (race_step api env job e x)"

definition nr_steps :: "race_event list \<Rightarrow> nat" where
  "nr_steps evs = length (filter (\<lambda>e. \<exists>i. e = Step i) evs)"

definition went_idle :: "cpu \<Rightarrow> race_event list \<Rightarrow> nat" where
  "went_idle c evs = length (filter ((=) (GoIdle c)) evs)"

definition wakeups :: "race_event list \<Rightarrow> nat" where
  "wakeups evs = length (filter (\<lambda>e. \<exists>c. e = GoIdle c) evs)"

lemma event_counts [simp]:
  "nr_steps [] = 0" "went_idle c [] = 0" "wakeups [] = 0"
  "nr_steps (Step i # evs) = Suc (nr_steps evs)" "nr_steps (GoIdle d # evs) = nr_steps evs"
  "nr_steps (GoBusy d # evs) = nr_steps evs"
  "went_idle c (Step i # evs) = went_idle c evs" "went_idle c (GoBusy d # evs) = went_idle c evs"
  "went_idle c (GoIdle d # evs) = (if c = d then 1 else 0) + went_idle c evs"
  "wakeups (Step i # evs) = wakeups evs" "wakeups (GoIdle d # evs) = Suc (wakeups evs)"
  "wakeups (GoBusy d # evs) = wakeups evs"
  by (simp_all add: nr_steps_def went_idle_def wakeups_def)

section \<open>A cpu is claimed once\<close>

text \<open>What a step of a call may do: it loses cpus from the mask, and it returns a cpu only by taking it out.\<close>

lemma claim_cases:
  assumes "pick_section api env m flags q s = (q', t)" and "\<not> returned_pc q"
  shows "r_idle_cpu t |\<subseteq>| r_idle_cpu s \<and>
    (\<forall>c. q' = Returned (int c) \<longrightarrow> c |\<in>| r_idle_cpu s \<and> c |\<notin>| r_idle_cpu t) \<and> cores t = cores s"
  using assms
  by (cases q) (auto simp: scan_cpus_def claim_cpu_def call_any_and_def EBUSY_def Let_def split: if_splits)

lemma pick_section_returned: "returned_pc q \<Longrightarrow> pick_section api env m flags q s = (q, s)"
  by (cases q) simp_all

lemma idle_events:
  "cores (sched_enter_idle env c s) = (cores s)(c := (cores s c)\<lparr>rc_state := IPANEMA_IDLE_CORE\<rparr>)"
  "cores (sched_exit_idle env c s) = (cores s)(c := (cores s c)\<lparr>rc_state := IPANEMA_ACTIVE_CORE\<rparr>)"
  "r_idle_cpu (sched_enter_idle env c s) |\<subseteq>| finsert (rc_id (cores s c)) (r_idle_cpu s)"
  "r_idle_cpu (sched_exit_idle env c s) |\<subseteq>| r_idle_cpu s"
  by (auto simp: sched_enter_idle_def sched_exit_idle_def clear_idle_cpu_def upd_core_def Let_def)

definition own_ids :: "rusty_sys \<Rightarrow> bool" where
  "own_ids s \<longleftrightarrow> (\<forall>c. rc_id (cores s c) = c)"

definition holders :: "cpu \<Rightarrow> (nat \<Rightarrow> pick_pc) \<Rightarrow> nat set" where
  "holders c pc = {i. pc i = Returned (int c)}"

lemma holders_fun_upd:
  "holders c (pc(i := q)) = (if q = Returned (int c) then insert i (holders c pc) else holders c pc - {i})"
  by (auto simp: holders_def)

text \<open>The bits of a cpu: how many calls hold it, and one if it is in the mask.\<close>

definition claims :: "cpu \<Rightarrow> race_state \<Rightarrow> nat" where
  "claims c x = card (holders c (fst x)) + of_bool (c |\<in>| r_idle_cpu (snd x))"

lemma race_step_claims:
  assumes x: "race_step api env job e x = y" and ids: "own_ids (snd x)"
    and fin: "finite (holders c (fst x))"
  shows "claims c y \<le> claims c x + went_idle c [e] \<and> own_ids (snd y) \<and> finite (holders c (fst y))"
proof -
  obtain pc s where [simp]: "x = (pc, s)" by (cases x)
  show ?thesis
  proof (cases e)
    case (Step i)
    obtain q t where q: "pick_section api env (fst (job i)) (snd (job i)) (pc i) s = (q, t)" by fastforce
    with x Step have [simp]: "y = (pc(i := q), t)" by auto
    show ?thesis
    proof (cases "returned_pc (pc i)")
      case True
      with q have "q = pc i" "t = s" by (simp_all add: pick_section_returned)
      with ids fin show ?thesis by (simp add: fun_upd_idem)
    next
      case False
      note cl = claim_cases [OF q False]
      have "i \<notin> holders c pc" using False by (auto simp: holders_def)
      with cl ids fin Step show ?thesis
        by (cases "q = Returned (int c)") (auto simp: claims_def holders_fun_upd own_ids_def)
    qed
  next
    case (GoIdle d)
    with x ids fin idle_events(3) [of env d s] show ?thesis
      by (auto simp: claims_def own_ids_def idle_events(1))
  next
    case (GoBusy d)
    with x ids fin idle_events(4) [of env d s] show ?thesis
      by (auto simp: claims_def own_ids_def idle_events(2))
  qed
qed

lemma race_run_claims:
  assumes "own_ids (snd x)" and "finite (holders c (fst x))"
  shows "claims c (race_run api env job evs x) \<le> claims c x + went_idle c evs \<and>
    finite (holders c (fst (race_run api env job evs x)))"
  using assms
proof (induction evs arbitrary: x)
  case (Cons e evs)
  let ?y = "race_step api env job e x"
  from race_step_claims [OF refl Cons.prems, of api env job e]
  have y: "claims c ?y \<le> claims c x + went_idle c [e]" "own_ids (snd ?y)" "finite (holders c (fst ?y))" by auto
  have "went_idle c (e # evs) = went_idle c [e] + went_idle c evs" by (cases e) simp_all
  with y(1) Cons.IH [OF y(2,3)] show ?case by simp
qed simp

text \<open>The cpu that a call looks at, holds or returns is one it was allowed to take.\<close>

fun candidate :: "pick_pc \<Rightarrow> cpu option" where
  "candidate (Found c) = Some c"
| "candidate (AndNot c) = Some c"
| "candidate (WriteBack c m) = Some c"
| "candidate (TestOwn c) = Some c"
| "candidate (ClearOwn c) = Some c"
| "candidate (Claim c) = Some c"
| "candidate _ = None"

definition pc_allowed :: "cpumask \<Rightarrow> pick_pc \<Rightarrow> bool" where
  "pc_allowed m q \<longleftrightarrow> (\<forall>c. candidate q = Some c \<longrightarrow> c |\<in>| m) \<and>
     (\<forall>v. q = Returned v \<longrightarrow> v = - EBUSY \<or> (\<exists>c. v = int c \<and> c |\<in>| m))"

lemma chosen_allowed:
  assumes "distribute_ok api env" and "any_and_distribute env n a m < nr_cpu_ids api"
  shows "any_and_distribute env n a m |\<in>| a" "any_and_distribute env n a m |\<in>| m"
proof -
  have "a |\<inter>| m \<noteq> {||}" using distribute_okD(1) [OF assms(1), of a m n] assms(2) by linarith
  from distribute_okD(2) [OF assms(1) this, of n]
  show "any_and_distribute env n a m |\<in>| a" "any_and_distribute env n a m |\<in>| m" by simp_all
qed

lemma pick_section_allowed:
  assumes d: "distribute_ok api env" and "pc_allowed m q"
  shows "pc_allowed m (fst (pick_section api env m flags q s))"
proof (cases q)
  case Retry
  then show ?thesis
    using chosen_allowed(2) [OF d, of "r_picks s" _ m]
    by (auto simp: scan_cpus_def call_any_and_def Let_def pc_allowed_def not_le)
next
  case ScanCpus
  then show ?thesis
    using chosen_allowed(2) [OF d, of "r_picks s" _ m]
    by (auto simp: scan_cpus_def call_any_and_def Let_def pc_allowed_def not_le)
qed (use assms(2) in \<open>auto simp: claim_cpu_def pc_allowed_def\<close>)

lemma race_run_allowed:
  assumes d: "distribute_ok api env" and "\<And>i. pc_allowed (fst (job i)) (fst x i)"
  shows "pc_allowed (fst (job i)) (fst (race_run api env job evs x) i)"
  using assms(2)
proof (induction evs arbitrary: x)
  case (Cons e evs)
  have "pc_allowed (fst (job j)) (fst (race_step api env job e x) j)" for j
  proof (cases e)
    case (Step k)
    with Cons.prems pick_section_allowed [OF d Cons.prems, of k "snd (job k)" "snd x"] show ?thesis
      by (cases x) (auto simp: split_beta)
  qed (use Cons.prems [of j] in \<open>cases x; simp\<close>)+
  with Cons.IH show ?case by simp
qed simp

section \<open>A call on its own\<close>

fun sections ::
    "kapi \<Rightarrow> rusty_env \<Rightarrow> cpumask \<Rightarrow> u64 \<Rightarrow> nat \<Rightarrow> pick_pc \<times> rusty_sys \<Rightarrow> pick_pc \<times> rusty_sys" where
  "sections api env m flags 0 x = x"
| "sections api env m flags (Suc k) x = sections api env m flags k (pick_section api env m flags (fst x) (snd x))"

lemma sections_add: "sections api env m flags (j + k) x = sections api env m flags k (sections api env m flags j x)"
  by (induction j arbitrary: x) simp_all

lemma race_run_alone:
  "race_run api env job (replicate k (Step i)) (pc, s) =
     (let (q, t) = sections api env (fst (job i)) (snd (job i)) k (pc i, s) in (pc(i := q), t))"
  by (induction k arbitrary: pc s) (simp_all add: split_beta)

lemma sections_candidate:
  "\<exists>k. sections api env m flags k (Retry, s) =
     (case fst (pick_candidate api env m flags s) of None \<Rightarrow> Returned (- EBUSY) | Some c \<Rightarrow> Found c,
      snd (pick_candidate api env m flags s))"
proof -
  let ?P = "\<lambda>k. sections api env m flags k (Retry, s) =
     (case fst (pick_candidate api env m flags s) of None \<Rightarrow> Returned (- EBUSY) | Some c \<Rightarrow> Found c,
      snd (pick_candidate api env m flags s))"
  have "?P (Suc 0) \<or> ?P (Suc (Suc 0))"
    by (simp add: pick_candidate_def scan_cpus_def call_any_and_def Let_def)
  then show ?thesis by blast
qed

lemma sections_claim:
  "\<exists>k. sections api env m flags k (Found c, s) =
     (if fst (test_and_clear_cpu_idle api env c s) then Returned (int c) else Retry,
      snd (test_and_clear_cpu_idle api env c s))"
proof -
  let ?P = "\<lambda>k. sections api env m flags k (Found c, s) =
     (if fst (test_and_clear_cpu_idle api env c s) then Returned (int c) else Retry,
      snd (test_and_clear_cpu_idle api env c s))"
  have "?P (Suc 0) \<or> ?P (Suc (Suc (Suc 0))) \<or> ?P (Suc (Suc (Suc (Suc 0))))"
    by (simp add: test_and_clear_cpu_idle_def claim_cpu_def Let_def)
  then show ?thesis by blast
qed

text \<open>The steps of a call that no other event interrupts are the loop of Rusty_Pick.\<close>

lemma sections_pick:
  assumes d: "distribute_ok api env" and p: "pick_idle_cpu api env m flags s = Some (v, t)"
  shows "\<exists>k. sections api env m flags k (Retry, s) = (Returned v, t)"
  using p
proof (induction "fcard (r_idle_smt s)" arbitrary: s rule: less_induct)
  case less
  let ?s = "snd (pick_candidate api env m flags s)"
  obtain j where j: "sections api env m flags j (Retry, s) =
      (case fst (pick_candidate api env m flags s) of None \<Rightarrow> Returned (- EBUSY) | Some c \<Rightarrow> Found c, ?s)"
    using sections_candidate by blast
  show ?case
  proof (cases "fst (pick_candidate api env m flags s)")
    case None
    with less.prems j show ?thesis by (subst (asm) pick_idle_cpu.simps) auto
  next
    case (Some c)
    note cand = pick_candidate_Some [OF d Some]
    let ?r = "test_and_clear_cpu_idle api env c ?s"
    obtain k where k: "sections api env m flags k (Found c, ?s) =
        (if fst ?r then Returned (int c) else Retry, snd ?r)"
      using sections_claim by blast
    from j k Some have jk: "sections api env m flags (j + k) (Retry, s) =
        (if fst ?r then Returned (int c) else Retry, snd ?r)"
      by (simp add: sections_add)
    show ?thesis
    proof (cases "fst ?r")
      case True
      with less.prems Some jk show ?thesis by (subst (asm) pick_idle_cpu.simps) auto
    next
      case False
      have "r_idle_smt (snd ?r) |\<subset>| r_idle_smt ?s"
        by (rule retry_decreases) (use cand False in simp_all)
      then have "fcard (r_idle_smt (snd ?r)) < fcard (r_idle_smt s)" by (simp add: pfsubset_fcard_mono)
      moreover have "pick_idle_cpu api env m flags (snd ?r) = Some (v, t)"
        using less.prems Some False by (subst (asm) pick_idle_cpu.simps) simp
      ultimately obtain l where "sections api env m flags l (Retry, snd ?r) = (Returned v, t)"
        using less.hyps by blast
      with jk False have "sections api env m flags (j + k + l) (Retry, s) = (Returned v, t)"
        by (simp only: sections_add if_False)
      then show ?thesis by blast
    qed
  qed
qed

lemma alone_is_pick_idle_cpu:
  assumes d: "distribute_ok api env" and p: "pick_idle_cpu api env (fst (job i)) (snd (job i)) s = Some (v, t)"
    and pc: "pc i = Retry"
  shows "\<exists>k. race_run api env job (replicate k (Step i)) (pc, s) = (pc(i := Returned v), t)"
proof -
  obtain k where "sections api env (fst (job i)) (snd (job i)) k (Retry, s) = (Returned v, t)"
    using sections_pick [OF d p] by blast
  with pc have "race_run api env job (replicate k (Step i)) (pc, s) = (pc(i := Returned v), t)"
    by (simp add: race_run_alone)
  then show ?thesis by blast
qed

end
