(* ===== verification/Rusty_Race_Props.thy ===== *)
theory Rusty_Race_Props
  imports Rusty_Race Rusty_Props
begin

text \<open>
  The properties of concurrent calls of \<open>pick_idle_cpu\<close> in modules/rusty_saakm/rusty_saakm.c: a cpu is
  claimed once, calls return on a machine without SMT and need not return on one with it, and what the
  write of \<open>cpumask_andnot\<close> loses.
\<close>

section \<open>Without SMT the calls return\<close>

text \<open>
  A call that found a cpu is one step from returning while that cpu is idle, and one from a new search
  when it is not. \<open>work n\<close> bounds the steps that the calls below \<open>n\<close> have left.
\<close>

fun pc_work :: "cpumask \<Rightarrow> pick_pc \<Rightarrow> nat" where
  "pc_work m Retry = 2"
| "pc_work m (Found c) = (if c |\<in>| m then 1 else 3)"
| "pc_work m _ = 0"

definition work :: "nat \<Rightarrow> race_state \<Rightarrow> nat" where
  "work n x = 2 * n * fcard (r_idle_cpu (snd x)) + (\<Sum>i<n. pc_work (r_idle_cpu (snd x)) (fst x i))"

definition single_pc :: "pick_pc \<Rightarrow> bool" where
  "single_pc q \<longleftrightarrow> returned_pc q \<or> q = Retry \<or> (\<exists>c. q = Found c)"

lemma pc_work_mono: "m |\<subseteq>| m' \<Longrightarrow> pc_work m' q \<le> pc_work m q"
  by (cases q) auto

lemma pc_work_less: "pc_work m q \<le> pc_work m' q + 2"
  by (cases q) auto

lemma work_fewer:
  "(\<Sum>i\<in>A. pc_work m (pc i)) \<le> (\<Sum>i\<in>A. pc_work m' (pc i)) + 2 * card A"
proof -
  have "(\<Sum>i\<in>A. pc_work m (pc i)) \<le> (\<Sum>i\<in>A. pc_work m' (pc i) + 2)"
    by (rule sum_mono) (rule pc_work_less)
  also have "\<dots> = (\<Sum>i\<in>A. pc_work m' (pc i)) + 2 * card A"
    by (simp only: sum.distrib sum_constant) simp
  finally show ?thesis .
qed

lemma work_fun_upd:
  assumes "i < (n :: nat)"
  shows "(\<Sum>j<n. pc_work m ((pc(i := q)) j)) = pc_work m q + (\<Sum>j\<in>{..<n} - {i}. pc_work m (pc j))"
  using assms by (subst sum.remove [of _ i]) auto

text \<open>A cpu that leaves the mask pays for the new searches.\<close>

lemma work_clear:
  assumes "c |\<in>| I" and "card A \<le> n"
  shows "2 * n * fcard (I |-| {|c|}) + (\<Sum>i\<in>A. pc_work (I |-| {|c|}) (pc i))
    \<le> 2 * n * fcard I + (\<Sum>i\<in>A. pc_work I (pc i)) - 2 * (n - card A)"
proof -
  from assms(1) have f: "fcard I = Suc (fcard (I |-| {|c|}))"
    by (metis fcard_Suc_fminus1)
  from work_fewer [of "I |-| {|c|}" pc A I] assms(2) show ?thesis
    unfolding f by simp
qed

lemma single_step:
  assumes d: "distribute_ok api env" and smt: "\<not> smt_active env"
    and q: "pick_section api env m flags p s = (q, t)" and p: "single_pc p" "\<not> returned_pc p"
  shows "single_pc q \<and>
    (r_idle_cpu t = r_idle_cpu s \<and> pc_work (r_idle_cpu s) q < pc_work (r_idle_cpu s) p \<or>
     (\<exists>c. p = Found c \<and> c |\<in>| r_idle_cpu s \<and> r_idle_cpu t = r_idle_cpu s |-| {|c|} \<and> returned_pc q))"
proof -
  from p consider "p = Retry" | c where "p = Found c" by (auto simp: single_pc_def)
  then show ?thesis
  proof cases
    case 1
    with q smt chosen_allowed(1) [OF d, of "r_picks s" "r_idle_cpu s" m] show ?thesis
      by (auto simp: scan_cpus_def call_any_and_def Let_def single_pc_def not_le split: if_splits)
  next
    case 2
    with q smt show ?thesis
      by (cases "c |\<in>| r_idle_cpu s") (auto simp: claim_cpu_def single_pc_def)
  qed
qed

lemma work_event:
  assumes d: "distribute_ok api env" and smt: "\<not> smt_active env" and ids: "own_ids s"
    and pc: "\<And>i. single_pc (pc i)"
    and e: "\<And>i. e = Step i \<Longrightarrow> i < n \<and> \<not> returned_pc (pc i)"
    and y: "race_step api env job e (pc, s) = y"
  shows "work n y + nr_steps [e] \<le> work n (pc, s) + 2 * n * wakeups [e] \<and> own_ids (snd y) \<and> (\<forall>i. single_pc (fst y i))"
proof (cases e)
  case (Step i)
  let ?I = "r_idle_cpu s" and ?A = "{..<n} - {i}"
  from e [OF Step] have i: "i < n" "\<not> returned_pc (pc i)" by simp_all
  obtain q t where q: "pick_section api env (fst (job i)) (snd (job i)) (pc i) s = (q, t)" by fastforce
  with y Step have y: "y = (pc(i := q), t)" by simp
  from claim_cases [OF q i(2)] ids have "own_ids t" by (simp add: own_ids_def)
  moreover from single_step [OF d smt q pc i(2)] have sq: "single_pc q" and
    c: "r_idle_cpu t = ?I \<and> pc_work ?I q < pc_work ?I (pc i) \<or>
      (\<exists>c. pc i = Found c \<and> c |\<in>| ?I \<and> r_idle_cpu t = ?I |-| {|c|} \<and> returned_pc q)" by auto
  have parts: "(\<Sum>j<n. pc_work ?I (pc j)) = pc_work ?I (pc i) + (\<Sum>j\<in>?A. pc_work ?I (pc j))"
    by (rule sum.remove) (use i(1) in simp_all)
  have "work n y < work n (pc, s)"
  proof (cases "r_idle_cpu t = ?I \<and> pc_work ?I q < pc_work ?I (pc i)")
    case True
    then show ?thesis by (simp add: y work_def work_fun_upd [OF i(1)] parts del: fun_upd_apply)
  next
    case False
    with c obtain c where c: "pc i = Found c" "c |\<in>| ?I" "r_idle_cpu t = ?I |-| {|c|}" "returned_pc q" by blast
    from c(4) have "pc_work (r_idle_cpu t) q = 0" by (cases q) simp_all
    with work_clear [OF c(2), of ?A n pc] i(1) c show ?thesis
      by (simp add: y work_def work_fun_upd [OF i(1)] parts del: fun_upd_apply)
  qed
  ultimately show ?thesis using sq pc Step by (simp add: y)
next
  case (GoIdle c)
  have t: "r_idle_cpu (sched_enter_idle env c s) = finsert c (r_idle_cpu s)" "own_ids (sched_enter_idle env c s)"
    using ids smt by (simp_all add: sched_enter_idle_def upd_core_def own_ids_def Let_def)
  have "(\<Sum>i<n. pc_work (finsert c (r_idle_cpu s)) (pc i)) \<le> (\<Sum>i<n. pc_work (r_idle_cpu s) (pc i))"
    by (rule sum_mono) (rule pc_work_mono, blast)
  moreover have "2 * n * fcard (finsert c (r_idle_cpu s)) \<le> 2 * n * fcard (r_idle_cpu s) + 2 * n"
    by (cases "c |\<in>| r_idle_cpu s") (simp_all add: finsert_absorb fcard_finsert_disjoint)
  ultimately show ?thesis using y t pc by (auto simp: GoIdle work_def)
next
  case (GoBusy c)
  have t: "r_idle_cpu (sched_exit_idle env c s) = r_idle_cpu s |-| {|c|}" "own_ids (sched_exit_idle env c s)"
    using ids smt by (simp_all add: sched_exit_idle_def clear_idle_cpu_def upd_core_def own_ids_def Let_def)
  show ?thesis
  proof (cases "c |\<in>| r_idle_cpu s")
    case True
    with work_clear [OF this, of "{..<n}" n pc] y t pc show ?thesis by (auto simp: GoBusy work_def)
  next
    case False
    then have "r_idle_cpu s |-| {|c|} = r_idle_cpu s" by blast
    with y t pc show ?thesis by (auto simp: GoBusy work_def)
  qed
qed

lemma work_run:
  assumes d: "distribute_ok api env" and smt: "\<not> smt_active env" and "own_ids (snd x)"
    and "\<And>i. single_pc (fst x i)" and "live_run api env job evs x" and "\<And>i. Step i \<in> set evs \<Longrightarrow> i < n"
  shows "work n (race_run api env job evs x) + nr_steps evs \<le> work n x + 2 * n * wakeups evs"
  using assms(3-)
proof (induction evs arbitrary: x)
  case (Cons e evs)
  let ?y = "race_step api env job e x"
  have "work n ?y + nr_steps [e] \<le> work n x + 2 * n * wakeups [e] \<and> own_ids (snd ?y) \<and> (\<forall>i. single_pc (fst ?y i))"
    using work_event [OF d smt, of "snd x" "fst x" e n job ?y] Cons.prems by auto
  moreover from this Cons have
    "work n (race_run api env job evs ?y) + nr_steps evs \<le> work n ?y + 2 * n * wakeups evs" by simp
  moreover have "nr_steps (e # evs) = nr_steps [e] + nr_steps evs" "wakeups (e # evs) = wakeups [e] + wakeups evs"
    by (cases e; simp)+
  ultimately show ?case by (simp add: algebra_simps)
qed simp

lemma work_start: "work n (\<lambda>_. Retry, s) = 2 * n * Suc (fcard (r_idle_cpu s))"
  by (simp add: work_def)

section \<open>With SMT they need not\<close>

lemma claim_fails: "c |\<notin>| r_idle_cpu s \<Longrightarrow> claim_cpu c s = (Retry, s)"
  by (simp add: claim_cpu_def)

lemma chosen_single:
  "distribute_ok api env \<Longrightarrow> c |\<in>| a \<Longrightarrow> any_and_distribute env n a {|c|} = c"
  using distribute_okD(2) [of api env a "{|c|}" n] by auto

text \<open>
  Two cores \<open>c\<close> and \<open>d\<close> with both bits in the mask of idle cores and neither in the mask of idle
  cpus. Calls 0 and 1 want \<open>c\<close>, 2 and 3 want \<open>d\<close>.
\<close>

definition two_cores :: "kapi \<Rightarrow> rusty_env \<Rightarrow> cpu \<Rightarrow> cpu \<Rightarrow> rusty_sys \<Rightarrow> bool" where
  "two_cores api env c d s \<longleftrightarrow> distribute_ok api env \<and> smt_active env \<and>
     c < nr_cpu_ids api \<and> d < nr_cpu_ids api \<and>
     c |\<in>| cpu_smt_mask api c \<and> d |\<in>| cpu_smt_mask api d \<and>
     c |\<notin>| cpu_smt_mask api d \<and> d |\<notin>| cpu_smt_mask api c \<and>
     c |\<notin>| r_idle_cpu s \<and> d |\<notin>| r_idle_cpu s"

definition rivals :: "cpu \<Rightarrow> cpu \<Rightarrow> u64 \<Rightarrow> nat \<Rightarrow> cpumask \<times> u64" where
  "rivals c d fl i = (if i < 2 then {|c|} else {|d|}, fl)"

text \<open>The four calls, and the state of the policy but for the mask and the count of choices.\<close>

definition four :: "pick_pc \<Rightarrow> pick_pc \<Rightarrow> pick_pc \<Rightarrow> pick_pc \<Rightarrow> nat \<Rightarrow> pick_pc" where
  "four p q r t i = (if i = 0 then p else if i = 1 then q else if i = 2 then r else if i = 3 then t else Retry)"

definition smt_state :: "rusty_sys \<Rightarrow> cpumask \<Rightarrow> nat \<Rightarrow> rusty_sys" where
  "smt_state s m k = s\<lparr>r_idle_smt := m, r_picks := k\<rparr>"

definition spin_start :: "race_event list" where
  "spin_start = map Step [0, 0, 0, 2, 2, 3, 3, 3, 3]"

definition spin_turn :: "race_event list" where
  "spin_turn = map Step [1, 1, 2, 0, 0, 1, 3, 3, 3, 2, 0, 0, 2, 3, 1, 0, 1, 2, 2, 3]"

lemma four_upd:
  "(four p q r t)(0 := x) = four x q r t" "(four p q r t)(1 := x) = four p x r t"
  "(four p q r t)(2 := x) = four p q x t" "(four p q r t)(3 := x) = four p q r x"
  "four p q r t 0 = p" "four p q r t 1 = q" "four p q r t 2 = r" "four p q r t 3 = t"
  by (auto simp: four_def fun_eq_iff)

lemma four_steps:
  "race_step api env (rivals c d fl) (Step 0) (four p q r t, s) =
     (let (x, u) = pick_section api env {|c|} fl p s in (four x q r t, u))"
  "race_step api env (rivals c d fl) (Step 1) (four p q r t, s) =
     (let (x, u) = pick_section api env {|c|} fl q s in (four p x r t, u))"
  "race_step api env (rivals c d fl) (Step 2) (four p q r t, s) =
     (let (x, u) = pick_section api env {|d|} fl r s in (four p q x t, u))"
  "race_step api env (rivals c d fl) (Step 3) (four p q r t, s) =
     (let (x, u) = pick_section api env {|d|} fl t s in (four p q r x, u))"
  by (simp_all add: rivals_def four_upd split_beta del: One_nat_def)

lemma rival_sections:
  assumes "two_cores api env c d s" and "e \<in> {c, d}"
  shows "e |\<in>| m \<Longrightarrow> pick_section api env {|e|} fl Retry (smt_state s m k) = (Found e, smt_state s m (Suc k))"
    and "e |\<in>| m \<Longrightarrow> pick_section api env a fl (Found e) (smt_state s m k) = (AndNot e, smt_state s m k)"
    and "pick_section api env a fl (AndNot e) (smt_state s m k) =
      (WriteBack e (m |-| cpu_smt_mask api e), smt_state s m k)"
    and "pick_section api env a fl (WriteBack e m') (smt_state s m k) = (Claim e, smt_state s m' k)"
    and "pick_section api env a fl (Claim e) (smt_state s m k) = (Retry, smt_state s m k)"
  using assms by (auto simp: two_cores_def smt_state_def call_any_and_def chosen_single claim_fails)

lemma two_cores_masks:
  assumes "two_cores api env c d s"
  shows "{|c, d|} |-| cpu_smt_mask api c = {|d|}" "{|c, d|} |-| cpu_smt_mask api d = {|c|}"
    "{|c|} |-| cpu_smt_mask api d = {|c|}" "{|d|} |-| cpu_smt_mask api c = {|d|}"
  using assms by (auto simp: two_cores_def)

lemma spin_start_runs:
  assumes t: "two_cores api env c d s"
  shows "\<exists>k'. race_run api env (rivals c d fl) spin_start (four Retry Retry Retry Retry, smt_state s {|c, d|} k) =
      (four (WriteBack c {|d|}) Retry (AndNot d) (Claim d), smt_state s {|c|} k')"
  unfolding spin_start_def
  by (simp add: four_steps rival_sections [OF t] two_cores_masks [OF t] del: pick_section.simps race_step.simps One_nat_def) blast

lemma spin_turn_runs:
  assumes t: "two_cores api env c d s"
  shows "\<exists>k'. race_run api env (rivals c d fl) spin_turn
      (four (WriteBack c {|d|}) Retry (AndNot d) (Claim d), smt_state s {|c|} k) =
      (four (WriteBack c {|d|}) Retry (AndNot d) (Claim d), smt_state s {|c|} k')"
  unfolding spin_turn_def
  by (simp add: four_steps rival_sections [OF t] two_cores_masks [OF t] del: pick_section.simps race_step.simps One_nat_def) blast

lemma spin_turns_run:
  assumes t: "two_cores api env c d s"
  shows "\<exists>k'. race_run api env (rivals c d fl) (concat (replicate n spin_turn))
      (four (WriteBack c {|d|}) Retry (AndNot d) (Claim d), smt_state s {|c|} k) =
      (four (WriteBack c {|d|}) Retry (AndNot d) (Claim d), smt_state s {|c|} k')"
proof (induction n arbitrary: k)
  case (Suc n)
  obtain k1 where "race_run api env (rivals c d fl) spin_turn
      (four (WriteBack c {|d|}) Retry (AndNot d) (Claim d), smt_state s {|c|} k) =
      (four (WriteBack c {|d|}) Retry (AndNot d) (Claim d), smt_state s {|c|} k1)"
    using spin_turn_runs [OF t] by blast
  with Suc [of k1] show ?case by simp
qed auto

definition steps_of :: "nat \<Rightarrow> race_event list \<Rightarrow> nat" where
  "steps_of i evs = length (filter ((=) (Step i)) evs)"

lemma spin_turns_steps: "i < 4 \<Longrightarrow> n \<le> steps_of i (spin_start @ concat (replicate n spin_turn))"
proof (induction n)
  case (Suc n)
  from Suc.prems have "1 \<le> steps_of i spin_turn"
    by (auto simp: steps_of_def spin_turn_def less_Suc_eq eval_nat_numeral)
  with Suc show ?case by (simp add: steps_of_def)
qed simp

section \<open>What the write loses\<close>

text \<open>
  A core that goes idle between the read and the write of \<open>cpumask_andnot\<close> is idle, and is not in the mask
  of idle cores any more.
\<close>

lemma andnot_forgets_idle_core:
  assumes t: "two_cores api env c d s" and ids: "own_ids s" and m: "r_idle_smt s = {|c|}"
    and j: "fst (job i) = {|c|}"
  shows "let (pc, u) = race_run api env job
      [Step i, Step i, Step i, GoIdle d, Step i] (\<lambda>_. Retry, s)
    in rc_state (cores u d) = IPANEMA_IDLE_CORE \<and> d |\<notin>| r_idle_smt u"
proof -
  have "any_and_distribute env (r_picks s) {|c|} {|c|} = c"
    using t chosen_single [of api env c] by (simp add: two_cores_def)
  moreover have "cpu_smt_mask api c |\<inter>| {|c|} \<noteq> {||}" using t by (auto simp: two_cores_def)
  moreover have "d \<noteq> c" using t by (auto simp: two_cores_def)
  ultimately show ?thesis using t ids m j
    by (auto simp: two_cores_def call_any_and_def sched_enter_idle_def upd_core_def own_ids_def Let_def)
qed

section \<open>The properties\<close>

text \<open>A machine with two cores that went idle since their bits for idle cpus were taken, and one without SMT.\<close>

definition race_demo :: rusty_sys where
  "race_demo = rusty_demo\<lparr>r_idle_smt := {|0, 2|}\<rparr>"

lemma race_demo_cores: "two_cores ref_api (demo_env True) 0 2 race_demo" "own_ids race_demo"
  by (simp_all add: two_cores_def demo_distribute) (simp_all add: race_demo_def rusty_demo_def own_ids_def ref_api_def)

text \<open>C15 Calls of \<open>pick_idle_cpu\<close> (rusty_saakm.c) that run on any number of cpus, step by step and in any
  order with cores that go idle and busy: a cpu is returned at most as often as its bit was set, so two calls
  never get the same idle period of a cpu, and a cpu that is returned is one that the call allowed.\<close>

theorem rusty_cpu_claimed_once:
  assumes d: "distribute_ok api env" and ids: "own_ids s"
    and run: "race_run api env job evs (\<lambda>_. Retry, s) = (pc, t)"
  shows "finite {i. pc i = Returned (int c)} \<and>
    card {i. pc i = Returned (int c)} + of_bool (c |\<in>| r_idle_cpu t)
      \<le> of_bool (c |\<in>| r_idle_cpu s) + went_idle c evs \<and>
    (\<forall>i v. pc i = Returned v \<longrightarrow> v = - EBUSY \<or> (\<exists>c. v = int c \<and> c |\<in>| fst (job i)))"
proof -
  have "claims c (pc, t) \<le> claims c (\<lambda>_. Retry, s) + went_idle c evs \<and> finite (holders c pc)"
    using race_run_claims [of "(\<lambda>_. Retry, s)" c api env job evs] ids run by (simp add: holders_def)
  moreover have "pc_allowed (fst (job i)) (pc i)" for i
    using race_run_allowed [OF d, of job "(\<lambda>_. Retry, s)" i evs] run by (simp add: pc_allowed_def)
  ultimately show ?thesis by (auto simp: claims_def holders_def pc_allowed_def)
qed

text \<open>Two calls for cpu 2, which is idle, without SMT: the second finds nothing.\<close>

theorem rusty_cpu_claimed_once_witness:
  "let (pc, t) = race_run ref_api (demo_env False) (\<lambda>_. ({|2|}, 0))
      [Step 0, Step 3, Step 3, Step 0, Step 0] (\<lambda>_. Retry, rusty_demo\<lparr>r_idle_cpu := {|2|}\<rparr>)
   in pc 3 = Returned 2 \<and> pc 0 = Returned (- EBUSY) \<and> card {i. pc i = Returned (int 2)} \<le> 1"
proof -
  let ?evs = "[Step 0, Step 3, Step 3, Step 0, Step 0]" and ?s = "rusty_demo\<lparr>r_idle_cpu := {|2|}\<rparr>"
  obtain pc t where r: "race_run ref_api (demo_env False) (\<lambda>_. ({|2|}, 0)) ?evs (\<lambda>_. Retry, ?s) = (pc, t)"
    by fastforce
  have "own_ids ?s" by (simp add: own_ids_def rusty_demo_def)
  from rusty_cpu_claimed_once [OF demo_distribute this r, of 2]
  have "card {i. pc i = Returned (int 2)} \<le> 1" by simp
  moreover from r have "pc 3 = Returned 2" "pc 0 = Returned (- EBUSY)"
    by (auto simp: scan_cpus_def call_any_and_def claim_cpu_def first_cpu_def rusty_demo_def ref_api_def Let_def)
  ultimately show ?thesis using r by simp
qed

text \<open>C17 Without SMT the calls of \<open>pick_idle_cpu\<close> return, however they are interleaved: \<open>n\<close> calls make at
  most \<open>2 n\<close> steps for every cpu that is idle or goes idle meanwhile, and \<open>2 n\<close> more.\<close>

theorem rusty_calls_return:
  assumes "distribute_ok api env" and "\<not> smt_active env" and "own_ids s"
    and "live_run api env job evs (\<lambda>_. Retry, s)" and "\<And>i. Step i \<in> set evs \<Longrightarrow> i < n"
  shows "nr_steps evs \<le> 2 * n * (fcard (r_idle_cpu s) + wakeups evs + 1)"
  using work_run [OF assms(1,2), of "(\<lambda>_. Retry, s)" job evs n] assms(3-5)
  by (simp add: single_pc_def work_start algebra_simps)

theorem rusty_calls_return_witness:
  "nr_steps [Step 0, Step 2, Step 0, Step 2, Step 2]
    \<le> 2 * 3 * (fcard (r_idle_cpu (rusty_demo\<lparr>r_idle_cpu := {|2|}\<rparr>)) +
        wakeups [Step 0, Step 2, Step 0, Step 2, Step 2] + 1)"
proof (rule rusty_calls_return [where api = ref_api and env = "demo_env False" and job = "\<lambda>_. ({|2|}, 0)"])
  show "live_run ref_api (demo_env False) (\<lambda>_. ({|2|}, 0)) [Step 0, Step 2, Step 0, Step 2, Step 2]
      (\<lambda>_. Retry, rusty_demo\<lparr>r_idle_cpu := {|2|}\<rparr>)"
    by (simp add: scan_cpus_def call_any_and_def claim_cpu_def first_cpu_def rusty_demo_def ref_api_def Let_def)
qed (auto simp: demo_distribute own_ids_def rusty_demo_def)

text \<open>C16 With SMT the calls of \<open>pick_idle_cpu\<close> need not return, although each would on its own: four calls
  for two cores that are in the mask of idle cores but whose cpus are not in the mask of idle
  cpus can each make any number of steps, because a write of \<open>cpumask_andnot\<close> puts back the core that
  another call has just taken out.\<close>

theorem rusty_calls_livelock:
  assumes t: "two_cores api env c d s" and m: "r_idle_smt s = {|c, d|}"
  shows "\<exists>evs pc u. race_run api env (rivals c d fl) evs (\<lambda>_. Retry, s) = (pc, u) \<and>
    (\<forall>i\<in>{0, 1, 2, 3}. n \<le> steps_of i evs \<and> \<not> returned_pc (pc i)) \<and> wakeups evs = 0 \<and>
    r_idle_cpu u = r_idle_cpu s"
proof -
  let ?evs = "spin_start @ concat (replicate n spin_turn)"
  let ?pc = "four (WriteBack c {|d|}) Retry (AndNot d) (Claim d)"
  have "s = smt_state s {|c, d|} (r_picks s)" using m by (simp add: smt_state_def)
  then obtain k where "race_run api env (rivals c d fl) spin_start (four Retry Retry Retry Retry, s) =
      (?pc, smt_state s {|c|} k)"
    using spin_start_runs [OF t] by metis
  then obtain k' where "race_run api env (rivals c d fl) ?evs (four Retry Retry Retry Retry, s) =
      (?pc, smt_state s {|c|} k')"
    using spin_turns_run [OF t] by fastforce
  moreover have "four Retry Retry Retry Retry = (\<lambda>_. Retry)" by (auto simp: four_def fun_eq_iff)
  moreover have "wakeups ?evs = 0"
    by (induction n) (simp_all add: wakeups_def spin_start_def spin_turn_def)
  ultimately show ?thesis
    using spin_turns_steps [of _ n]
    by (intro exI [of _ ?evs] exI [of _ ?pc] exI [of _ "smt_state s {|c|} k'"])
      (simp add: four_upd smt_state_def del: One_nat_def)
qed

theorem rusty_calls_livelock_witness:
  "\<exists>evs pc u. race_run ref_api (demo_env True) (rivals 0 2 0) evs (\<lambda>_. Retry, race_demo) = (pc, u) \<and>
    (\<forall>i\<in>{0, 1, 2, 3}. 1000 \<le> steps_of i evs \<and> \<not> returned_pc (pc i)) \<and> wakeups evs = 0 \<and>
    r_idle_cpu u = r_idle_cpu race_demo"
  by (rule rusty_calls_livelock [OF race_demo_cores(1)]) (simp add: race_demo_def)

end
