(* ===== verification/Modules.thy ===== *)
theory Modules
  imports Debug Central Rusty
begin

text \<open>
  The modules together: what loading, unloading and reading \<open>fifo_debug\<close> do when several of the policies of
  modules/ are inserted into one kernel. What is left in the kernel after a module is gone still points
  into its text: the procfs file, the timer of saakm_central and the tuner thread of rusty_saakm.
\<close>

section \<open>procfs\<close>

text \<open>
  \<open>proc_create_single\<close> gives null and creates nothing when the name is taken or there is no memory;
  \<open>proc_remove\<close> takes the file away. A file is known by its name and the module instance whose
  function it calls.
\<close>

locale procfs =
  fixes create :: "string \<Rightarrow> nat \<Rightarrow> 'f \<Rightarrow> bool \<times> 'f"
    and remove :: "string \<Rightarrow> 'f \<Rightarrow> 'f"
    and look :: "'f \<Rightarrow> string \<Rightarrow> nat option"
  assumes create_made: "create n i f = (True, g) \<Longrightarrow> look f n = None \<and> look g = (look f)(n \<mapsto> i)"
    and create_null: "create n i f = (False, g) \<Longrightarrow> look g = look f"
    and remove_look: "look (remove n f) = (look f)(n := None)"
begin

lemma create_taken: "look f n = Some j \<Longrightarrow> \<not> fst (create n i f)"
  using create_made [of n i f] by (cases "create n i f") auto

end

text \<open>A directory without a limit.\<close>

definition dir_create :: "string \<Rightarrow> nat \<Rightarrow> (string \<Rightarrow> nat option) \<Rightarrow> bool \<times> (string \<Rightarrow> nat option)" where
  "dir_create n i f = (if f n = None then (True, f(n \<mapsto> i)) else (False, f))"

interpretation dir: procfs dir_create "\<lambda>n f. f(n := None)" "\<lambda>f. f"
  by unfold_locales (auto simp: dir_create_def split: if_splits)

section \<open>Inserting a module\<close>

datatype policy =
    PBench fifo_sys
  | PPlain plain_sys
  | PGlobal gfifo_sys
  | POne onefifo_sys
  | PCentral central_sys
  | PRusty rusty_sys

text \<open>What points into a module: its file in procfs (\<open>proc_entry\<close> is not null), its timer, its thread.\<close>

record hooks =
  hk_file :: bool
  hk_timer :: bool
  hk_tuner :: bool

definition no_hooks :: hooks where
  "no_hooks = \<lparr>hk_file = False, hk_timer = False, hk_tuner = False\<rparr>"

definition central_none :: central_module where
  "central_none = \<lparr>policy_allocated = False, policy_registered = False, proc_entry = False,
     timer_armed = False, kt_period = 0\<rparr>"

definition rusty_none :: rusty_module where
  "rusty_none = \<lparr>policy_allocated = False, policy_registered = False, proc_entry = False, tuner_running = False\<rparr>"

text \<open>
  A request has the module's statics as they are loaded, whether its allocations succeed and what
  \<open>ipanema_add_policy\<close> returns.
\<close>

datatype request =
    InsBench fifo_sys bool int
  | InsPlain plain_sys bool int
  | InsGlobal gfifo_sys bool bool int
  | InsOne onefifo_sys bool bool int
  | InsCentral central_sys bool int
  | InsRusty rusty_sys rusty_env int

text \<open>The init functions: the return value, the state, and what was set up. \<open>hk_file\<close>: a file is asked for.\<close>

fun module_init :: "kapi \<Rightarrow> cpu list \<Rightarrow> request \<Rightarrow> (int \<times> policy \<times> hooks) res" where
  "module_init api cpus (InsBench s ok add_res) =
     (let (r, t, m) = fifo_mod_init api cpus ok add_res s no_module
      in Inr (r, PBench t, no_hooks\<lparr>hk_file := proc_entry m\<rparr>))"
| "module_init api cpus (InsPlain s ok add_res) =
     (let (r, t, m) = plain_mod_init api cpus ok add_res s no_module
      in Inr (r, PPlain t, no_hooks\<lparr>hk_file := proc_entry m\<rparr>))"
| "module_init api cpus (InsGlobal s idle_ok ok add_res) =
     (let (r, t, m) = gfifo_mod_init api cpus idle_ok ok add_res s no_module
      in Inr (r, PGlobal t, no_hooks\<lparr>hk_file := proc_entry m\<rparr>))"
| "module_init api cpus (InsOne s idle_ok ok add_res) =
     (let (r, t, m) = onefifo_mod_init api cpus idle_ok ok add_res s no_module
      in Inr (r, POne t, no_hooks\<lparr>hk_file := proc_entry m\<rparr>))"
| "module_init api cpus (InsCentral s ok add_res) =
     (let (r, t, m) = saakm_central_init api cpus ok add_res s central_none
      in Inr (r, PCentral t, no_hooks\<lparr>hk_timer := timer_armed m\<rparr>))"
| "module_init api cpus (InsRusty s env add_res) =
     res_map (\<lambda>(r, t, m). (r, PRusty t, no_hooks\<lparr>hk_tuner := tuner_running m\<rparr>))
       (init_sched api env add_res s rusty_none)"

text \<open>The exit functions.\<close>

definition as_module :: "hooks \<Rightarrow> module" where
  "as_module h = \<lparr>policy_allocated = True, policy_registered = True, proc_entry = hk_file h\<rparr>"

fun module_exit :: "policy \<Rightarrow> hooks \<Rightarrow> hooks" where
  "module_exit (PBench s) h = h\<lparr>hk_file := proc_entry (fifo_exit (as_module h))\<rparr>"
| "module_exit (PPlain s) h = h\<lparr>hk_file := proc_entry (plain_exit (as_module h))\<rparr>"
| "module_exit (PGlobal s) h = h\<lparr>hk_file := proc_entry (gfifo_exit (as_module h))\<rparr>"
| "module_exit (POne s) h = h\<lparr>hk_file := proc_entry (onefifo_exit (as_module h))\<rparr>"
| "module_exit (PCentral s) h =
     h\<lparr>hk_timer := timer_armed (saakm_central_exit (central_none\<lparr>timer_armed := hk_timer h\<rparr>))\<rparr>"
| "module_exit (PRusty s) h =
     h\<lparr>hk_tuner := tuner_running (exit_sched (rusty_none\<lparr>tuner_running := hk_tuner h\<rparr>))\<rparr>"

section \<open>The kernel with its modules\<close>

text \<open>
  Instances are numbered in the order of their insertion. \<open>live\<close> has the instances whose text and data are
  in memory; \<open>hks\<close> what the kernel holds of an instance, live or not.
\<close>

record 'f machine =
  insts :: nat
  live :: "nat \<Rightarrow> policy option"
  dir :: 'f
  hks :: "nat \<Rightarrow> hooks"

text \<open>What the machine runs on: the framework, the cpus, the completion of modules/fifo/fifo.c, procfs.\<close>

record 'f platform =
  w_api :: kapi
  w_cpus :: "cpu list"
  w_lost :: plain_lost
  w_create :: "string \<Rightarrow> nat \<Rightarrow> 'f \<Rightarrow> bool \<times> 'f"
  w_remove :: "string \<Rightarrow> 'f \<Rightarrow> 'f"
  w_look :: "'f \<Rightarrow> string \<Rightarrow> nat option"

datatype sys_event =
    Insmod request
  | Rmmod nat
  | Handler nat rusty_env kevent
  | ReadDebug bool
  | TimerFires nat cpu
  | TunerRuns nat rusty_env

text \<open>All four FIFO modules use this name.\<close>

definition DEBUG_FILE :: string where
  "DEBUG_FILE = ''fifo_debug''"

text \<open>A module stays in memory unless its init function returns a negative number.\<close>

definition insmod :: "'f platform \<Rightarrow> request \<Rightarrow> 'f machine \<Rightarrow> 'f machine res" where
  "insmod w rq M =
     res_map (\<lambda>(r, pol, h).
       let i = insts M;
           (made, d) = (if hk_file h then w_create w DEBUG_FILE i (dir M) else (False, dir M))
       in M\<lparr>insts := Suc i, live := (live M)(i := if r < 0 then None else Some pol), dir := d,
            hks := (hks M)(i := h\<lparr>hk_file := made\<rparr>)\<rparr>)
     (module_init (w_api w) (w_cpus w) rq)"

definition rmmod :: "'f platform \<Rightarrow> nat \<Rightarrow> 'f machine \<Rightarrow> 'f machine" where
  "rmmod w i M =
     (case live M i of
        None \<Rightarrow> M
      | Some pol \<Rightarrow>
          let h = module_exit pol (hks M i)
          in M\<lparr>live := (live M)(i := None), hks := (hks M)(i := h),
               dir := (if hk_file (hks M i) \<and> \<not> hk_file h then w_remove w DEBUG_FILE (dir M) else dir M)\<rparr>)"

fun policy_step :: "'f platform \<Rightarrow> rusty_env \<Rightarrow> kevent \<Rightarrow> policy \<Rightarrow> policy res" where
  "policy_step w env e (PBench s) = res_map PBench (fifo_routines (w_api w) e s)"
| "policy_step w env e (PPlain s) = res_map PPlain (plain_routines (w_lost w) (w_api w) e s)"
| "policy_step w env e (PGlobal s) = res_map PGlobal (gfifo_routines (w_api w) e s)"
| "policy_step w env e (POne s) = res_map POne (onefifo_routines (w_api w) e s)"
| "policy_step w env e (PCentral s) = res_map PCentral (central_routines (w_api w) e s)"
| "policy_step w env e (PRusty s) = res_map PRusty (rusty_routines (w_api w) (Event env e) s)"

fun read_debug :: "'f platform \<Rightarrow> bool \<Rightarrow> policy \<Rightarrow> policy res" where
  "read_debug w alloc (PBench s) = res_map (\<lambda>(r, t). PBench t) (fifo_full_debug_info (w_cpus w) s)"
| "read_debug w alloc (PPlain s) = res_map (\<lambda>(r, t). PPlain t) (plain_full_debug_info (w_cpus w) s)"
| "read_debug w alloc (PGlobal s) = res_map (\<lambda>(r, t). PGlobal t) (gfifo_full_debug_info alloc s)"
| "read_debug w alloc (POne s) = res_map (\<lambda>(r, t). POne t) (onefifo_full_debug_info alloc s)"
| "read_debug w alloc pol = Inr pol"

fun run_tuner :: "rusty_env \<Rightarrow> policy \<Rightarrow> policy res" where
  "run_tuner env (PRusty s) = res_map PRusty (tuner_fn [env] s)"
| "run_tuner env pol = Inr pol"

text \<open>Control goes to the text of instance \<open>i\<close>: a fault when it is no longer in memory.\<close>

definition enter :: "nat \<Rightarrow> (policy \<Rightarrow> policy res) \<Rightarrow> 'f machine \<Rightarrow> 'f machine res" where
  "enter i f M =
     (case live M i of
        None \<Rightarrow> Inl UseAfterFree
      | Some pol \<Rightarrow> res_map (\<lambda>pol'. M\<lparr>live := (live M)(i \<mapsto> pol')\<rparr>) (f pol))"

text \<open>
  The framework calls the handlers of live instances only. The timer callback reads nothing but the cpu;
  it is not restarted on another cpu than 0.
\<close>

fun machine_step :: "'f platform \<Rightarrow> sys_event \<Rightarrow> 'f machine \<Rightarrow> 'f machine res" where
  "machine_step w (Insmod rq) M = insmod w rq M"
| "machine_step w (Rmmod i) M = Inr (rmmod w i M)"
| "machine_step w (Handler i env e) M =
     (if live M i = None then Inr M else enter i (policy_step w env e) M)"
| "machine_step w (ReadDebug alloc) M =
     (case w_look w (dir M) DEBUG_FILE of None \<Rightarrow> Inr M | Some i \<Rightarrow> enter i (read_debug w alloc) M)"
| "machine_step w (TimerFires i cpu) M =
     (if hk_timer (hks M i) then
        res_map (\<lambda>M'. M'\<lparr>hks := (hks M')(i := (hks M' i)\<lparr>hk_timer :=
            (fst (central_timer_callback cpu (\<lambda>p e. e + p) (ms_to_ktime 1000) 0) = HRTIMER_RESTART)\<rparr>)\<rparr>)
          (enter i Inr M)
      else Inr M)"
| "machine_step w (TunerRuns i env) M =
     (if hk_tuner (hks M i) then enter i (run_tuner env) M else Inr M)"

definition booted :: "'f \<Rightarrow> 'f machine" where
  "booted f = \<lparr>insts = 0, live = (\<lambda>_. None), dir = f, hks = (\<lambda>_. no_hooks)\<rparr>"

end
