(* ===== verification/Modules_Correct.thy ===== *)
theory Modules_Correct
  imports Modules Fifo_Props FifoPlain_Props GlobalFifo_Props OneQueue_Props Central_Props Rusty_Props Debug_Props
begin

text \<open>
  The modules together, continued: the invariant of the machine, made of the invariants of the policies and of
  what the kernel holds of each module; the faults each step may have; and that a step has one of them or keeps
  the invariant.
\<close>

section \<open>The invariant and the calling protocol\<close>

fun pol_inv :: "policy \<Rightarrow> bool" where
  "pol_inv (PBench s) = fifo_inv s"
| "pol_inv (PPlain s) = plain_inv s"
| "pol_inv (PGlobal s) = gfifo_inv s"
| "pol_inv (POne s) = onefifo_inv s"
| "pol_inv (PCentral s) = central_inv s"
| "pol_inv (PRusty s) = rusty_inv s"

text \<open>Which hooks a module of this kind may have.\<close>

fun hook_kinds :: "policy \<Rightarrow> hooks \<Rightarrow> bool" where
  "hook_kinds (PCentral s) h = (\<not> hk_file h \<and> \<not> hk_tuner h)"
| "hook_kinds (PRusty s) h = (\<not> hk_file h \<and> \<not> hk_timer h)"
| "hook_kinds _ h = (\<not> hk_timer h \<and> \<not> hk_tuner h)"

text \<open>The calling protocols of the policies, and the faults a handler called by them may have.\<close>

fun pol_protocol :: "'f platform \<Rightarrow> rusty_env \<Rightarrow> kevent \<Rightarrow> policy \<Rightarrow> bool" where
  "pol_protocol w env e (PBench s) = protocol e s"
| "pol_protocol w env e (PPlain s) = plain_protocol (w_lost w) e s"
| "pol_protocol w env e (PGlobal s) = protocol e s"
| "pol_protocol w env e (POne s) = protocol e s"
| "pol_protocol w env e (PCentral s) = central_protocol e s"
| "pol_protocol w env e (PRusty s) = rusty_protocol (w_api w) (Event env e) s"

fun pol_faults :: "'f platform \<Rightarrow> rusty_env \<Rightarrow> kevent \<Rightarrow> policy \<Rightarrow> fault set" where
  "pol_faults w env e (PPlain s) = set_option (lost_fault (w_lost w) (w_api w) e s)"
| "pol_faults w env e (POne s) = (if uninit_select (w_api w) e s then {UninitRead} else {})"
| "pol_faults w env e (PCentral s) = (if empty_schedule e s then {NullDeref} else {})"
| "pol_faults w env e (PRusty s) =
     (case must_fault (w_api w) (Event env e) s of
        Some f \<Rightarrow> {f} | None \<Rightarrow> may_faults (w_api w) (Event env e) s)"
| "pol_faults w env e _ = {}"

text \<open>
  The readers of the shared runqueues fault when the queue is empty or their buffer is missing; the length of
  a queue fits in 32 bits.
\<close>

definition shared_faults :: "bool \<Rightarrow> kernel \<Rightarrow> fault set" where
  "shared_faults alloc k =
     (if k_queue k GlobalRq = [] then {UninitRead} else if \<not> alloc then {NullDeref} else {})"

fun read_faults :: "bool \<Rightarrow> policy \<Rightarrow> fault set" where
  "read_faults alloc (PGlobal s) = shared_faults alloc (kern s)"
| "read_faults alloc (POne s) = shared_faults alloc (kern s)"
| "read_faults alloc _ = {}"

fun countable_queue :: "policy \<Rightarrow> bool" where
  "countable_queue (PGlobal s) = (length (k_queue (kern s) GlobalRq) < 2 ^ 32)"
| "countable_queue (POne s) = (length (k_queue (kern s) GlobalRq) < 2 ^ 32)"
| "countable_queue _ = True"

text \<open>Statics as the kernel loads them, and a policy that the framework takes.\<close>

fun fresh_request :: "request \<Rightarrow> bool" where
  "fresh_request (InsBench s ok r) = (fresh_kernel (kern s) \<and> r = 0)"
| "fresh_request (InsPlain s ok r) = (fresh_kernel (kern s) \<and> r = 0)"
| "fresh_request (InsGlobal s idle_ok ok r) = (fresh_kernel (kern s) \<and> heap s = (\<lambda>_. None) \<and> r = 0)"
| "fresh_request (InsOne s idle_ok ok r) = (fresh_kernel (kern s) \<and> r = 0)"
| "fresh_request (InsCentral s ok r) = (fresh_kernel (kern s) \<and> on_central (kern s) \<and> r = 0)"
| "fresh_request (InsRusty s env r) = (domains_ok env \<and> rusty_unloaded s \<and> r = 0)"

text \<open>Loading rusty_saakm without memory for its masks.\<close>

fun load_faults :: "request \<Rightarrow> fault set" where
  "load_faults (InsRusty s env r) = (if kzalloc_ok env then {} else {NullDeref})"
| "load_faults _ = {}"

definition machine_inv :: "'f platform \<Rightarrow> 'f machine \<Rightarrow> bool" where
  "machine_inv w M \<longleftrightarrow>
     (\<forall>i. hk_file (hks M i) \<longleftrightarrow> w_look w (dir M) DEBUG_FILE = Some i) \<and>
     (\<forall>i. case live M i of
        None \<Rightarrow> hks M i = no_hooks
      | Some pol \<Rightarrow> i < insts M \<and> pol_inv pol \<and> hook_kinds pol (hks M i))"

text \<open>
  What happens to the machine: fresh modules whose policy the framework takes are loaded, and handlers are
  called by the protocols of their policies, on a platform as documented; allocations may fail.
\<close>

fun machine_protocol :: "'f platform \<Rightarrow> sys_event \<Rightarrow> 'f machine \<Rightarrow> bool" where
  "machine_protocol w (Insmod rq) M = fresh_request rq"
| "machine_protocol w (Rmmod i) M = True"
| "machine_protocol w (Handler i env e) M =
     (case live M i of None \<Rightarrow> True | Some pol \<Rightarrow> pol_protocol w env e pol)"
| "machine_protocol w (ReadDebug alloc) M =
     (case w_look w (dir M) DEBUG_FILE of
        None \<Rightarrow> True
      | Some i \<Rightarrow> (case live M i of None \<Rightarrow> True | Some pol \<Rightarrow> countable_queue pol))"
| "machine_protocol w (TimerFires i c) M = True"
| "machine_protocol w (TunerRuns i env) M = platform_ok (w_api w) env"

text \<open>The faults the modules have on their own. Running the text of a module that is gone is not one of them.\<close>

fun machine_faults :: "'f platform \<Rightarrow> sys_event \<Rightarrow> 'f machine \<Rightarrow> fault set" where
  "machine_faults w (Insmod rq) M = load_faults rq"
| "machine_faults w (Handler i env e) M = (case live M i of None \<Rightarrow> {} | Some pol \<Rightarrow> pol_faults w env e pol)"
| "machine_faults w (ReadDebug alloc) M =
     (case w_look w (dir M) DEBUG_FILE of
        None \<Rightarrow> {}
      | Some i \<Rightarrow> (case live M i of None \<Rightarrow> {} | Some pol \<Rightarrow> read_faults alloc pol))"
| "machine_faults w (TunerRuns i env) M = (if hk_tuner (hks M i) \<and> \<not> kzalloc_ok env then {NullDeref} else {})"
| "machine_faults w _ M = {}"

definition machine_en :: "'f platform \<Rightarrow> sys_event \<Rightarrow> 'f machine \<Rightarrow> bool" where
  "machine_en w e M \<longleftrightarrow> machine_protocol w e M \<and> machine_faults w e M = {}"

lemma no_hooks_simps [simp]:
  "\<not> hk_file no_hooks" "\<not> hk_timer no_hooks" "\<not> hk_tuner no_hooks"
  by (simp_all add: no_hooks_def)

lemma hook_kinds_none [simp]: "hook_kinds pol no_hooks"
  by (cases pol) simp_all

lemma hook_kinds_sub:
  "hook_kinds pol h \<Longrightarrow> hook_kinds pol (h\<lparr>hk_timer := b \<and> hk_timer h\<rparr>)"
  by (cases pol) simp_all

lemma machine_invD:
  assumes "machine_inv w M"
  shows "hk_file (hks M i) \<longleftrightarrow> w_look w (dir M) DEBUG_FILE = Some i"
    and "live M i = None \<Longrightarrow> hks M i = no_hooks"
    and "live M i = Some pol \<Longrightarrow> i < insts M \<and> pol_inv pol \<and> hook_kinds pol (hks M i)"
proof -
  from assms have f: "hk_file (hks M i) \<longleftrightarrow> w_look w (dir M) DEBUG_FILE = Some i"
    and c: "case live M i of None \<Rightarrow> hks M i = no_hooks
      | Some pol \<Rightarrow> i < insts M \<and> pol_inv pol \<and> hook_kinds pol (hks M i)"
    unfolding machine_inv_def by blast+
  show "hk_file (hks M i) \<longleftrightarrow> w_look w (dir M) DEBUG_FILE = Some i" by (rule f)
  show "live M i = None \<Longrightarrow> hks M i = no_hooks"
    and "live M i = Some pol \<Longrightarrow> i < insts M \<and> pol_inv pol \<and> hook_kinds pol (hks M i)"
    using c by simp_all
qed

section \<open>The readers\<close>

text \<open>The report changes the trace only.\<close>

lemma trace_invs [simp]:
  "fifo_inv (s\<lparr>trace := tr\<rparr>) = fifo_inv s"
  "plain_inv (y\<lparr>trace := tr\<rparr>) = plain_inv y"
  "gfifo_inv (g\<lparr>trace := tr\<rparr>) = gfifo_inv g"
  "onefifo_inv (x\<lparr>trace := tr\<rparr>) = onefifo_inv x"
  by (simp_all add: fifo_inv_def plain_inv_def gfifo_inv_def onefifo_inv_def shared_ok_def base_ok_def)

lemma fifo_queued_object:
  assumes "fifo_inv s" and "p \<in> set (k_queue (kern s) x)"
  shows "\<exists>a fp. policy_metadata p s = Inr (a, fp)"
proof -
  have "policy_inv fp_state fp_task fp_rq (kern s) (heap s)" using assms(1) by (simp add: fifo_inv_def)
  from fifo_inv_object [OF assms(1) policy_inv_queued(1) [OF this assms(2)]] show ?thesis by blast
qed

lemma plain_queued_object:
  assumes "plain_inv s" and "p \<in> set (k_queue (kern s) x)"
  shows "\<exists>a fp. policy_metadata p s = Inr (a, fp)"
  using plain_object [OF assms(1) policy_inv_queued(1) [OF plain_inv_parts(1) [OF assms(1)] assms(2)]] by blast

text \<open>What control in a module does to it: it returns and keeps the invariant, or has one of the faults \<open>F\<close>.\<close>

definition keeps :: "fault set \<Rightarrow> policy \<Rightarrow> policy res \<Rightarrow> bool" where
  "keeps F pol r \<longleftrightarrow>
     (\<exists>pol'. r = Inr pol' \<and> pol_inv pol' \<and> hook_kinds pol' = hook_kinds pol) \<or> (\<exists>f \<in> F. r = Inl f)"

lemma keeps_Inr: "pol_inv pol' \<Longrightarrow> hook_kinds pol' = hook_kinds pol \<Longrightarrow> keeps F pol (Inr pol')"
  by (simp add: keeps_def)

lemma keeps_Inl: "f \<in> F \<Longrightarrow> keeps F pol (Inl f)"
  by (simp add: keeps_def)

lemma shared_read_keeps:
  assumes out: "case k_queue k GlobalRq of [] \<Rightarrow> r = Inl UninitRead
      | p # ps \<Rightarrow> if alloc then \<exists>ls t. r = Inr ((of_nat (Suc (length ps)), ls), t) \<and> Q ls t p ps
          else r = Inl NullDeref"
    and ok: "\<And>ls t p ps. Q ls t p ps \<Longrightarrow> pol_inv (P t) \<and> hook_kinds (P t) = hook_kinds pol"
  shows "keeps (shared_faults alloc k) pol (res_map (\<lambda>(r, t). P t) r)"
proof (cases "k_queue k GlobalRq")
  case Nil
  with out show ?thesis by (simp add: shared_faults_def keeps_Inl)
next
  case (Cons p ps)
  with out ok show ?thesis
    by (cases alloc) (auto simp: shared_faults_def intro!: keeps_Inr keeps_Inl)
qed

lemma read_debug_outcome:
  assumes inv: "pol_inv pol" and len: "countable_queue pol"
  shows "keeps (read_faults alloc pol) pol (read_debug w alloc pol)"
proof (cases pol)
  case (PBench s)
  with inv have i: "fifo_inv s" by simp
  obtain rs where "fifo_full_debug_info (w_cpus w) s = Inr (rs, s\<lparr>trace := trace s @ lock_pairs (w_cpus w)\<rparr>)"
    using debug_cpus_ok [of s] fifo_queued_object [OF i] unfolding fifo_full_debug_info_def by blast
  with PBench i show ?thesis by (simp add: keeps_def fun_eq_iff)
next
  case (PPlain s)
  with inv have i: "plain_inv s" by simp
  obtain rs where "plain_full_debug_info (w_cpus w) s = Inr (rs, s\<lparr>trace := trace s @ lock_pairs (w_cpus w)\<rparr>)"
    using debug_cpus_ok [of s] plain_queued_object [OF i] unfolding plain_full_debug_info_def by blast
  with PPlain i show ?thesis by (simp add: keeps_def fun_eq_iff)
next
  case (PGlobal s)
  with inv len have i: "gfifo_inv s" and l: "length (k_queue (kern s) GlobalRq) < 2 ^ 32" by simp_all
  have "shared_inv gp_task {} (kern s) (heap s)" using i by (simp add: gfifo_inv_def shared_ok_def)
  then have "\<exists>a fp. policy_metadata p s = Inr (a, fp)" if "p \<in> set (k_queue (kern s) GlobalRq)" for p
    using gfifo_object [OF i shared_queued(1) [OF _ that]] by blast
  from shared_read_keeps [OF shared_debug_outcomes [of s, OF this l, where lk = ModuleLock and so = gp_state
      and qo = gp_current_quantum_ns and alloc = alloc], where P = PGlobal and pol = pol] PGlobal i
  show ?thesis by (auto simp: gfifo_full_debug_info_def fun_eq_iff)
next
  case (POne s)
  with inv len have i: "onefifo_inv s" and l: "length (k_queue (kern s) GlobalRq) < 2 ^ 32" by simp_all
  from shared_read_keeps [OF onefifo_debug_outcomes [OF i l, of alloc], where P = POne and pol = pol] POne i
  show ?thesis by (auto simp: fun_eq_iff)
qed (use inv in \<open>simp_all add: keeps_Inr\<close>)

section \<open>The machine does not fault\<close>

text \<open>The framework and procfs as documented.\<close>

locale module_system = saakm_framework "w_api w" + procfs "w_create w" "w_remove w" "w_look w"
  for w :: "'f platform"
begin

lemma policy_step_outcome:
  assumes inv: "pol_inv pol" and prot: "pol_protocol w env e pol"
  shows "keeps (pol_faults w env e pol) pol (policy_step w env e pol)"
proof (cases pol)
  case (PBench s)
  with assms fifo.progress [of s e] show ?thesis by (auto simp: keeps_def fun_eq_iff)
next
  case (PPlain s)
  with assms have i: "plain_inv s" "plain_protocol (w_lost w) e s" by simp_all
  show ?thesis
  proof (cases "lost_fault (w_lost w) (w_api w) e s")
    case None
    with plain_outcome [OF i] obtain t where "plain_routines (w_lost w) (w_api w) e s = Inr t" "plain_inv t" by auto
    with PPlain show ?thesis by (simp add: keeps_def fun_eq_iff)
  next
    case (Some f)
    with plain_outcome [OF i] PPlain show ?thesis by (simp add: keeps_def)
  qed
next
  case (PGlobal s)
  with assms gfifo.progress [of s e] show ?thesis by (auto simp: keeps_def fun_eq_iff)
next
  case (POne s)
  with assms have i: "onefifo_inv s" "protocol e s" by simp_all
  show ?thesis
  proof (cases "uninit_select (w_api w) e s")
    case True
    with onefifo_uninit [OF i(1)] POne show ?thesis by (simp add: keeps_def)
  next
    case False
    with i onefifo.progress [of s e] POne show ?thesis by (auto simp: keeps_def onefifo_en_def fun_eq_iff)
  qed
next
  case (PCentral s)
  with assms have i: "central_inv s" "central_protocol e s" by simp_all
  show ?thesis
  proof (cases "empty_schedule e s")
    case True
    then have "central_routines (w_api w) e s = Inl NullDeref"
      using central_schedule_empty [OF i(1)] by (auto simp: empty_schedule_def)
    with True PCentral show ?thesis by (simp add: keeps_def)
  next
    case False
    with i central.progress [of s e] PCentral show ?thesis by (auto simp: keeps_def central_en_def fun_eq_iff)
  qed
next
  case (PRusty s)
  with assms have i: "rusty_inv s" "rusty_protocol (w_api w) (Event env e) s" by simp_all
  show ?thesis
  proof (cases "must_fault (w_api w) (Event env e) s")
    case None
    with rusty_outcome [OF i] consider t where "rusty_routines (w_api w) (Event env e) s = Inr t" "rusty_inv t"
      | f where "f \<in> may_faults (w_api w) (Event env e) s" "rusty_routines (w_api w) (Event env e) s = Inl f"
      by auto
    then show ?thesis using None PRusty by cases (auto simp: keeps_def fun_eq_iff)
  next
    case (Some f)
    with rusty_outcome [OF i] PRusty show ?thesis by (simp add: keeps_def)
  qed
qed

lemma run_tuner_outcome:
  assumes inv: "pol_inv pol" and pl: "platform_ok (w_api w) env"
  shows "keeps (if kzalloc_ok env then {} else {NullDeref}) pol (run_tuner env pol)"
proof (cases pol)
  case (PRusty s)
  show ?thesis
  proof (cases "kzalloc_ok env")
    case True
    with PRusty inv pl rusty_tuner [of s "w_api w" env] show ?thesis by (auto simp: keeps_def fun_eq_iff)
  next
    case False
    with PRusty show ?thesis by (simp add: keeps_def tuner_step_def)
  qed
qed (use inv in \<open>simp_all add: keeps_Inr\<close>)

text \<open>Loading: a module that does not stay in memory has set up nothing.\<close>

lemma module_init_ok:
  assumes "fresh_request rq" and mem: "load_faults rq = {}"
  shows "\<exists>r pol h. module_init (w_api w) cpus rq = Inr (r, pol, h) \<and> hook_kinds pol h \<and>
    (if r < 0 then h = no_hooks else pol_inv pol)"
proof (cases rq)
  case (InsBench s ok r)
  with assms fifo_init_inv [of s cpus ok r no_module] show ?thesis
    by (auto simp: fifo_mod_init_def no_module_def no_hooks_def ENOMEM_def Let_def)
next
  case (InsPlain s ok r)
  obtain r1 s1 m1 where p: "plain_mod_init (w_api w) cpus ok r s no_module = (r1, s1, m1)" by (rule prod_cases3)
  with plain_init_inv [OF _ p] InsPlain assms have "plain_inv s1" by simp
  with p assms InsPlain show ?thesis
    by (auto simp: plain_mod_init_def no_module_def no_hooks_def ENOMEM_def Let_def split: if_splits)
next
  case (InsGlobal s idle ok r)
  with assms gfifo_init_inv [of s cpus ok r] show ?thesis
    by (cases idle; cases ok) (auto simp: gfifo_mod_init_def no_module_def no_hooks_def ENOMEM_def Let_def)
next
  case (InsOne s idle ok r)
  with assms onefifo_init_inv [of s cpus ok r] show ?thesis
    by (cases idle; cases ok) (auto simp: onefifo_mod_init_def no_module_def no_hooks_def ENOMEM_def Let_def)
next
  case (InsCentral s ok r)
  with assms central_init_inv [of s cpus ok r central_none] show ?thesis
    by (auto simp: saakm_central_init_def central_none_def no_hooks_def ENOMEM_def Let_def)
next
  case (InsRusty s env r)
  with assms init_sched_effect [of env s r rusty_none] show ?thesis
    by (auto simp: no_hooks_def split: if_splits)
qed

lemma module_init_fault:
  assumes "f \<in> load_faults rq"
  shows "module_init (w_api w) cpus rq = Inl f"
  using assms by (cases rq) (auto simp: init_sched_def split: if_splits)

lemma module_exit_hooks: "hook_kinds pol h \<Longrightarrow> module_exit pol h = no_hooks"
  by (cases pol) (auto simp: no_hooks_def fifo_exit_def plain_exit_def gfifo_exit_def onefifo_exit_def
      saakm_central_exit_def exit_sched_def as_module_def central_none_def rusty_none_def)

lemma insmod_ok:
  assumes inv: "machine_inv w M" and fresh: "fresh_request rq" "load_faults rq = {}"
    and free: "live M (insts M) = None"
  shows "\<exists>M'. insmod w rq M = Inr M' \<and> machine_inv w M'"
proof -
  let ?i = "insts M"
  obtain r pol h where m: "module_init (w_api w) (w_cpus w) rq = Inr (r, pol, h)" "hook_kinds pol h"
    "if r < 0 then h = no_hooks else pol_inv pol"
    using module_init_ok [OF fresh] by blast
  define dd where "dd = (if hk_file h then w_create w DEBUG_FILE ?i (dir M) else (False, dir M))"
  obtain made d where dd: "dd = (made, d)" by fastforce
  let ?h = "h\<lparr>hk_file := made\<rparr>"
  let ?M = "M\<lparr>insts := Suc ?i, live := (live M)(?i := if r < 0 then None else Some pol), dir := d,
      hks := (hks M)(?i := ?h)\<rparr>"
  have none: "hks M ?i = no_hooks" by (rule machine_invD(2) [OF inv free])
  then have out: "w_look w (dir M) DEBUG_FILE \<noteq> Some ?i" using machine_invD(1) [OF inv, of ?i] by simp
  have look: "w_look w d DEBUG_FILE = (if made then Some ?i else w_look w (dir M) DEBUG_FILE)"
    and free: "made \<Longrightarrow> w_look w (dir M) DEBUG_FILE = None" and mh: "made \<Longrightarrow> hk_file h"
    using dd create_made [of DEBUG_FILE ?i "dir M" d] create_null [of DEBUG_FILE ?i "dir M" d]
    by (auto simp: dd_def split: if_splits)
  have "r < 0 \<Longrightarrow> ?h = no_hooks" using m(3) mh by (cases made) (auto simp: no_hooks_def)
  moreover have "hook_kinds pol ?h" using m(2) mh by (cases pol; cases made) auto
  moreover have "made \<Longrightarrow> \<not> hk_file (hks M j)" for j using free machine_invD(1) [OF inv, of j] by simp
  ultimately have "machine_inv w ?M"
    using m(3) machine_invD [OF inv] look out
    by (auto simp: machine_inv_def less_Suc_eq split: option.split)
  moreover have "insmod w rq M = Inr ?M" using m(1) dd by (simp add: insmod_def dd_def split_beta Let_def)
  ultimately show ?thesis by blast
qed

text \<open>What a step does: it returns and keeps the invariant, or has one of the faults \<open>F\<close>.\<close>

definition stays :: "fault set \<Rightarrow> 'f machine res \<Rightarrow> bool" where
  "stays F r \<longleftrightarrow> (\<exists>M'. r = Inr M' \<and> machine_inv w M') \<or> (\<exists>f \<in> F. r = Inl f)"

text \<open>Control enters the text of a live module.\<close>

lemma enter_stays:
  assumes inv: "machine_inv w M" and l: "live M i = Some pol" and f: "keeps F pol (f pol)"
  shows "stays F (enter i f M)"
proof -
  from f consider pol' where "f pol = Inr pol'" "pol_inv pol'" "hook_kinds pol' = hook_kinds pol"
    | e where "e \<in> F" "f pol = Inl e" by (auto simp: keeps_def)
  then show ?thesis
  proof cases
    case (1 pol')
    then have "machine_inv w (M\<lparr>live := (live M)(i \<mapsto> pol')\<rparr>)"
      using machine_invD [OF inv] machine_invD(3) [OF inv l]
      by (auto simp: machine_inv_def split: option.split)
    with l 1 show ?thesis by (simp add: enter_def stays_def)
  qed (use l in \<open>auto simp: enter_def stays_def\<close>)
qed

lemma stays_Inr: "machine_inv w M \<Longrightarrow> stays F (Inr M)"
  by (simp add: stays_def)

lemma rmmod_inv:
  assumes inv: "machine_inv w M"
  shows "machine_inv w (rmmod w i M)"
proof (cases "live M i")
  case None
  with inv show ?thesis by (simp add: rmmod_def)
next
  case (Some pol)
  note i = machine_invD(3) [OF inv Some] and look = machine_invD(1) [OF inv]
  then have x: "module_exit pol (hks M i) = no_hooks" by (simp add: module_exit_hooks)
  have "w_look w (if hk_file (hks M i) then w_remove w DEBUG_FILE (dir M) else dir M) DEBUG_FILE = Some j
      \<longleftrightarrow> hk_file (((hks M)(i := no_hooks)) j)" for j
    using look [of i] look [of j] by (auto simp: remove_look)
  then show ?thesis using machine_invD(2,3) [OF inv] Some x
    by (auto simp: rmmod_def machine_inv_def split: option.split)
qed

lemma timer_inv:
  assumes "machine_inv w M"
  shows "machine_inv w (M\<lparr>hks := (hks M)(i := (hks M i)\<lparr>hk_timer := b \<and> hk_timer (hks M i)\<rparr>)\<rparr>)"
proof -
  have "(hks M i)\<lparr>hk_timer := b \<and> hk_timer (hks M i)\<rparr> = no_hooks" if "hks M i = no_hooks"
    using that by (simp add: no_hooks_def)
  with machine_invD [OF assms] hook_kinds_sub show ?thesis
    by (auto simp: machine_inv_def split: option.split)
qed

lemma machine_outcome:
  assumes inv: "machine_inv w M" and prot: "machine_protocol w e M"
  shows "stays (machine_faults w e M) (machine_step w e M)"
proof (cases e)
  case (Insmod rq)
  show ?thesis
  proof (cases "load_faults rq = {}")
    case True
    have "live M (insts M) = None" using machine_invD(3) [OF inv, of "insts M"] by (cases "live M (insts M)") auto
    with insmod_ok [OF inv _ True] prot Insmod show ?thesis by (auto simp: stays_def)
  next
    case False
    then obtain f where "f \<in> load_faults rq" by blast
    with module_init_fault [OF this] Insmod show ?thesis by (auto simp: stays_def insmod_def)
  qed
next
  case (Rmmod i)
  with rmmod_inv [OF inv] show ?thesis by (simp add: stays_Inr)
next
  case (Handler i env ev)
  show ?thesis
  proof (cases "live M i")
    case (Some pol)
    from machine_invD(3) [OF inv this] prot Handler Some
    have "keeps (pol_faults w env ev pol) pol (policy_step w env ev pol)" by (intro policy_step_outcome) simp_all
    from enter_stays [where f = "policy_step w env ev", OF inv Some this] Handler Some show ?thesis by simp
  qed (use inv Handler in \<open>simp add: stays_Inr\<close>)
next
  case (ReadDebug alloc)
  show ?thesis
  proof (cases "w_look w (dir M) DEBUG_FILE")
    case (Some i)
    then have "hks M i \<noteq> no_hooks" using machine_invD(1) [OF inv, of i] by auto
    then obtain pol where p: "live M i = Some pol" using machine_invD(2) [OF inv] by blast
    from prot ReadDebug Some p machine_invD(3) [OF inv p]
    have "keeps (read_faults alloc pol) pol (read_debug w alloc pol)" by (intro read_debug_outcome) simp_all
    from enter_stays [where f = "read_debug w alloc", OF inv p this] ReadDebug Some p show ?thesis by simp
  qed (use inv ReadDebug in \<open>simp add: stays_Inr\<close>)
next
  case (TimerFires i c)
  show ?thesis
  proof (cases "hk_timer (hks M i)")
    case True
    then obtain pol where p: "live M i = Some pol" using machine_invD(2) [OF inv] by fastforce
    then have "enter i Inr M = Inr M" by (simp add: enter_def fun_upd_idem)
    with timer_inv [OF inv, of i] TimerFires True show ?thesis by (simp add: stays_def)
  qed (use inv TimerFires in \<open>simp add: stays_Inr\<close>)
next
  case (TunerRuns i env)
  show ?thesis
  proof (cases "hk_tuner (hks M i)")
    case True
    then obtain pol where p: "live M i = Some pol" using machine_invD(2) [OF inv] by fastforce
    from machine_invD(3) [OF inv p] prot TunerRuns
    have "keeps (if kzalloc_ok env then {} else {NullDeref}) pol (run_tuner env pol)"
      by (intro run_tuner_outcome) simp_all
    from enter_stays [where f = "run_tuner env", OF inv p this] TunerRuns True show ?thesis by (simp split: if_splits)
  qed (use inv TunerRuns in \<open>simp add: stays_Inr\<close>)
qed

lemma machine_progress:
  assumes inv: "machine_inv w M" and en: "machine_en w e M"
  shows "\<exists>M'. machine_step w e M = Inr M' \<and> machine_inv w M'"
  using machine_outcome [OF inv, of e] en by (simp add: machine_en_def stays_def)

text \<open>A run: it returns, or it stops at an event that has a fault of its own.\<close>

lemma machine_run_outcome:
  "machine_inv w M \<Longrightarrow> admissible (machine_step w) (machine_protocol w) es M \<Longrightarrow>
    (\<exists>M'. run (machine_step w) es M = Inr M' \<and> machine_inv w M') \<or>
    (\<exists>es1 e es2 M1 f. es = es1 @ e # es2 \<and> run (machine_step w) es1 M = Inr M1 \<and> machine_inv w M1 \<and>
       f \<in> machine_faults w e M1 \<and> run (machine_step w) es M = Inl f)"
proof (induction es arbitrary: M)
  case Nil
  then show ?case by simp
next
  case (Cons e es)
  from Cons.prems have "machine_protocol w e M" by simp
  from machine_outcome [OF Cons.prems(1) this] consider
      M1 where "machine_step w e M = Inr M1" "machine_inv w M1"
    | f where "f \<in> machine_faults w e M" "machine_step w e M = Inl f" by (auto simp: stays_def)
  then show ?case
  proof cases
    case (1 M1)
    with Cons.prems have "admissible (machine_step w) (machine_protocol w) es M1" by simp
    from Cons.IH [OF 1(2) this] show ?thesis
    proof (elim disjE exE conjE)
      fix es1 e' es2 M2 f
      assume x: "es = es1 @ e' # es2" "run (machine_step w) es1 M1 = Inr M2" "machine_inv w M2"
        "f \<in> machine_faults w e' M2" "run (machine_step w) es M1 = Inl f"
      then have "e # es = (e # es1) @ e' # es2" "run (machine_step w) (e # es1) M = Inr M2"
        "run (machine_step w) (e # es) M = Inl f" using 1(1) by simp_all
      with x(3,4) show ?thesis by blast
    qed (use 1 in simp)
  next
    case (2 f)
    then have "e # es = [] @ e # es" "run (machine_step w) [] M = Inr M" "run (machine_step w) (e # es) M = Inl f"
      by simp_all
    with 2(1) Cons.prems(1) show ?thesis by blast
  qed
qed

lemma booted_inv: "w_look w d DEBUG_FILE = None \<Longrightarrow> machine_inv w (booted d)"
  by (simp add: machine_inv_def booted_def)

end

sublocale module_system \<subseteq> machine: saakm_policy "machine_step w" "machine_en w" "machine_inv w"
  by unfold_locales (rule machine_progress)

end
