(* ===== verification/Modules_Props.thy ===== *)
theory Modules_Props
  imports Modules_Correct
begin

text \<open>
  The properties of the modules together: while the framework takes every policy nothing faults but what each
  module faults on by itself, and what a refused policy leaves behind points into freed text for ever.
\<close>

section \<open>What stays of a refused module\<close>

text \<open>The loads that reach \<open>ipanema_add_policy\<close> and are refused there, and what they have set up by then.\<close>

fun refused :: "request \<Rightarrow> bool" where
  "refused (InsBench s ok r) = (ok \<and> r < 0)"
| "refused (InsPlain s ok r) = (ok \<and> r < 0)"
| "refused (InsGlobal s idle_ok ok r) = (idle_ok \<and> ok \<and> r < 0)"
| "refused (InsOne s idle_ok ok r) = (idle_ok \<and> ok \<and> r < 0)"
| "refused (InsCentral s ok r) = (ok \<and> r < 0)"
| "refused (InsRusty s env r) = (domains_ok env \<and> kzalloc_ok env \<and> rusty_unloaded s \<and> r < 0)"

fun sets_up :: "request \<Rightarrow> hooks" where
  "sets_up (InsCentral s ok r) = no_hooks\<lparr>hk_timer := True\<rparr>"
| "sets_up (InsRusty s env r) = no_hooks\<lparr>hk_tuner := True\<rparr>"
| "sets_up _ = no_hooks\<lparr>hk_file := True\<rparr>"

lemma refused_init:
  assumes "saakm_framework api" and "refused rq"
  shows "\<exists>r pol. module_init api cpus rq = Inr (r, pol, sets_up rq) \<and> r < 0"
proof (cases rq)
  case (InsRusty s env r)
  with assms(2) saakm_framework.init_sched_effect [OF assms(1), of env s r rusty_none] show ?thesis
    by (auto simp: no_hooks_def)
qed (use assms(2) in \<open>auto simp: fifo_mod_init_def plain_mod_init_def gfifo_mod_init_def onefifo_mod_init_def
    saakm_central_init_def no_module_def central_none_def no_hooks_def Let_def\<close>)

section \<open>Instances and their files\<close>

text \<open>What holds of any machine, whatever its modules do.\<close>

definition files_inv :: "'f platform \<Rightarrow> 'f machine \<Rightarrow> bool" where
  "files_inv w M \<longleftrightarrow> (\<forall>j. hk_file (hks M j) \<longleftrightarrow> w_look w (dir M) DEBUG_FILE = Some j) \<and>
     (\<forall>j \<ge> insts M. live M j = None \<and> hks M j = no_hooks)"

text \<open>An instance that is gone, with what the kernel still has of it.\<close>

definition left_over :: "nat \<Rightarrow> hooks \<Rightarrow> 'f machine \<Rightarrow> bool" where
  "left_over i h M \<longleftrightarrow> i < insts M \<and> live M i = None \<and> hks M i = h"

lemma enter_Inr:
  assumes "enter i f M = Inr M'"
  shows "insts M' = insts M \<and> hks M' = hks M \<and> dir M' = dir M \<and> live M i \<noteq> None \<and>
    (\<forall>j. live M' j = None \<longleftrightarrow> live M j = None)"
  using assms by (auto simp: enter_def res_map_eq_Inr split: option.splits if_splits)

lemma module_exit_file:
  "hk_file (module_exit pol h) \<Longrightarrow> hk_file h"
  by (cases pol) (auto simp: fifo_exit_def plain_exit_def gfifo_exit_def onefifo_exit_def as_module_def)

context procfs
begin

lemma insmod_step:
  assumes w: "w_create w = create" "w_remove w = remove" "w_look w = look"
    and fi: "files_inv w M" and s: "insmod w rq M = Inr M'"
  shows "files_inv w M' \<and> insts M' = Suc (insts M) \<and> (\<forall>j < insts M. live M' j = live M j \<and> hks M' j = hks M j)"
proof -
  let ?i = "insts M"
  from s obtain r pol h where m: "module_init (w_api w) (w_cpus w) rq = Inr (r, pol, h)"
    by (auto simp: insmod_def res_map_eq_Inr)
  obtain made d where d: "(if hk_file h then w_create w DEBUG_FILE ?i (dir M) else (False, dir M)) = (made, d)"
    by fastforce
  with s m have M': "M' = M\<lparr>insts := Suc ?i, live := (live M)(?i := if r < 0 then None else Some pol), dir := d,
      hks := (hks M)(?i := h\<lparr>hk_file := made\<rparr>)\<rparr>"
    by (simp add: insmod_def Let_def)
  have "look d DEBUG_FILE = (if made then Some ?i else look (dir M) DEBUG_FILE)"
    and "made \<Longrightarrow> look (dir M) DEBUG_FILE = None"
    using d w create_made [of DEBUG_FILE ?i "dir M" d] create_null [of DEBUG_FILE ?i "dir M" d]
    by (auto split: if_splits)
  moreover from fi have "look (dir M) DEBUG_FILE \<noteq> Some ?i"
    unfolding files_inv_def w by (metis no_hooks_simps(1) order_refl)
  ultimately show ?thesis using fi by (auto simp: files_inv_def M' w)
qed

lemma rmmod_step:
  assumes w: "w_create w = create" "w_remove w = remove" "w_look w = look" and fi: "files_inv w M"
  shows "files_inv w (rmmod w i M)"
proof (cases "live M i")
  case (Some pol)
  then have "i < insts M" using fi by (auto simp: files_inv_def) (metis not_le option.distinct(1))
  with fi Some show ?thesis
    by (auto simp: files_inv_def rmmod_def Let_def w remove_look dest: module_exit_file)
qed (use fi in \<open>simp add: rmmod_def\<close>)

lemma machine_step_left:
  assumes w: "w_create w = create" "w_remove w = remove" "w_look w = look"
    and fi: "files_inv w M" and s: "machine_step w e M = Inr M'"
  shows "files_inv w M' \<and> (\<forall>i h. left_over i h M \<longrightarrow> left_over i h M')"
proof (cases e)
  case (Insmod rq)
  with s insmod_step [OF w fi, of rq M'] show ?thesis by (auto simp: left_over_def)
next
  case (Rmmod j)
  with s rmmod_step [OF w fi, of j] show ?thesis
    by (auto simp: left_over_def rmmod_def Let_def split: option.splits)
next
  case (Handler j env ev)
  with s fi show ?thesis
    by (auto simp: files_inv_def left_over_def dest!: enter_Inr split: if_splits)
next
  case (ReadDebug alloc)
  with s fi show ?thesis
    by (auto simp: files_inv_def left_over_def dest!: enter_Inr split: option.splits)
next
  case (TimerFires j c)
  show ?thesis
  proof (cases "hk_timer (hks M j)")
    case True
    with s TimerFires obtain M1 b where M1: "enter j Inr M = Inr M1"
      "M' = M1\<lparr>hks := (hks M1)(j := (hks M1 j)\<lparr>hk_timer := b\<rparr>)\<rparr>"
      by (auto simp: res_map_eq_Inr)
    have "j < insts M" using True fi by (auto simp: files_inv_def) (metis no_hooks_simps(2) not_le)
    with enter_Inr [OF M1(1)] fi show ?thesis
      by (auto simp: files_inv_def left_over_def M1(2))
  qed (use s fi TimerFires in simp)
next
  case (TunerRuns j env)
  with s fi show ?thesis
    by (auto simp: files_inv_def left_over_def dest!: enter_Inr split: if_splits)
qed

lemma machine_run_left:
  assumes w: "w_create w = create" "w_remove w = remove" "w_look w = look"
    and "files_inv w M" and "run (machine_step w) es M = Inr M'"
  shows "files_inv w M' \<and> (\<forall>i h. left_over i h M \<longrightarrow> left_over i h M')"
  using assms(4,5)
proof (induction es arbitrary: M)
  case (Cons e es)
  then obtain M1 where "machine_step w e M = Inr M1" "run (machine_step w) es M1 = Inr M'"
    by (auto simp: res_bind_eq_Inr)
  with machine_step_left [OF w Cons.prems(1), of e M1] Cons.IH [of M1] show ?case by blast
qed simp

end

lemma booted_files: "w_look w d DEBUG_FILE = None \<Longrightarrow> files_inv w (booted d)"
  by (simp add: files_inv_def booted_def)

text \<open>A hook that is left over faults whenever it is used.\<close>

lemma left_over_faults:
  assumes "files_inv w M" and "left_over i h M"
  shows "hk_file h \<Longrightarrow> machine_step w (ReadDebug alloc) M = Inl UseAfterFree"
    and "hk_timer h \<Longrightarrow> machine_step w (TimerFires i c) M = Inl UseAfterFree"
    and "hk_tuner h \<Longrightarrow> machine_step w (TunerRuns i env) M = Inl UseAfterFree"
  using assms by (auto simp: left_over_def enter_def files_inv_def)

section \<open>Two modules\<close>

text \<open>
  The second of two FIFO modules never gets a file: \<open>fifo_debug\<close> shows the first one, and is gone with it.
\<close>

context module_system
begin

lemma debug_file_of_one:
  assumes inv: "machine_inv w M" and i: "hk_file (hks M i)" "live M i = Some pol" and ij: "j \<noteq> i"
  shows "\<not> hk_file (hks M j)" and "w_look w (dir (rmmod w i M)) DEBUG_FILE = None"
    and "live (rmmod w i M) j = live M j"
proof -
  note look = machine_invD(1) [OF inv]
  show "\<not> hk_file (hks M j)" using look [of i] look [of j] i(1) ij by simp
  have "module_exit pol (hks M i) = no_hooks" using machine_invD(3) [OF inv i(2)] by (simp add: module_exit_hooks)
  then show "w_look w (dir (rmmod w i M)) DEBUG_FILE = None"
    using i by (simp add: rmmod_def remove_look)
  show "live (rmmod w i M) j = live M j" using i(2) ij by (simp add: rmmod_def Let_def)
qed

end

section \<open>The properties\<close>

definition demo_platform :: "(string \<Rightarrow> nat option) platform" where
  "demo_platform = \<lparr>w_api = ref_api, w_cpus = [0, 2, 3], w_lost = plain_ref_lost,
     w_create = dir_create, w_remove = (\<lambda>n f. f(n := None)), w_look = (\<lambda>f. f)\<rparr>"

lemma demo_platform_sel [simp]:
  "w_api demo_platform = ref_api" "w_lost demo_platform = plain_ref_lost" "w_cpus demo_platform = [0, 2, 3]"
  "w_create demo_platform = dir_create" "w_remove demo_platform = (\<lambda>n f. f(n := None))"
  "w_look demo_platform = (\<lambda>f. f)"
  by (simp_all add: demo_platform_def)

interpretation demo: module_system demo_platform
  by (simp add: module_system_def ref.saakm_framework_axioms dir.procfs_axioms)

text \<open>The policies keep their invariants, and what the kernel holds belongs to a module in memory.\<close>

definition in_order :: "'f platform \<Rightarrow> 'f machine \<Rightarrow> bool" where
  "in_order w M \<longleftrightarrow> (\<forall>i pol. live M i = Some pol \<longrightarrow> pol_inv pol) \<and>
     (\<forall>i. w_look w (dir M) DEBUG_FILE = Some i \<or> hk_timer (hks M i) \<or> hk_tuner (hks M i) \<longrightarrow> live M i \<noteq> None)"

lemma machine_inv_in_order:
  assumes inv: "machine_inv w M"
  shows "in_order w M"
proof -
  have "live M i \<noteq> None"
    if "w_look w (dir M) DEBUG_FILE = Some i \<or> hk_timer (hks M i) \<or> hk_tuner (hks M i)" for i
    using that machine_invD(1) [OF inv, of i] machine_invD(2) [OF inv, of i] by (metis no_hooks_simps)
  with machine_invD(3) [OF inv] show ?thesis unfolding in_order_def by blast
qed


text \<open>Three modules, the second of them without a file; the first one is removed after a read.\<close>

definition modules_script :: "sys_event list" where
  "modules_script = [Insmod (InsBench fifo_demo True 0), Insmod (InsPlain plain_demo True 0),
     Insmod (InsCentral central_demo True 0), Handler 0 (demo_env True) (NewPrepare 7 0 (Some 100) 4),
     ReadDebug True, TimerFires 2 0, Rmmod 0, ReadDebug True]"

definition bench_up :: fifo_sys where
  "bench_up = fst (snd (fifo_mod_init ref_api [0, 2, 3] True 0 fifo_demo no_module))"

definition plain_up :: plain_sys where
  "plain_up = fst (snd (plain_mod_init ref_api [0, 2, 3] True 0 plain_demo no_module))"

definition central_up :: central_sys where
  "central_up = fst (snd (saakm_central_init ref_api [0, 2, 3] True 0 central_demo central_none))"

lemma demo_inits:
  "module_init ref_api [0, 2, 3] (InsBench fifo_demo True 0) = Inr (0, PBench bench_up, no_hooks\<lparr>hk_file := True\<rparr>)"
  "module_init ref_api [0, 2, 3] (InsPlain plain_demo True 0) = Inr (0, PPlain plain_up, no_hooks\<lparr>hk_file := True\<rparr>)"
  "module_init ref_api [0, 2, 3] (InsCentral central_demo True 0) =
     Inr (0, PCentral central_up, no_hooks\<lparr>hk_timer := True\<rparr>)"
  by (simp_all add: bench_up_def plain_up_def central_up_def fifo_mod_init_def plain_mod_init_def
      saakm_central_init_def Let_def no_module_def central_none_def)

lemma demo_requests:
  "fresh_request (InsBench fifo_demo True 0)" "fresh_request (InsPlain plain_demo True 0)"
  "fresh_request (InsCentral central_demo True 0)"
  using central_demo_fresh by (simp_all add: fifo_demo_def plain_demo_def)

lemma bench_up_state: "fifo_inv bench_up" "protocol (NewPrepare 7 0 (Some 100) 4) bench_up"
proof -
  have "fresh_kernel (kern fifo_demo)" by (simp add: fifo_demo_def)
  then show "fifo_inv bench_up" unfolding bench_up_def by (rule ref.fifo_init_inv)
  show "protocol (NewPrepare 7 0 (Some 100) 4) bench_up"
    by (simp add: bench_up_def fifo_mod_init_def fifo_init_core_def fifo_demo_def idle_kernel_def
        sys_defs ref_init_rq_def Let_def)
qed

lemma modules_script_runs:
  "admissible (machine_step demo_platform) (machine_protocol demo_platform) modules_script (booted (\<lambda>_. None))"
  "\<exists>M. run (machine_step demo_platform) modules_script (booted (\<lambda>_. None)) = Inr M"
proof -
  obtain x where x: "fifo_routines ref_api (NewPrepare 7 0 (Some 100) 4) bench_up = Inr x" "fifo_inv x"
    using ref.fifo.progress [OF bench_up_state] by blast
  obtain rs y where y: "fifo_full_debug_info [0, 2, 3] x = Inr (rs, y)"
    using debug_cpus_ok [of x] fifo_queued_object [OF x(2)] unfolding fifo_full_debug_info_def by blast
  show "admissible (machine_step demo_platform) (machine_protocol demo_platform) modules_script (booted (\<lambda>_. None))"
    and "\<exists>M. run (machine_step demo_platform) modules_script (booted (\<lambda>_. None)) = Inr M"
    using demo_requests demo_inits bench_up_state(2) x(1) y
    by (simp_all add: modules_script_def insmod_def rmmod_def booted_def enter_def dir_create_def Let_def
        fifo_exit_def
        del: module_init.simps fifo_routines.simps fresh_request.simps protocol.simps)
qed


text \<open>C23 A module whose policy \<open>ipanema_add_policy\<close> refuses is not kept in memory, but what its init
  function set up stays: from then on, whatever is inserted, removed or called, the kernel holds
  exactly that, the file of the four FIFO modules (if procfs created it when the module asked for it, that is
  with the name free), the timer of saakm_central or the thread of rusty_saakm. The name then leads to the
  module that is gone, and every read, every expiry and every step of the thread runs freed text.\<close>

theorem modules_refused_load_dangles:
  assumes sys: "module_system w" and boot: "w_look w d DEBUG_FILE = None"
    and run: "run (machine_step w) es (booted d) = Inr M"
    and load: "refused rq" "insmod w rq M = Inr M1" and later: "run (machine_step w) es' M1 = Inr M2"
  shows "live M2 (insts M) = None \<and> hks M2 (insts M) = hks M1 (insts M) \<and>
    (hk_timer (hks M1 (insts M)) \<longleftrightarrow> hk_timer (sets_up rq)) \<and>
    (hk_tuner (hks M1 (insts M)) \<longleftrightarrow> hk_tuner (sets_up rq)) \<and>
    (hk_file (hks M1 (insts M)) \<longleftrightarrow>
       hk_file (sets_up rq) \<and> fst (w_create w DEBUG_FILE (insts M) (dir M))) \<and>
    (hk_file (sets_up rq) \<and> fst (w_create w DEBUG_FILE (insts M) (dir M)) \<longrightarrow>
       w_look w (dir M2) DEBUG_FILE = Some (insts M) \<and>
       machine_step w (ReadDebug alloc) M2 = Inl UseAfterFree) \<and>
    (hk_timer (sets_up rq) \<longrightarrow> machine_step w (TimerFires (insts M) c) M2 = Inl UseAfterFree) \<and>
    (hk_tuner (sets_up rq) \<longrightarrow> machine_step w (TunerRuns (insts M) env) M2 = Inl UseAfterFree)"
proof -
  let ?i = "insts M" and ?h = "hks M1 (insts M)"
  have pf: "procfs (w_create w) (w_remove w) (w_look w)" and fw: "saakm_framework (w_api w)"
    using sys by (simp_all add: module_system_def)
  have fM: "files_inv w M"
    using procfs.machine_run_left [OF pf refl refl refl booted_files [OF boot] run] by simp
  obtain r pol where m: "module_init (w_api w) (w_cpus w) rq = Inr (r, pol, sets_up rq)" "r < 0"
    using refused_init [OF fw load(1)] by blast
  have f1: "files_inv w M1" "insts M1 = Suc ?i"
    using procfs.insmod_step [OF pf refl refl refl fM load(2)] by simp_all
  have M1: "live M1 ?i = None" "hk_timer ?h = hk_timer (sets_up rq)" "hk_tuner ?h = hk_tuner (sets_up rq)"
    "hk_file ?h \<longleftrightarrow> hk_file (sets_up rq) \<and> fst (w_create w DEBUG_FILE ?i (dir M))"
    using load(2) m by (auto simp: insmod_def Let_def split: prod.splits if_splits)
  then have "left_over ?i ?h M1" using f1(2) by (simp add: left_over_def)
  with procfs.machine_run_left [OF pf refl refl refl f1(1) later]
  have l: "files_inv w M2" "left_over ?i ?h M2" by simp_all
  have "hk_file ?h \<Longrightarrow> w_look w (dir M2) DEBUG_FILE = Some ?i"
    using l unfolding files_inv_def left_over_def by metis
  with left_over_faults [OF l] M1 l(2) show ?thesis by (simp add: left_over_def)
qed

text \<open>The policy of fifo_benchs is refused, then global_fifo is inserted: its file is not created.\<close>

theorem modules_refused_load_dangles_witness:
  "\<exists>M2. run (machine_step demo_platform)
      [Insmod (InsBench fifo_demo True (- 17)), Insmod (InsGlobal gfifo_demo True True 0)] (booted (\<lambda>_. None)) = Inr M2 \<and>
    live M2 0 = None \<and> live M2 1 \<noteq> None \<and> dir M2 DEBUG_FILE = Some 0 \<and>
    machine_step demo_platform (ReadDebug True) M2 = Inl UseAfterFree"
proof -
  let ?rq = "InsBench fifo_demo True (- 17)" and ?b = "booted (\<lambda>_. None)"
  obtain M1 where M1: "insmod demo_platform ?rq ?b = Inr M1" "live M1 = (\<lambda>_. None)" "insts M1 = 1"
    by (auto simp: insmod_def booted_def fifo_mod_init_def no_module_def dir_create_def Let_def)
  obtain M2 where M2: "insmod demo_platform (InsGlobal gfifo_demo True True 0) M1 = Inr M2" "live M2 1 \<noteq> None"
    using M1(2,3) by (auto simp: insmod_def gfifo_mod_init_def Let_def split_beta)
  have "fst (dir_create DEBUG_FILE 0 (\<lambda>_. None))" by (simp add: dir_create_def)
  with modules_refused_load_dangles [OF demo.module_system_axioms, of "\<lambda>_. None" "[]" ?b ?rq M1
      "[Insmod (InsGlobal gfifo_demo True True 0)]" M2 True] M1 M2
  have "live M2 0 = None \<and> dir M2 DEBUG_FILE = Some 0 \<and>
    machine_step demo_platform (ReadDebug True) M2 = Inl UseAfterFree"
    by (simp add: booted_def del: machine_step.simps(4))
  with M1(1) M2 show ?thesis by (simp del: machine_step.simps(4))
qed

end
