(* ===== verification/TestModules.thy ===== *)
theory TestModules
  imports Saakm
begin

text \<open>
  The small modules beside the policies: modules/cpumasks, which tries out cpumasks,
  modules/test_oh_lock, which measures a spinlock without contention, modules/discover_topology,
  and code/test_sleep. What they compute, lock and report; of the kernel's log only the values.
\<close>

section \<open>cpumasks\<close>

text \<open>A line of the log: the bits of the mask, a core, or one of its siblings.\<close>

datatype mask_line = Mask cpumask | Core cpu | Sibling cpu

text \<open>\<open>for_each_cpu\<close> visits a mask in ascending order; \<open>for_each_possible_cpu\<close> the list \<open>possible_cpus\<close>.\<close>

definition sibling_lines :: "kapi \<Rightarrow> cpu list \<Rightarrow> mask_line list" where
  "sibling_lines api possible_cpus =
     concat (map (\<lambda>core. Core core # map Sibling (sorted_list_of_fset (cpu_smt_mask api core))) possible_cpus)"

text \<open>
  \<open>alloc\<close>: what the memory that \<open>kmalloc\<close> returned holds, \<open>None\<close> if it failed. The third part of
  the result: the mask that stays allocated.
\<close>

definition cpumasks_mod_init ::
    "kapi \<Rightarrow> cpu list \<Rightarrow> cpumask option \<Rightarrow> int \<times> mask_line list \<times> cpumask option" where
  "cpumasks_mod_init api possible_cpus alloc =
     (case alloc of
        None \<Rightarrow> (- ENOMEM, [], None)
      | Some garbage \<Rightarrow>
          let mask = {||};
              mask4 = fold cpumask_set_cpu [0..<4] mask
          in (0, [Mask garbage, Mask mask, Mask mask4, Mask mask4, Mask mask4] @
                 sibling_lines api possible_cpus, Some mask4))"

lemma first_four_bits: "fold cpumask_set_cpu [0..<4] {||} = {|0, 1, 2, 3|}"
  by (rule fset_eqI) (auto simp: upt_rec)

text \<open>
  The module reports what it says, and before it clears the mask also what the uninitialised memory held;
  the mask is never freed.
\<close>

lemma cpumasks_report:
  "cpumasks_mod_init api cpus (Some garbage) =
     (0, [Mask garbage, Mask {||}, Mask {|0, 1, 2, 3|}, Mask {|0, 1, 2, 3|}, Mask {|0, 1, 2, 3|}] @
       sibling_lines api cpus, Some {|0, 1, 2, 3|})"
  by (simp add: cpumasks_mod_init_def Let_def first_four_bits [simplified])

lemma cpumasks_siblings: "Sibling d \<in> set (sibling_lines api cpus) \<longleftrightarrow> (\<exists>c \<in> set cpus. d |\<in>| cpu_smt_mask api c)"
  by (auto simp: sibling_lines_def)

section \<open>test_oh_lock\<close>

text \<open>
  The two loops: \<open>rd i\<close> is what the \<open>i\<close>-th call of \<open>get_random_u32\<close> gave. The sum wraps. The second
  loop makes its turns between a lock and an unlock.
\<close>

fun random_loop :: "(nat \<Rightarrow> u32) \<Rightarrow> nat \<Rightarrow> nat \<Rightarrow> u32 \<Rightarrow> u32" where
  "random_loop rd i 0 tmp = tmp"
| "random_loop rd i (Suc n) tmp = random_loop rd (Suc i) n (tmp + rd i mod 1000)"

fun locked_loop :: "lock \<Rightarrow> (nat \<Rightarrow> u32) \<Rightarrow> nat \<Rightarrow> nat \<Rightarrow> u32 \<Rightarrow> u32 \<times> kcall list" where
  "locked_loop l rd i 0 tmp = (tmp, [])"
| "locked_loop l rd i (Suc n) tmp =
     (let (tmp', calls) = locked_loop l rd (Suc i) n (tmp + rd i mod 1000)
      in (tmp', Acquire l # Release l # calls))"

definition nr_loops :: nat where
  "nr_loops = 100000000"

text \<open>
  \<open>clock\<close>: the four readings of \<open>ktime_get_ns\<close>. The result: the return value, the two times in
  milliseconds and the calls of the lock, which is a local variable.
\<close>

definition ktime_to_ms :: "u64 \<Rightarrow> int" where
  "ktime_to_ms ns = sint ns div 1000000"

definition test_lock_init :: "(nat \<Rightarrow> u32) \<Rightarrow> u64 \<times> u64 \<times> u64 \<times> u64 \<Rightarrow> int \<times> (int \<times> int) \<times> kcall list" where
  "test_lock_init rd clock =
     (case clock of (t0, t1, t2, t3) \<Rightarrow>
        let tmp1 = random_loop rd 0 nr_loops 0;
            (tmp2, calls) = locked_loop ModuleLock rd nr_loops nr_loops 0
        in (0, (ktime_to_ms (t1 - t0), ktime_to_ms (t3 - t2)), calls))"

lemma locked_loop_same: "fst (locked_loop l rd i n tmp) = random_loop rd i n tmp"
  by (induction n arbitrary: i tmp) (simp_all add: case_prod_beta)

lemma random_loop_sum: "random_loop rd i n tmp = tmp + (\<Sum>k < n. rd (i + k) mod 1000)"
  by (induction n arbitrary: i tmp) (simp_all add: sum.lessThan_Suc_shift algebra_simps del: sum.lessThan_Suc)

text \<open>Every turn takes the lock and gives it back: it is never taken twice and free at the end.\<close>

lemma locked_loop_balanced:
  "lock_run [] (snd (locked_loop l rd i n tmp)) = Some [] \<and> length (snd (locked_loop l rd i n tmp)) = 2 * n"
  by (induction n arbitrary: i tmp) (simp_all add: case_prod_beta)

lemma test_lock_calls:
  "case test_lock_init rd clock of (r, ms, calls) \<Rightarrow>
     r = 0 \<and> lock_run [] calls = Some [] \<and> length calls = 200000000"
  using locked_loop_balanced [of ModuleLock rd nr_loops nr_loops 0]
  by (auto simp: test_lock_init_def Let_def nr_loops_def split: prod.splits)

section \<open>discover_topology and test_sleep\<close>

text \<open>
  The init function of the module calls \<open>sched_get_rd\<close>, which is not in the repository, and ends
  without a return: the value the kernel tests was never written.
\<close>

definition topology_init :: "(unit \<Rightarrow> unit) \<Rightarrow> int res" where
  "topology_init sched_get_rd = (let _ = sched_get_rd () in Inl UninitRead)"

datatype sleep_act = Print string | Sleep nat

definition test_sleep_main :: "sleep_act list \<times> int" where
  "test_sleep_main = ([Print ''Before sleep'', Sleep 1, Print ''After sleep''], 0)"

end
