(* ===== verification/Scx_Loader.thy ===== *)
theory Scx_Loader
  imports Scx_Props
begin

text \<open>
  The loader scx_scheds/fifo/scx_simple.c around the skeleton: the loop that prints the counters once a
  second until a signal or the exit of the scheduler ends it, and the restart.
\<close>

section \<open>Signals and messages\<close>

datatype libbpf_print_level = LIBBPF_WARN | LIBBPF_INFO | LIBBPF_DEBUG

text \<open>Whether a message of libbpf is printed.\<close>

definition libbpf_print_fn :: "libbpf_print_level \<Rightarrow> bool \<Rightarrow> bool" where
  "libbpf_print_fn level verbose \<longleftrightarrow> \<not> (level = LIBBPF_DEBUG \<and> \<not> verbose)"

text \<open>The new value of \<open>exit_req\<close>; nothing sets it back.\<close>

definition sigint_handler :: "bool \<Rightarrow> bool" where
  "sigint_handler exit_req = True"

section \<open>The loop\<close>

text \<open>
  What the loop meets in one turn: a signal that came since the turn before, whether the scheduler has
  exited, and the counters.
\<close>

record poll =
  pl_signal :: bool
  pl_exited :: bool
  pl_lookup_ok :: "u32 \<Rightarrow> bool"
  pl_counts :: "scpu \<Rightarrow> u32 \<Rightarrow> u64"

text \<open>The lines printed and, if the loop ended, \<open>exit_req\<close>; \<open>None\<close> while it still runs.\<close>

fun stats_loop :: "nat \<Rightarrow> bool \<Rightarrow> poll list \<Rightarrow> (u64 \<times> u64) list \<times> bool option" where
  "stats_loop nr_cpus exit_req [] = ([], None)"
| "stats_loop nr_cpus exit_req (pl # pls) =
     (let exit_req = (if pl_signal pl then sigint_handler exit_req else exit_req)
      in if \<not> exit_req \<and> \<not> pl_exited pl then
           let (out, r) = stats_loop nr_cpus exit_req pls
           in (read_stats nr_cpus (pl_lookup_ok pl) (pl_counts pl) # out, r)
         else ([], Some exit_req))"

text \<open>
  \<open>main\<close>: every attachment of the scheduler comes with the turns of its loop and whether its exit code
  asks for a restart. The result: the skeletons attached with what was printed for each, and the
  exit status, \<open>None\<close> while the loader runs.
\<close>

fun loader_main ::
    "nat \<Rightarrow> char list \<Rightarrow> bool \<Rightarrow> bool \<Rightarrow> (poll list \<times> bool) list \<Rightarrow>
     (scx_skel \<times> (u64 \<times> u64) list) list \<times> int option" where
  "loader_main nr_cpus opts verbose exit_req [] = ([], None)"
| "loader_main nr_cpus opts verbose exit_req ((pls, restart) # atts) =
     (case parse_opts opts (open_skel, verbose) of
        Inl r \<Rightarrow> ([], Some r)
      | Inr (skel, verbose1) \<Rightarrow>
          let skel1 = skel\<lparr>sk_switch_partial := True\<rparr>
          in case stats_loop nr_cpus exit_req pls of
               (out, None) \<Rightarrow> ([(skel1, out)], None)
             | (out, Some exit_req1) \<Rightarrow>
                 if restart then
                   (let (rest, r) = loader_main nr_cpus [] verbose1 exit_req1 atts in ((skel1, out) # rest, r))
                 else ([(skel1, out)], Some 0))"

section \<open>What it prints\<close>

text \<open>The turns before the first one that meets a signal or the exit of the scheduler.\<close>

definition quiet_poll :: "poll \<Rightarrow> bool" where
  "quiet_poll pl \<longleftrightarrow> \<not> pl_signal pl \<and> \<not> pl_exited pl"

lemma stats_loop_prints:
  "stats_loop nr False pls =
     (map (\<lambda>pl. read_stats nr (pl_lookup_ok pl) (pl_counts pl)) (takeWhile quiet_poll pls),
      (case dropWhile quiet_poll pls of [] \<Rightarrow> None | pl # _ \<Rightarrow> Some (pl_signal pl)))"
  by (induction pls) (auto simp: Let_def quiet_poll_def sigint_handler_def)

text \<open>After a signal no attachment prints anything.\<close>

lemma stats_loop_signalled: "stats_loop nr True pls = ([], if pls = [] then None else Some True)"
  by (cases pls) (auto simp: Let_def sigint_handler_def)

lemma loader_signalled:
  "list_all (\<lambda>(sk, out). out = []) (fst (loader_main nr opts verbose True atts))"
proof (induction atts arbitrary: opts verbose)
  case Nil
  then show ?case by simp
next
  case (Cons a atts)
  obtain pls restart where a: "a = (pls, restart)" by fastforce
  show ?case
    using Cons.IH
    by (auto simp: a stats_loop_signalled case_prod_beta Let_def split: sum.split option.split if_splits)
qed

text \<open>A loader whose loops all end attaches the skeletons that \<open>scx_main\<close> says, with its exit status.\<close>

lemma loader_attaches:
  assumes "list_all (\<lambda>(pls, restart). snd (stats_loop nr False pls) = Some False) atts"
    and "atts \<noteq> []" and "\<not> snd (last atts)"
  shows "map fst (fst (loader_main nr opts verbose False atts)) = fst (scx_main opts verbose (map snd atts)) \<and>
    snd (loader_main nr opts verbose False atts) = Some (snd (scx_main opts verbose (map snd atts)))"
  using assms
proof (induction atts arbitrary: opts verbose)
  case Nil
  then show ?case by simp
next
  case (Cons a atts)
  obtain pls restart where a: "a = (pls, restart)" by fastforce
  obtain out where out: "stats_loop nr False pls = (out, Some False)"
    using Cons.prems(1) by (cases "stats_loop nr False pls") (auto simp: a)
  show ?case
  proof (cases restart)
    case True
    with Cons.prems a have "atts \<noteq> []" by auto
    with Cons.prems have IH: "map fst (fst (loader_main nr [] v False atts)) = fst (scx_main [] v (map snd atts)) \<and>
        snd (loader_main nr [] v False atts) = Some (snd (scx_main [] v (map snd atts)))" for v
      by (intro Cons.IH) simp_all
    with True show ?thesis by (auto simp: a out case_prod_beta Let_def split: sum.split)
  qed (auto simp: a out Let_def split: sum.split)
qed

text \<open>
  What a poll prints is exact: with the counters that the callbacks wrote, 0 and the number of threads
  enqueued so far.
\<close>

lemma loader_prints_exact:
  assumes "\<And>pl. pl \<in> set pls \<Longrightarrow> \<exists>es. pl_lookup_ok pl = (\<lambda>_. True) \<and>
      pl_counts pl = scx_stats (fold (simple_ops api consume) es s) \<and>
      list_all (\<lambda>e. case e of Enqueue cpu p fl \<Rightarrow> cpu < nr | _ \<Rightarrow> True) es"
    and "scx_stats s = (\<lambda>_ _. 0)"
  shows "list_all (\<lambda>(local, global). local = 0) (fst (stats_loop nr False pls))"
proof -
  have "fst (read_stats nr (pl_lookup_ok pl) (pl_counts pl)) = 0" if pl: "pl \<in> set pls" for pl
  proof -
    from assms(1) [OF pl] obtain es where es: "pl_lookup_ok pl = (\<lambda>_. True)"
      "pl_counts pl = scx_stats (fold (simple_ops api consume) es s)"
      "list_all (\<lambda>e. case e of Enqueue cpu p fl \<Rightarrow> cpu < nr | _ \<Rightarrow> True) es" by blast
    from stats_run [OF es(3), of api consume s] es(1,2) assms(2) show ?thesis
      by (simp add: read_stats_def read_stat_sum)
  qed
  then show ?thesis
    by (auto simp: stats_loop_prints list_all_iff case_prod_beta dest: set_takeWhileD)
qed

end
