(* ===== verification/Scx_Race.thy ===== *)
theory Scx_Race
  imports Scx_Props
begin

text \<open>
  \<open>simple_running\<close> of modules/rusty_saakm/scx_simple.bpf.c on several cpus at once. Its comment says that the test
  and the update of \<open>vtime_now\<close> race, and that the error is contained and temporary: here they are two
  steps, and the theorem says in which sense that is so.
\<close>

section \<open>The steps\<close>

datatype running_pc = TestVtime | WriteVtime | Ran

text \<open>The thread \<open>p\<close> starts to run; nothing else writes its virtual time meanwhile.\<close>

fun running_section :: "'d scx_api \<Rightarrow> stask \<Rightarrow> running_pc \<Rightarrow> 'd scx_sys \<Rightarrow> running_pc \<times> 'd scx_sys" where
  "running_section api p TestVtime s =
     (if fifo_sched s then (Ran, s)
      else if time_before api (vtime_now s) (dsq_vtime (tasks s p)) then (WriteVtime, s) else (Ran, s))"
| "running_section api p WriteVtime s = (Ran, s\<lparr>vtime_now := dsq_vtime (tasks s p)\<rparr>)"
| "running_section api p Ran s = (Ran, s)"

text \<open>Thread \<open>cur c\<close> starts on cpu \<open>c\<close>; a schedule is the list of the cpus that make a step.\<close>

fun running_step ::
    "'d scx_api \<Rightarrow> (scpu \<Rightarrow> stask) \<Rightarrow> scpu \<Rightarrow> (scpu \<Rightarrow> running_pc) \<times> 'd scx_sys \<Rightarrow> (scpu \<Rightarrow> running_pc) \<times> 'd scx_sys"
  where
  "running_step api cur c (pc, s) = (let (q, t) = running_section api (cur c) (pc c) s in (pc(c := q), t))"

definition running_race ::
    "'d scx_api \<Rightarrow> (scpu \<Rightarrow> stask) \<Rightarrow> scpu list \<Rightarrow> (scpu \<Rightarrow> running_pc) \<times> 'd scx_sys \<Rightarrow> (scpu \<Rightarrow> running_pc) \<times> 'd scx_sys"
  where
  "running_race api cur cs x = fold (running_step api cur) cs x"

lemma running_race_simps [simp]:
  "running_race api cur [] x = x"
  "running_race api cur (cs @ cs') x = running_race api cur cs' (running_race api cur cs x)"
  "running_race api cur (c # cs) x = running_race api cur cs (running_step api cur c x)"
  by (simp_all add: running_race_def)

text \<open>Both steps of a cpu, one after the other, are the callback.\<close>

lemma running_undisturbed:
  assumes "pc c = TestVtime"
  shows "running_race api cur [c, c] (pc, s) = (pc(c := Ran), simple_running api (cur c) s)"
  using assms by (auto simp: simple_running_def)

section \<open>What a race can do\<close>

text \<open>
  Only \<open>vtime_now\<close> changes; it is the old value or the time of a thread that started, never behind the old
  value; and a cpu is about to write a time that is ahead of the old value.
\<close>

definition race_ok ::
    "u64 \<Rightarrow> (scpu \<Rightarrow> stask) \<Rightarrow> scpu set \<Rightarrow> 'd scx_sys \<Rightarrow> (scpu \<Rightarrow> running_pc) \<times> 'd scx_sys \<Rightarrow> bool" where
  "race_ok base cur C s x \<longleftrightarrow> snd x = s\<lparr>vtime_now := vtime_now (snd x)\<rparr> \<and>
     ahead base (vtime_now s) \<le> ahead base (vtime_now (snd x)) \<and>
     (vtime_now (snd x) = vtime_now s \<or> (\<exists>c\<in>C. vtime_now (snd x) = dsq_vtime (tasks s (cur c)))) \<and>
     (\<forall>c. fst x c = WriteVtime \<longrightarrow> ahead base (vtime_now s) < ahead base (dsq_vtime (tasks s (cur c))))"

lemma race_step_ok:
  assumes before: "\<And>a b. time_before api a b \<longleftrightarrow> sint (a - b) < 0" and mode: "\<not> fifo_sched s"
    and win: "within base (vtime_now s)" "\<And>c. within base (dsq_vtime (tasks s (cur c)))"
    and x: "race_ok base cur C s x"
  shows "race_ok base cur (insert c C) s (running_step api cur c x)"
proof -
  obtain pc t where [simp]: "x = (pc, t)" by (cases x)
  from x obtain v where t: "t = s\<lparr>vtime_now := v\<rparr>" by (auto simp: race_ok_def)
  then have tt: "tasks t = tasks s" "fifo_sched t = fifo_sched s" by simp_all
  have wt: "within base (vtime_now t)" using x win by (auto simp: race_ok_def)
  show ?thesis
  proof (cases "pc c")
    case TestVtime
    have "time_before api (vtime_now t) (dsq_vtime (tasks s (cur c))) \<Longrightarrow>
        ahead base (vtime_now t) < ahead base (dsq_vtime (tasks s (cur c)))"
      using window_before [OF wt win(2)] by (simp add: before)
    with x TestVtime mode show ?thesis by (auto simp: race_ok_def tt)
  next
    case WriteVtime
    with x have "ahead base (vtime_now s) < ahead base (dsq_vtime (tasks s (cur c)))" by (simp add: race_ok_def)
    moreover have "t\<lparr>vtime_now := v\<rparr> = s\<lparr>vtime_now := v\<rparr>" for v by (simp add: t)
    ultimately show ?thesis using x WriteVtime by (auto simp: race_ok_def tt)
  next
    case Ran
    then have "running_step api cur c x = x" by (simp add: fun_upd_idem)
    with x show ?thesis by (auto simp: race_ok_def)
  qed
qed

lemma race_run_ok:
  assumes "\<And>a b. time_before api a b \<longleftrightarrow> sint (a - b) < 0" and "\<not> fifo_sched s"
    and "within base (vtime_now s)" and "\<And>c. within base (dsq_vtime (tasks s (cur c)))"
    and "race_ok base cur C s x"
  shows "race_ok base cur (C \<union> set cs) s (running_race api cur cs x)"
  using assms(5)
proof (induction cs arbitrary: C x)
  case (Cons c cs)
  from Cons.IH [OF race_step_ok [where api = api and c = c, OF assms(1-4) Cons.prems]] show ?case by simp
qed simp

text \<open>The clock can go back: a cpu that tested early writes late.\<close>

definition two_starts :: "ref_dsqs scx_sys" where
  "two_starts = (scx_demo False)\<lparr>vtime_now := 0, tasks := (\<lambda>p. \<lparr>t_pid = of_nat p, dsq_vtime = of_nat p, t_slice = 0, t_weight = 100\<rparr>)\<rparr>"

lemma scx_vtime_goes_back:
  "vtime_now (snd (running_race ref_scx (\<lambda>c. 10 - c) [0, 5, 0] (\<lambda>_. TestVtime, two_starts))) = 10"
  "vtime_now (snd (running_race ref_scx (\<lambda>c. 10 - c) [0, 5, 0, 5] (\<lambda>_. TestVtime, two_starts))) = 5"
  by (simp_all add: two_starts_def scx_demo_def ref_scx_def ref_before_def)

section \<open>The property\<close>

text \<open>C32 The race of \<open>simple_running\<close> (scx_simple.bpf.c) is contained and temporary: whatever the order in which
  cpus test and write \<open>vtime_now\<close>, it never falls behind the value it had before all of them, it is
  that value or the virtual time of one of the threads, nothing else changes; and the next cpu that
  does both steps undisturbed sets it to the larger of its value and the thread's time.\<close>

theorem scx_vtime_race_contained:
  assumes fw: "scx_framework api local_q shared_q cpu_of consume" and mode: "\<not> fifo_sched s"
    and win: "within base (vtime_now s)" "\<And>c. within base (dsq_vtime (tasks s (cur c)))"
    and run: "running_race api cur cs (\<lambda>_. TestVtime, s) = (pc, t)"
  shows "t = s\<lparr>vtime_now := vtime_now t\<rparr> \<and> ahead base (vtime_now s) \<le> ahead base (vtime_now t) \<and>
    (vtime_now t = vtime_now s \<or> (\<exists>c\<in>set cs. vtime_now t = dsq_vtime (tasks s (cur c)))) \<and>
    (\<forall>c. pc c = TestVtime \<longrightarrow> ahead base (vtime_now (snd (running_race api cur [c, c] (pc, t)))) =
      max (ahead base (vtime_now t)) (ahead base (dsq_vtime (tasks s (cur c)))))"
proof -
  have before: "time_before api a b \<longleftrightarrow> sint (a - b) < 0" for a b
    by (rule scx_framework.time_before [OF fw])
  have "race_ok base cur {} s (\<lambda>_. TestVtime, s)" by (simp add: race_ok_def)
  from race_run_ok [OF before mode win this, of cs] run
  have ok: "race_ok base cur (set cs) s (pc, t)" by simp
  then obtain v where t: "t = s\<lparr>vtime_now := v\<rparr>" by (auto simp: race_ok_def)
  then have tt: "tasks t = tasks s" "fifo_sched t = fifo_sched s" by simp_all
  have wt: "within base (vtime_now t)" using ok win by (auto simp: race_ok_def)
  have "ahead base (vtime_now (simple_running api (cur c) t)) =
      max (ahead base (vtime_now t)) (ahead base (dsq_vtime (tasks s (cur c))))" for c
    using window_before [OF wt win(2), of c] mode by (auto simp: simple_running_def before tt)
  with ok show ?thesis by (simp add: race_ok_def running_undisturbed del: running_race_simps(3))
qed

text \<open>The race of \<open>scx_vtime_goes_back\<close>: a third cpu heals it.\<close>

theorem scx_vtime_race_contained_witness:
  "vtime_now (snd (running_race ref_scx (\<lambda>c. 10 - c) [0, 5, 0, 5, 2, 2] (\<lambda>_. TestVtime, two_starts))) = 8"
proof -
  let ?cur = "\<lambda>c :: nat. 10 - c" and ?cs = "[0, 5, 0, 5]"
  obtain pc t where r: "running_race ref_scx ?cur ?cs (\<lambda>_. TestVtime, two_starts) = (pc, t)" by fastforce
  have w: "within 0 (vtime_now two_starts)" "within 0 (dsq_vtime (tasks two_starts (?cur c)))" for c
  proof -
    show "within 0 (vtime_now two_starts)" by (simp add: within_def ahead_def two_starts_def scx_demo_def)
    have "unat (of_nat (10 - c) :: u64) = 10 - c" by (simp add: unat_of_nat)
    then show "within 0 (dsq_vtime (tasks two_starts (?cur c)))"
      by (simp add: within_def ahead_def two_starts_def)
  qed
  have m: "\<not> fifo_sched two_starts" by (simp add: two_starts_def scx_demo_def)
  have p: "pc 2 = TestVtime" and v: "vtime_now t = 5"
    using r scx_vtime_goes_back(2) by (auto simp: two_starts_def scx_demo_def ref_scx_def ref_before_def)
  from scx_vtime_race_contained [OF ref_scx.scx_framework_axioms m w r]
  have "\<forall>c. pc c = TestVtime \<longrightarrow> ahead 0 (vtime_now (snd (running_race ref_scx ?cur [c, c] (pc, t)))) =
      max (ahead 0 (vtime_now t)) (ahead 0 (dsq_vtime (tasks two_starts (?cur c))))"
    by blast
  from spec [OF this, of 2] p v
  have "ahead 0 (vtime_now (snd (running_race ref_scx ?cur [2, 2] (pc, t)))) = ahead 0 8"
    by (simp add: two_starts_def ahead_def del: running_race_simps(3))
  then have "vtime_now (snd (running_race ref_scx ?cur [2, 2] (pc, t))) = 8"
    by (simp add: ahead_def word_unat_eq_iff del: running_race_simps(3))
  moreover have "running_race ref_scx ?cur [0, 5, 0, 5, 2, 2] (\<lambda>_. TestVtime, two_starts) =
      running_race ref_scx ?cur [2, 2] (pc, t)"
    using r running_race_simps(2) [of ref_scx ?cur ?cs "[2, 2]"] by (metis append_Cons append_Nil)
  ultimately show ?thesis by simp
qed

end
