(* ===== verification/Spec2Isabelle.thy ===== *)
theory Spec2Isabelle
  imports Fifo_Props GlobalFifo_Props OneQueue_Props Central_Props Rusty_Props Scx_Props
    FifoPlain_Props Launch_Props SchedApi_Props Debug_Props Stress
    GlobalFifo_Conc_Props Locks_Props Rusty_Race_Props Modules_Props TestModules Scx_Loader Scx_Race
begin

text \<open>
  Verification of the SaaKM scheduling policies and of the programs around them.

  The program. SaaKM (formerly Ipanema) is a framework in a patched Linux kernel that lets a module
  decide when and where threads run. The framework is not in this repository; the policies are, under
  modules/: each is a table of handlers (\<open>ipanema_module_routines\<close>) that the framework calls when
  a thread is created, placed, ticks, yields, blocks, wakes up or terminates, when a core schedules and
  when a core appears, leaves or goes idle. Handlers read and write objects of their own (one per thread,
  one per core, some global masks) and call back, above all \<open>change_state\<close>, which moves a thread between
  states and runqueues. Beside them are a sched_ext scheduler (scx_scheds/fifo and a copy in
  modules/rusty_saakm) with its loader, and user programs under code/.

  How the code is modelled. A handler is a function from the state of the policy to a new state, or
  to a fault (\<open>Prelude.fault\<close>: null dereference, use after free, uninitialised read, division by
  zero, out of bounds, signed overflow, a loop without end). The state (\<open>Saakm.sys\<close>, extended by the globals
  of a module) has the kernel's view of the threads, the per-cpu structures, the objects that \<open>kzalloc\<close>
  returned by address (freed ones are absent, so a use after free is a fault) and the trace of the calls
  and locks. Integers that can wrap are words; cpumasks are finite sets of cpu numbers. What the kernel
  supplies to a handler (the clock, an address from \<open>kzalloc\<close> or its failure, flags, the number of
  online cpus) is an argument of the event. The framework's functions are a record of parameters, \<open>kapi\<close>.

  Interfaces.
  \<^item> \<open>saakm_framework\<close> (theory Saakm): what docs/ and papiers/ promise of the framework's functions;
    interpreted on an executable framework, \<open>ref_api\<close>, on which all concrete runs are evaluated.
  \<^item> \<open>saakm_policy\<close>, \<open>guarded_policy\<close>, \<open>refining_policy\<close> (Saakm): what a policy owes the framework
    (every handler returns and keeps the invariant; locks are given back and guard a runqueue; every handler
    is a step of an abstract scheduler) and, proved once, what follows for runs of any length. Each
    policy is a sublocale of \<open>saakm_framework\<close> for those that apply to it, and is interpreted on \<open>ref_api\<close>.
  \<^item> \<open>scx_framework\<close> (Scx_Correct): the documented dispatch queues of sched_ext; \<open>scx_errors\<close> extends it by what the
    kernel does with a thread for a queue that does not exist: it reports an error, which ejects the
    scheduler, and puts the thread on its global queue.
  \<^item> \<open>thread_pool\<close> (SchedApi_Props): a thread body that keeps to its own entry.
  \<^item> \<open>ranked_programs\<close> (Locks): programs that take their locks in the order \<open><\<close> of the locks and give them back;
    \<open>policy_programs\<close>: the same for calls made under task and core locks of the framework; interpreted
    on the handlers of the two shared-queue modules and the readers of the procfs files (Locks_Props).
  \<^item> \<open>procfs\<close> (Modules): creating, finding and removing a file; interpreted on a map. \<open>module_system\<close>
    (Modules_Correct) joins it with the framework, and is interpreted on the executable ones.

  Theories and code.
  \<^item> Prelude: results, faults, words, masks. Saakm: the framework, policy states, runs and traces.
    Policy_Inv, Shared_Inv: the invariants the policies with per-core, and with shared runqueues have in
    common; Policy_Inv also has the calling \<open>protocol\<close>, when the framework delivers which event.
    Fifo_Spec, Shared_Spec: the abstract schedulers that the policies refine.
  \<^item> Fifo, Fifo_Correct, Fifo_Refine, Fifo_Props: modules/fifo_benchs/fifo.c (modules/saakm_central/fifo.c is
    the same file). No handler faults, the objects agree with the framework, the runqueues are FIFO queues,
    a round serves every thread; how the quantum is charged, what loading does.
  \<^item> FifoPlain, FifoPlain_Correct, FifoPlain_Props: modules/fifo/fifo.c. Four lines of it are damaged: what they
    did is the parameter \<open>plain_lost\<close>. Whatever it is, if the missing functions return and leave the threads
    alone (\<open>plain_en\<close>), runs do not fault and the runqueues are FIFO queues; when the quantum ends.
  \<^item> GlobalFifo, GlobalFifo_Correct, GlobalFifo_Refine, GlobalFifo_Props: modules/global_fifo. No fault, no thread
    is lost, the shared runqueue is a FIFO queue, its lock; a core that goes idle gets work; what starves.
  \<^item> GlobalFifo_Conc, GlobalFifo_Conc_Props: the same module where \<open>fifo_newly_idle\<close> runs in sections, between which
    handlers run on other cpus. The invariant and the FIFO order with threads in the hands of several cpus; no
    thread is lost when the cpus leave their sections.
  \<^item> Locks, Locks_Props: the spinlocks in small steps of several cpus, waiting included, also of calls made while
    the framework holds locks of tasks and cores. No deadlock.
  \<^item> OneQueue and its companions: modules/fifo_one_queue. The same, with the one fault its handlers have.
  \<^item> Central and its companions: modules/saakm_central/saakm_central.c. All threads stay on cpu 0; the one
    fault; the idle masks; the timer.
  \<^item> Rusty_State, Rusty_Pick, Rusty_Tuner, Rusty (definitions), Rusty_Correct, Rusty_Select, Rusty_Domain,
    Rusty_Init, Rusty_Props: modules/rusty_saakm/rusty_saakm.c. Its faults (\<open>must_fault\<close>, \<open>may_faults\<close>: a core
    exit, no memory for masks, masks that do not fit); FIFO order per core; the loop that claims an idle cpu ends; the range of the chosen cpu; the domains of a thread; the tuner; the tick; loading
    partitions the cpus into domains. Steps of the tuner thread are events between the handlers.
  \<^item> Rusty_Race, Rusty_Race_Props: calls of \<open>pick_idle_cpu\<close> that run at the same time, one step per access to an
    idle mask. A cpu is claimed once; without SMT the calls return; with SMT they may retry for ever, since
    \<open>cpumask_andnot\<close> is a read and a write.
  \<^item> Modules, Modules_Correct, Modules_Props: all policies in one kernel, loaded, unloaded and run in any order, with what
    the kernel keeps of each, its procfs file, timer and thread. While no policy is refused the only faults are
    those each module has on its own (\<open>machine_faults\<close>); what a refused one leaves dangles for ever.
  \<^item> Debug, Debug_Props: the procfs files of the four FIFO modules.
  \<^item> Scx, Scx_Correct, Scx_Props, Scx_Loader: scx_simple.bpf.c, both copies, and the loader scx_simple.c. Order by virtual
    time across its wrap, the charge, which threads ever run, the statistics, a restart; what the loader prints and returns.
    Scx_Race: the race of \<open>simple_running\<close> on \<open>vtime_now\<close>, its test and its write as two steps.
  \<^item> Launch, Launch_Props: code/schedstart and code/set_sched. SchedApi, SchedApi_Props: code/sched-api, with all
    interleavings of its threads as schedules. Stress: code/stress_children and code/stress_threads, with
    their loops over random numbers. TestModules: modules/cpumasks, modules/test_oh_lock,
    modules/discover_topology and code/test_sleep.
  \<^item> A theory that ends in \<open>_Props\<close> has the properties of its component and a concrete run for each.

  Termination. All definitions are total functions but \<open>pick_idle_cpu\<close> (Rusty_Pick), which
  retries until the cpu it picked is still idle when it claims it: it is a partial function, and
  \<open>rusty_pick_idle_cpu_terminates\<close> proves that it returns, since a failed try takes a cpu out
  of the mask (when nothing interferes; the concurrent steps in Rusty_Race are total functions). No fuel
  is used. The programs with threads run along a finite schedule; that every run can be brought to its end
  is proved.

  Limits of the model. A handler runs to its end before the next one starts, except in GlobalFifo_Conc,
  where the sections of \<open>fifo_newly_idle\<close> are apart, in Rusty_Race
  (\<open>pick_idle_cpu\<close> only), and in Locks, where only the locks count: what a lock protects is
  checked on the trace, not on interleaved memory accesses. Which locks the framework holds when it
  calls a handler is not in the repository: in Locks they are any locks of tasks and cores, taken upwards,
  but a call that takes locks of cores itself is made with none of them held (otherwise it may wait for
  itself: lemma \<open>held_lock_stuck\<close>). \<open>ipanema_double_lock_core\<close> is taken to lock the lower cpu first.
  In Modules every policy has threads of its own, and the references that keep a module in memory are not
  counted. The properties of the policies hold for event sequences that follow the calling protocol. In
  the framework's laws a thread's queue position, state and cpu change only by the calls made. Whether allocations
  succeed is one answer for each kind (the object, the small masks, the others) during a call. The size
  passed to an allocation is modelled where it is wrong, for the masks of rusty_saakm.c that are allocated
  with the size of an \<open>unsigned int\<close> (\<open>mask_fits\<close>). The watchdog of sched_ext, which ejects a scheduler that
  leaves threads waiting, and what happens after an ejection are not modelled.

  Not modelled, and why. The kernel framework, the scheduler core and the BPF runtime are not in the
  repository: they are parameters. Messages to the log and to the terminal, and the fixed text of the procfs
  files, have no effect on the state; where a program only prints, its lines are a list. In the loader the code
  of the skeleton is generated: whether its steps succeed are arguments. Scripts, build files, benchmark data,
  documents and papers are not program logic.
\<close>

end
